(* ===== verification/Prelude.thy ===== *)
theory Prelude
  imports Complex_Main
begin

text \<open>
  Shared vocabulary of the development. Both games of the repository
  (\<open>src/snake.py\<close> and \<open>src/frites_game.py\<close>) are Python/Tk programs whose
  handlers mutate one game object, draw from Python's \<open>random\<close> module and
  re-register a timer callback. This theory holds what their models share:
  \<^item> the outcome type of a handler: \<open>None\<close> when the handler never returns
    (a \<open>while True\<close> loop that does not exit), \<open>Some (Inl e)\<close> when it raises
    the Python exception \<open>e\<close>, \<open>Some (Inr v)\<close> when it returns normally with
    the new state \<open>v\<close>; with its bind \<open>bind_out\<close> and the lemmas that let
    \<open>simp\<close> run through a chain of calls;
  \<^item> the random source: one stream of raw draws of the generator, read by a
    cursor; \<open>randint\<close> and \<open>uniform\<close> consume one draw each and map it into the
    range the call asks for;
  \<^item> integer cells of a grid, Python's \<open>%\<close> with its \<open>ZeroDivisionError\<close>, and
    the counting of pending timer callbacks.
\<close>

section \<open>Python exceptions and handler outcomes\<close>

datatype py_exc = IndexError | ZeroDivisionError

type_synonym 'a outcome = "(py_exc + 'a) option"

definition ret :: "'a \<Rightarrow> 'a outcome" where
  "ret v = Some (Inr v)"

definition raise :: "py_exc \<Rightarrow> 'a outcome" where
  "raise e = Some (Inl e)"

definition bind_out :: "'a outcome \<Rightarrow> ('a \<Rightarrow> 'b outcome) \<Rightarrow> 'b outcome" where
  "bind_out m f = (case m of None \<Rightarrow> None | Some (Inl e) \<Rightarrow> Some (Inl e) | Some (Inr v) \<Rightarrow> f v)"

text \<open>A computation that cannot raise (an \<open>option\<close>: \<open>None\<close> for not returning) lifted to an outcome.\<close>

definition lift_opt :: "'a option \<Rightarrow> 'a outcome" where
  "lift_opt m = map_option Inr m"

named_theorems outcome_simps "rules that run a chain of handler calls"

lemma bind_out_ret [simp, outcome_simps]: "bind_out (ret v) f = f v"
  by (simp add: bind_out_def ret_def)

lemma bind_out_raise [simp, outcome_simps]: "bind_out (raise e) f = raise e"
  by (simp add: bind_out_def raise_def)

lemma bind_out_None [simp, outcome_simps]: "bind_out None f = None"
  by (simp add: bind_out_def)

lemma lift_opt_None [simp, outcome_simps]: "lift_opt None = None"
  by (simp add: lift_opt_def)

lemma lift_opt_Some [simp, outcome_simps]: "lift_opt (Some v) = ret v"
  by (simp add: lift_opt_def ret_def)

lemma ret_inject [simp]: "ret a = ret b \<longleftrightarrow> a = b"
  by (simp add: ret_def)

lemma ret_not_raise [simp]: "ret a \<noteq> raise e" "raise e \<noteq> ret a"
  by (simp_all add: ret_def raise_def)

lemma ret_not_None [simp]: "ret a \<noteq> None" "None \<noteq> ret a"
  by (simp_all add: ret_def)

lemma raise_not_None [simp]: "raise e \<noteq> None"
  by (simp add: raise_def)

lemma Some_Inr_is_ret: "Some (Inr v) = ret v"
  by (simp add: ret_def)

lemma bind_out_ret_right [simp]: "bind_out m ret = m"
  by (auto simp: bind_out_def ret_def split: option.splits sum.splits)

lemma bind_out_eq_ret:
  "bind_out m f = ret w \<longleftrightarrow> (\<exists>v. m = ret v \<and> f v = ret w)"
  by (auto simp: bind_out_def ret_def split: option.splits sum.splits)

lemma bind_out_eq_raise:
  "bind_out m f = raise e \<longleftrightarrow> m = raise e \<or> (\<exists>v. m = ret v \<and> f v = raise e)"
  by (auto simp: bind_out_def ret_def raise_def split: option.splits sum.splits)

lemma bind_out_eq_None:
  "bind_out m f = None \<longleftrightarrow> m = None \<or> (\<exists>v. m = ret v \<and> f v = None)"
  by (auto simp: bind_out_def ret_def split: option.splits sum.splits)

lemma lift_opt_eq_ret [simp]: "lift_opt m = ret v \<longleftrightarrow> m = Some v"
  by (cases m) (auto simp: lift_opt_def ret_def)

lemma bind_lift_opt_eq_ret:
  "bind_out (lift_opt m) f = ret w \<longleftrightarrow> (\<exists>v. m = Some v \<and> f v = ret w)"
  by (auto simp: bind_out_eq_ret)

lemma bind_lift_opt_eq_raise:
  "bind_out (lift_opt m) f = raise e \<longleftrightarrow> (\<exists>v. m = Some v \<and> f v = raise e)"
  by (cases m) (auto simp: lift_opt_def bind_out_def raise_def)

lemma lift_opt_not_raise [simp]: "lift_opt m \<noteq> raise e"
  by (cases m) (auto simp: lift_opt_def raise_def)

text \<open>The outcome of a handler with part of its result forgotten.\<close>

definition map_out :: "('a \<Rightarrow> 'b) \<Rightarrow> 'a outcome \<Rightarrow> 'b outcome" where
  "map_out f m = bind_out m (\<lambda>v. ret (f v))"

lemma map_out_simps [simp, outcome_simps]:
  "map_out f (ret v) = ret (f v)" "map_out f (raise e) = raise e" "map_out f None = None"
  by (simp_all add: map_out_def)

lemma map_out_bind: "map_out f (bind_out m g) = bind_out m (\<lambda>v. map_out f (g v))"
  by (cases m) (auto simp: map_out_def bind_out_def split: sum.splits)

lemma map_out_eq_ret: "map_out f m = ret w \<longleftrightarrow> (\<exists>v. m = ret v \<and> f v = w)"
  by (auto simp: map_out_def bind_out_eq_ret)

lemma outcome_cases [case_names None Raise Ret]:
  "(m = None \<Longrightarrow> P) \<Longrightarrow> (\<And>e. m = raise e \<Longrightarrow> P) \<Longrightarrow> (\<And>v. m = ret v \<Longrightarrow> P) \<Longrightarrow> P"
  by (metis not_None_eq sumE ret_def raise_def)

lemma bind_map_out: "bind_out (map_out f m) g = bind_out m (\<lambda>v. g (f v))"
  by (cases m rule: outcome_cases) simp_all

section \<open>Python integer operations\<close>

text \<open>
  Python's \<open>a % b\<close> on integers has the sign of \<open>b\<close>, as Isabelle's \<open>mod\<close> on
  \<open>int\<close> has, and raises \<open>ZeroDivisionError\<close> for \<open>b = 0\<close>, where HOL's
  \<open>mod\<close> returns \<open>a\<close>.
\<close>

definition py_mod :: "int \<Rightarrow> int \<Rightarrow> int outcome" where
  "py_mod a b = (if b = 0 then raise ZeroDivisionError else ret (a mod b))"

lemma py_mod_nonzero [simp, outcome_simps]: "b \<noteq> 0 \<Longrightarrow> py_mod a b = ret (a mod b)"
  by (simp add: py_mod_def)

section \<open>The random source\<close>

text \<open>
  Python's \<open>random\<close> module is one generator whose successive outputs the
  program consumes in order. It is modelled as a stream \<open>rs\<close> of raw draws
  and a cursor \<open>k\<close>, the number of draws consumed so far; a call consumes
  \<open>rs k\<close> and advances the cursor. Every sequence of outputs of the generator
  is such a stream, so a property proved for every \<open>rs\<close> holds whatever the
  seed.
  \<^item> \<open>random.randint(lo, hi)\<close> returns \<open>lo + randbelow(hi - lo + 1)\<close>; a raw
    draw \<open>r\<close> gives \<open>randbelow(n) = r mod n\<close>, which reaches every value of the
    range.
  \<^item> \<open>random.uniform(a, b)\<close> returns \<open>a + (b - a) * random()\<close>, and
    \<open>random()\<close> is a 53-bit fraction in \<open>[0, 1)\<close>, here \<open>(r mod 2^53) / 2^53\<close>.
\<close>

type_synonym rng = "nat \<Rightarrow> nat"

definition randint :: "int \<Rightarrow> int \<Rightarrow> nat \<Rightarrow> int" where
  "randint lo hi r = lo + int r mod (hi - lo + 1)"

definition random_frac :: "nat \<Rightarrow> real" where
  "random_frac r = real (r mod 2 ^ 53) / 2 ^ 53"

definition uniform :: "real \<Rightarrow> real \<Rightarrow> nat \<Rightarrow> real" where
  "uniform a b r = a + (b - a) * random_frac r"

lemma randint_bounds:
  assumes "lo \<le> hi"
  shows "lo \<le> randint lo hi r \<and> randint lo hi r \<le> hi"
proof -
  have pos: "0 < hi - lo + 1" using assms by simp
  then have "0 \<le> int r mod (hi - lo + 1)" by (rule pos_mod_sign)
  moreover from pos have "int r mod (hi - lo + 1) < hi - lo + 1" by (rule pos_mod_bound)
  ultimately show ?thesis unfolding randint_def by linarith
qed

lemma randint_surj:
  assumes "lo \<le> v" "v \<le> hi"
  shows "randint lo hi (nat (v - lo)) = v"
  using assms by (simp add: randint_def)

lemma random_frac_bounds: "0 \<le> random_frac r \<and> random_frac r < 1"
proof -
  have "r mod 2 ^ 53 < (2 :: nat) ^ 53" by simp
  then have "real (r mod 2 ^ 53) < 2 ^ 53"
    by (metis of_nat_less_iff of_nat_numeral of_nat_power)
  then show ?thesis by (simp add: random_frac_def)
qed

lemma uniform_bounds:
  assumes "a \<le> b"
  shows "a \<le> uniform a b r \<and> uniform a b r \<le> b"
proof -
  from random_frac_bounds [of r] have f: "0 \<le> random_frac r" "random_frac r \<le> 1" by auto
  from assms f(1) have "0 \<le> (b - a) * random_frac r" by simp
  moreover from assms f(2) have "(b - a) * random_frac r \<le> (b - a)"
    by (simp add: mult_left_le)
  ultimately show ?thesis by (simp add: uniform_def)
qed

lemma random_frac_0 [simp]: "random_frac 0 = 0"
  by (simp add: random_frac_def)

section \<open>Timer callbacks\<close>

text \<open>
  \<open>root.after(ms, f)\<close> registers one callback; Tk runs it once, later, on the
  same thread. The models count the registered, not yet run, callbacks of the
  game loop: a handler that returns \<open>True\<close> for ``rescheduled'' adds one, a
  fired callback removes one.
\<close>

definition after_count :: "nat \<Rightarrow> bool \<Rightarrow> nat" where
  "after_count n rescheduled = (if rescheduled then Suc n else n)"

lemma after_count_simps [simp]:
  "after_count n True = Suc n" "after_count n False = n"
  by (simp_all add: after_count_def)

lemma after_count_ge: "n \<le> after_count n b"
  by (cases b) simp_all

section \<open>Grid cells and lists\<close>

type_synonym cell = "int \<times> int"

text \<open>Facts on the deque operations the snake uses: \<open>appendleft\<close> is \<open>#\<close>, \<open>pop\<close> is \<open>butlast\<close>.\<close>

lemma distinct_Cons_butlast:
  "distinct xs \<Longrightarrow> x \<notin> set xs \<Longrightarrow> distinct (x # butlast xs)"
  by (auto simp: distinct_butlast dest: in_set_butlastD)

lemma set_Cons_butlast_subset: "set (x # butlast xs) \<subseteq> insert x (set xs)"
  by (auto dest: in_set_butlastD)

lemma length_Cons_butlast [simp]: "xs \<noteq> [] \<Longrightarrow> length (x # butlast xs) = length xs"
  by simp

end
