(* ===== verification/Snake_Core.thy ===== *)
theory Snake_Core
  imports Prelude
begin

text \<open>
  The state and the handlers of \<open>SnakeGame\<close> (\<open>src/snake.py\<close>), without the
  drawing calls: the record \<open>snake_game\<close> holds the fields the handlers read and
  write; \<open>spawn_food\<close>, \<open>move_snake\<close>, \<open>game_loop\<close>, \<open>init_game\<close>,
  \<open>restart_game\<close>, \<open>toggle_pause\<close>, \<open>change_direction\<close>,
  \<open>toggle_fullscreen\<close> and \<open>exit_fullscreen\<close> are the methods of the same
  names. A method that draws random numbers takes the stream and the cursor and
  returns the new cursor; a method that calls \<open>game_loop\<close> returns whether the
  loop re-registered itself with \<open>root.after\<close>.
\<close>

section \<open>Constants\<close>

definition WINDOW_WIDTH :: int where "WINDOW_WIDTH = 600"
definition WINDOW_HEIGHT :: int where "WINDOW_HEIGHT = 600"
definition GRID_SIZE :: int where "GRID_SIZE = 20"
definition GRID_WIDTH :: int where "GRID_WIDTH = WINDOW_WIDTH div GRID_SIZE"
definition GRID_HEIGHT :: int where "GRID_HEIGHT = WINDOW_HEIGHT div GRID_SIZE"

type_synonym dir = "int \<times> int"

definition UP :: dir where "UP = (0, -1)"
definition DOWN :: dir where "DOWN = (0, 1)"
definition LEFT :: dir where "LEFT = (-1, 0)"
definition RIGHT :: dir where "RIGHT = (1, 0)"

named_theorems snake_consts "the module constants of snake.py, unfolded"

lemma GRID_WIDTH_val [simp, snake_consts]: "GRID_WIDTH = 30"
  by (simp add: GRID_WIDTH_def WINDOW_WIDTH_def GRID_SIZE_def)

lemma GRID_HEIGHT_val [simp, snake_consts]: "GRID_HEIGHT = 30"
  by (simp add: GRID_HEIGHT_def WINDOW_HEIGHT_def GRID_SIZE_def)

lemmas dir_defs [snake_consts] = UP_def DOWN_def LEFT_def RIGHT_def

section \<open>State\<close>

text \<open>
  The fields of \<open>SnakeGame\<close> that the game logic uses (\<open>__init__\<close>, lines
  82--89, and \<open>is_fullscreen\<close>, line 40). The deque \<open>self.snake\<close> is a list with
  the head first: \<open>appendleft\<close> is \<open>#\<close> and \<open>pop\<close> is \<open>butlast\<close>;
  \<open>food_pos\<close> is \<open>None\<close> until the first \<open>spawn_food\<close>.
\<close>

record snake_game =
  snake :: "cell list"
  direction :: dir
  next_direction :: dir
  food_pos :: "cell option"
  score :: int
  game_over :: bool
  paused :: bool
  game_started :: bool
  is_fullscreen :: bool

definition snake_init :: snake_game where
  "snake_init = \<lparr>snake = [], direction = RIGHT, next_direction = RIGHT, food_pos = None,
     score = 0, game_over = False, paused = False, game_started = False,
     is_fullscreen = False\<rparr>"

section \<open>Handlers\<close>

definition toggle_fullscreen :: "snake_game \<Rightarrow> snake_game" where
  "toggle_fullscreen g = g\<lparr>is_fullscreen := \<not> is_fullscreen g\<rparr>"

definition exit_fullscreen :: "snake_game \<Rightarrow> snake_game" where
  "exit_fullscreen g = (if is_fullscreen g then g\<lparr>is_fullscreen := False\<rparr> else g)"

text \<open>
  \<open>spawn_food\<close> draws a column and a row with \<open>randint\<close> until the cell is
  not on the snake. Nothing bounds the number of rounds: the loop is a partial
  function, \<open>None\<close> where it never exits.
\<close>

partial_function (option) spawn_food :: "rng \<Rightarrow> snake_game \<Rightarrow> nat \<Rightarrow> (snake_game \<times> nat) option" where
  "spawn_food rs g k =
     (let x = randint 0 (GRID_WIDTH - 1) (rs k);
          y = randint 0 (GRID_HEIGHT - 1) (rs (Suc k))
      in if (x, y) \<notin> set (snake g) then Some (g\<lparr>food_pos := Some (x, y)\<rparr>, Suc (Suc k))
         else spawn_food rs g (Suc (Suc k)))"

declare spawn_food.simps [code]

text \<open>
  \<open>move_snake\<close> commits the buffered heading, then fails on a wall or on any
  cell of the body, else pushes the new head and either grows (food eaten: score,
  new food) or pops the tail. \<open>self.snake[0]\<close> on an empty deque raises
  \<open>IndexError\<close>. The result is \<open>(moved, state, cursor)\<close>.
\<close>

definition move_snake :: "rng \<Rightarrow> snake_game \<Rightarrow> nat \<Rightarrow> (bool \<times> snake_game \<times> nat) outcome" where
  "move_snake rs g k =
     (let g1 = g\<lparr>direction := next_direction g\<rparr> in
      case snake g1 of
        [] \<Rightarrow> raise IndexError
      | (head_x, head_y) # _ \<Rightarrow>
          (let new_head = (head_x + fst (direction g1), head_y + snd (direction g1)) in
           if fst new_head < 0 \<or> fst new_head \<ge> GRID_WIDTH \<or>
              snd new_head < 0 \<or> snd new_head \<ge> GRID_HEIGHT then ret (False, g1, k)
           else if new_head \<in> set (snake g1) then ret (False, g1, k)
           else
             (let g2 = g1\<lparr>snake := new_head # snake g1\<rparr> in
              if food_pos g2 = Some new_head then
                bind_out (lift_opt (spawn_food rs (g2\<lparr>score := score g2 + 10\<rparr>) k))
                  (\<lambda>(g3, k'). ret (True, g3, k'))
              else ret (True, g2\<lparr>snake := butlast (snake g2)\<rparr>, k))))"

text \<open>
  \<open>game_loop\<close> returns at once when the game is over or paused; otherwise it
  moves the snake, and ends the game on a failed move, or redraws and
  re-registers itself. The result is \<open>(state, cursor, rescheduled)\<close>.
\<close>

definition game_loop :: "rng \<Rightarrow> snake_game \<Rightarrow> nat \<Rightarrow> (snake_game \<times> nat \<times> bool) outcome" where
  "game_loop rs g k =
     (if game_over g \<or> paused g then ret (g, k, False)
      else bind_out (move_snake rs g k)
        (\<lambda>(moved, g', k'). if \<not> moved then ret (g'\<lparr>game_over := True\<rparr>, k', False)
                            else ret (g', k', True)))"

definition init_game :: "rng \<Rightarrow> snake_game \<Rightarrow> nat \<Rightarrow> (snake_game \<times> nat \<times> bool) outcome" where
  "init_game rs g k =
     (let g1 = g\<lparr>snake := [(GRID_WIDTH div 2, GRID_HEIGHT div 2)], direction := RIGHT,
                 next_direction := RIGHT, score := 0, game_over := False, paused := False,
                 game_started := True\<rparr>
      in bind_out (lift_opt (spawn_food rs g1 k)) (\<lambda>(g2, k2). game_loop rs g2 k2))"

definition restart_game :: "rng \<Rightarrow> snake_game \<Rightarrow> nat \<Rightarrow> (snake_game \<times> nat \<times> bool) outcome" where
  "restart_game rs g k = init_game rs g k"

definition toggle_pause :: "rng \<Rightarrow> snake_game \<Rightarrow> nat \<Rightarrow> (snake_game \<times> nat \<times> bool) outcome" where
  "toggle_pause rs g k =
     (if game_started g \<and> \<not> game_over g then
        (let g1 = g\<lparr>paused := \<not> paused g\<rparr> in
         if paused g1 then ret (g1, k, False) else game_loop rs g1 k)
      else ret (g, k, False))"

definition change_direction :: "rng \<Rightarrow> dir \<Rightarrow> snake_game \<Rightarrow> nat \<Rightarrow> (snake_game \<times> nat \<times> bool) outcome" where
  "change_direction rs new_direction g k =
     (if \<not> game_started g then init_game rs g k
      else if (fst new_direction * -1, snd new_direction * -1) \<noteq> direction g
        then ret (g\<lparr>next_direction := new_direction\<rparr>, k, False)
      else ret (g, k, False))"

end
