(* ===== verification/Snake_Invariant.thy ===== *)
theory Snake_Invariant
  imports Snake_Core
begin

text \<open>
  What stays true of a snake game between handlers (\<open>snake_inv\<close>): the body is
  a non-empty, duplicate-free chain of orthogonally adjacent cells inside the
  grid, the food is a grid cell off the body, the score is ten times the number
  of cells grown, the flags agree (never over and paused at once; before the
  first start the body is empty) and the buffered heading is never the reverse
  of the committed one. The lemmas show what \<open>spawn_food\<close> and
  \<open>move_snake\<close> compute on every branch, when \<open>spawn_food\<close> returns and when
  it never does, and that every handler of \<open>Snake_Core\<close> keeps the invariant.
\<close>

section \<open>Shape of the snake\<close>

definition in_grid :: "cell \<Rightarrow> bool" where
  "in_grid c \<longleftrightarrow> 0 \<le> fst c \<and> fst c < GRID_WIDTH \<and> 0 \<le> snd c \<and> snd c < GRID_HEIGHT"

definition adjacent :: "cell \<Rightarrow> cell \<Rightarrow> bool" where
  "adjacent a b \<longleftrightarrow> \<bar>fst a - fst b\<bar> + \<bar>snd a - snd b\<bar> = 1"

fun adjacent_chain :: "cell list \<Rightarrow> bool" where
  "adjacent_chain (a # b # rest) \<longleftrightarrow> adjacent a b \<and> adjacent_chain (b # rest)"
| "adjacent_chain _ \<longleftrightarrow> True"

definition is_heading :: "dir \<Rightarrow> bool" where
  "is_heading d \<longleftrightarrow> d \<in> set [UP, DOWN, LEFT, RIGHT]"

definition opposite :: "dir \<Rightarrow> dir" where
  "opposite d = (fst d * -1, snd d * -1)"

definition food_ok :: "snake_game \<Rightarrow> bool" where
  "food_ok g \<longleftrightarrow> (case food_pos g of None \<Rightarrow> False | Some f \<Rightarrow> f \<notin> set (snake g) \<and> in_grid f)"

definition body_ok :: "cell list \<Rightarrow> bool" where
  "body_ok b \<longleftrightarrow> b \<noteq> [] \<and> distinct b \<and> list_all in_grid b \<and> adjacent_chain b"

definition snake_inv :: "snake_game \<Rightarrow> bool" where
  "snake_inv g \<longleftrightarrow>
     (if game_started g then
        body_ok (snake g) \<and> food_ok g \<and> score g = 10 * (int (length (snake g)) - 1)
      else snake g = [] \<and> \<not> game_over g \<and> \<not> paused g \<and> score g = 0 \<and> direction g = RIGHT) \<and>
     \<not> (game_over g \<and> paused g) \<and>
     is_heading (direction g) \<and> is_heading (next_direction g) \<and>
     next_direction g \<noteq> opposite (direction g)"

lemma adjacent_chain_Cons:
  "adjacent_chain (a # xs) \<longleftrightarrow> (case xs of [] \<Rightarrow> True | b # _ \<Rightarrow> adjacent a b) \<and> adjacent_chain xs"
  by (cases xs) auto

lemma adjacent_chain_butlast: "adjacent_chain xs \<Longrightarrow> adjacent_chain (butlast xs)"
  by (induction xs rule: adjacent_chain.induct) (auto simp: adjacent_chain_Cons split: list.splits)

lemma heading_step_adjacent:
  "is_heading d \<Longrightarrow> adjacent (fst h + fst d, snd h + snd d) h"
  by (auto simp: is_heading_def adjacent_def dir_defs)

lemma opposite_heading_ne: "is_heading d \<Longrightarrow> d \<noteq> opposite d"
  by (auto simp: is_heading_def opposite_def dir_defs)

lemma food_ok_upd [simp]:
  "food_ok (g\<lparr>game_over := b\<rparr>) = food_ok g" "food_ok (g\<lparr>paused := b\<rparr>) = food_ok g"
  "food_ok (g\<lparr>direction := d\<rparr>) = food_ok g" "food_ok (g\<lparr>next_direction := d\<rparr>) = food_ok g"
  "food_ok (g\<lparr>is_fullscreen := b\<rparr>) = food_ok g" "food_ok (g\<lparr>score := n\<rparr>) = food_ok g"
  by (simp_all add: food_ok_def split: option.splits)

section \<open>spawn_food\<close>

lemma spawn_food_draw_in_grid:
  "in_grid (randint 0 (GRID_WIDTH - 1) (rs k), randint 0 (GRID_HEIGHT - 1) (rs (Suc k)))"
  using randint_bounds [of 0 "GRID_WIDTH - 1" "rs k"] randint_bounds [of 0 "GRID_HEIGHT - 1" "rs (Suc k)"]
  by (simp add: in_grid_def)

lemma spawn_food_Some_gen:
  assumes "spawn_food rs g k = Some r"
  shows "\<exists>f. fst r = g\<lparr>food_pos := Some f\<rparr> \<and> f \<notin> set (snake g) \<and> in_grid f \<and> Suc (Suc k) \<le> snd r"
proof (rule spawn_food.raw_induct [where P = "\<lambda>rs g k r. \<exists>f. fst r = g\<lparr>food_pos := Some f\<rparr> \<and>
           f \<notin> set (snake g) \<and> in_grid f \<and> Suc (Suc k) \<le> snd r", OF _ assms])
  fix spawn :: "rng \<Rightarrow> snake_game \<Rightarrow> nat \<Rightarrow> (snake_game \<times> nat) option" and rs g k r
  assume IH: "\<And>rs g k r. spawn rs g k = Some r \<Longrightarrow> \<exists>f. fst r = g\<lparr>food_pos := Some f\<rparr> \<and>
           f \<notin> set (snake g) \<and> in_grid f \<and> Suc (Suc k) \<le> snd r"
    and eq: "(let x = randint 0 (GRID_WIDTH - 1) (rs k); y = randint 0 (GRID_HEIGHT - 1) (rs (Suc k))
       in if (x, y) \<notin> set (snake g) then Some (g\<lparr>food_pos := Some (x, y)\<rparr>, Suc (Suc k))
          else spawn rs g (Suc (Suc k))) = Some r"
  show "\<exists>f. fst r = g\<lparr>food_pos := Some f\<rparr> \<and> f \<notin> set (snake g) \<and> in_grid f \<and> Suc (Suc k) \<le> snd r"
  proof (cases "(randint 0 (GRID_WIDTH - 1) (rs k), randint 0 (GRID_HEIGHT - 1) (rs (Suc k))) \<in> set (snake g)")
    case False
    let ?f = "(randint 0 (GRID_WIDTH - 1) (rs k), randint 0 (GRID_HEIGHT - 1) (rs (Suc k)))"
    from False eq have "r = (g\<lparr>food_pos := Some ?f\<rparr>, Suc (Suc k))" by (simp add: Let_def)
    with False spawn_food_draw_in_grid [of rs k] show ?thesis by (intro exI [of _ ?f]) simp
  next
    case True
    with eq have "spawn rs g (Suc (Suc k)) = Some r" by (simp add: Let_def)
    from IH [OF this] obtain f where "fst r = g\<lparr>food_pos := Some f\<rparr>" "f \<notin> set (snake g)"
      "in_grid f" "Suc (Suc (Suc (Suc k))) \<le> snd r" by blast
    then show ?thesis by (intro exI [of _ f]) simp
  qed
qed

lemma spawn_food_Some:
  "spawn_food rs g k = Some (g', k') \<Longrightarrow>
   \<exists>f. g' = g\<lparr>food_pos := Some f\<rparr> \<and> f \<notin> set (snake g) \<and> in_grid f \<and> Suc (Suc k) \<le> k'"
  using spawn_food_Some_gen [of rs g k "(g', k')"] by simp



definition grid_cells :: "cell list" where
  "grid_cells = [(x, y). x \<leftarrow> [0..GRID_WIDTH - 1], y \<leftarrow> [0..GRID_HEIGHT - 1]]"

lemma in_set_grid_cells: "c \<in> set grid_cells \<longleftrightarrow> in_grid c"
  by (cases c) (force simp: grid_cells_def in_grid_def)


section \<open>move_snake\<close>

lemma move_snake_Cons:
  assumes "snake g = h # t"
  shows "move_snake rs g k =
    (let d = next_direction g; nh = (fst h + fst d, snd h + snd d); g1 = g\<lparr>direction := d\<rparr> in
     if \<not> in_grid nh \<or> nh \<in> set (h # t) then ret (False, g1, k)
     else if food_pos g = Some nh then
       bind_out (lift_opt (spawn_food rs (g1\<lparr>snake := nh # h # t, score := score g + 10\<rparr>) k))
         (\<lambda>(g3, k'). ret (True, g3, k'))
     else ret (True, g1\<lparr>snake := nh # butlast (h # t)\<rparr>, k))"
  using assms by (cases h) (auto simp: move_snake_def in_grid_def Let_def not_less)

lemma move_snake_Nil: "snake g = [] \<Longrightarrow> move_snake rs g k = raise IndexError"
  by (simp add: move_snake_def)

lemma move_snake_ret_started:
  "snake_inv g \<Longrightarrow> move_snake rs g k = ret r \<Longrightarrow> snake g \<noteq> [] \<and> game_started g"
  by (cases "snake g") (auto simp: move_snake_Nil snake_inv_def split: if_splits)

lemma move_snake_no_raise: "snake g \<noteq> [] \<Longrightarrow> move_snake rs g k \<noteq> raise e"
  by (auto simp: neq_Nil_conv move_snake_Cons Let_def bind_lift_opt_eq_raise split: if_splits)

lemma move_snake_fail:
  "move_snake rs g k = ret (False, g', k') \<Longrightarrow> g' = g\<lparr>direction := next_direction g\<rparr> \<and> k' = k"
  by (cases "snake g")
     (auto simp: move_snake_Nil move_snake_Cons Let_def bind_out_eq_ret split: if_splits)

lemma move_snake_success:
  assumes "snake g = h # t" and "move_snake rs g k = ret (True, g', k')"
  defines "nh \<equiv> (fst h + fst (next_direction g), snd h + snd (next_direction g))"
  shows "in_grid nh \<and> nh \<notin> set (h # t) \<and> direction g' = next_direction g \<and>
         next_direction g' = next_direction g \<and> game_over g' = game_over g \<and>
         paused g' = paused g \<and> game_started g' = game_started g \<and>
         (if food_pos g = Some nh
          then snake g' = nh # h # t \<and> score g' = score g + 10 \<and>
               (\<exists>f. food_pos g' = Some f \<and> f \<notin> set (snake g') \<and> in_grid f) \<and> Suc (Suc k) \<le> k'
          else snake g' = nh # butlast (h # t) \<and> score g' = score g \<and>
               food_pos g' = food_pos g \<and> k' = k)"
proof -
  have m: "move_snake rs g k = (if \<not> in_grid nh \<or> nh \<in> set (h # t) then ret (False, g\<lparr>direction := next_direction g\<rparr>, k)
     else if food_pos g = Some nh then
       bind_out (lift_opt (spawn_food rs (g\<lparr>direction := next_direction g, snake := nh # h # t, score := score g + 10\<rparr>) k))
         (\<lambda>(g3, k'). ret (True, g3, k'))
     else ret (True, g\<lparr>direction := next_direction g, snake := nh # butlast (h # t)\<rparr>, k))"
    using move_snake_Cons [OF assms(1), of rs k] by (simp add: nh_def Let_def)
  show ?thesis
  proof (cases "\<not> in_grid nh \<or> nh \<in> set (h # t)")
    case True
    with m assms(2) show ?thesis by simp
  next
    case False
    show ?thesis
    proof (cases "food_pos g = Some nh")
      case True
      let ?g2 = "g\<lparr>direction := next_direction g, snake := nh # h # t, score := score g + 10\<rparr>"
      have "bind_out (lift_opt (spawn_food rs ?g2 k)) (\<lambda>(g3, k'). ret (True, g3, k')) = ret (True, g', k')"
        unfolding assms(2) [symmetric] using False True by (simp add: m)
      then have sp: "spawn_food rs ?g2 k = Some (g', k')"
        by (auto simp: bind_lift_opt_eq_ret)
      from spawn_food_Some [OF sp] False True show ?thesis by auto
    next
      case food: False
      with False m assms(2) show ?thesis by auto
    qed
  qed
qed


lemma body_ok_grow:
  "body_ok (h # t) \<Longrightarrow> in_grid nh \<Longrightarrow> nh \<notin> set (h # t) \<Longrightarrow> adjacent nh h \<Longrightarrow> body_ok (nh # h # t)"
  by (simp add: body_ok_def)

lemma body_ok_step:
  assumes "body_ok (h # t)" "in_grid nh" "nh \<notin> set (h # t)" "adjacent nh h"
  shows "body_ok (nh # butlast (h # t))"
proof (cases t)
  case Nil
  with assms show ?thesis by (simp add: body_ok_def)
next
  case (Cons h' t')
  from assms(1) have "adjacent_chain (butlast (h # t))" by (simp add: body_ok_def adjacent_chain_butlast del: butlast.simps)
  with Cons assms show ?thesis
    by (auto simp: body_ok_def distinct_butlast list_all_iff dest: in_set_butlastD)
qed

lemma move_snake_frame:
  assumes "move_snake rs g k = ret (moved, g', k')"
  shows "paused g' = paused g \<and> game_over g' = game_over g \<and> game_started g' = game_started g \<and>
         next_direction g' = next_direction g \<and> direction g' = next_direction g"
proof (cases "snake g")
  case Nil
  with assms show ?thesis by (simp add: move_snake_Nil)
next
  case (Cons h t)
  show ?thesis
  proof (cases moved)
    case True
    with assms move_snake_success [OF Cons] show ?thesis by auto
  next
    case False
    with assms show ?thesis by (auto dest: move_snake_fail)
  qed
qed

section \<open>The invariant is kept by every handler\<close>

lemma snake_inv_started_body:
  "snake_inv g \<Longrightarrow> snake g \<noteq> [] \<Longrightarrow> game_started g \<and> body_ok (snake g) \<and> food_ok g"
  by (auto simp: snake_inv_def split: if_splits)

lemma move_snake_inv:
  assumes inv: "snake_inv g" and mv: "move_snake rs g k = ret (moved, g', k')"
  shows "snake_inv g'"
proof (cases "snake g")
  case Nil
  with mv show ?thesis by (simp add: move_snake_Nil)
next
  case (Cons h t)
  with inv have st: "game_started g" and body: "body_ok (h # t)" and food: "food_ok g"
    using snake_inv_started_body [OF inv] by auto
  from inv have hd: "is_heading (next_direction g)" by (simp add: snake_inv_def)
  have heading': "next_direction g \<noteq> opposite (next_direction g)"
    using opposite_heading_ne [OF hd] .
  show ?thesis
  proof (cases moved)
    case False
    with mv have "g' = g\<lparr>direction := next_direction g\<rparr>" by (simp add: move_snake_fail)
    with inv heading' st show ?thesis by (auto simp: snake_inv_def food_ok_def split: option.splits)
  next
    case True
    let ?nh = "(fst h + fst (next_direction g), snd h + snd (next_direction g))"
    have adj: "adjacent ?nh h" by (rule heading_step_adjacent [OF hd])
    from mv True have mv': "move_snake rs g k = ret (True, g', k')" by simp
    note succ = move_snake_success [OF Cons mv']
    show ?thesis
    proof (cases "food_pos g = Some ?nh")
      case eat: True
      with succ have "body_ok (snake g')" using body_ok_grow [OF body _ _ adj] by auto
      with succ eat inv st Cons heading' hd show ?thesis
        by (auto simp: snake_inv_def food_ok_def)
    next
      case eat: False
      with succ have "body_ok (snake g')" using body_ok_step [OF body _ _ adj] by auto
      moreover from eat succ food Cons have "food_ok g'"
        by (auto simp: food_ok_def dest: in_set_butlastD split: option.splits)
      ultimately show ?thesis using succ eat inv st Cons heading' hd
        by (auto simp: snake_inv_def)
    qed
  qed
qed

lemma game_loop_inv:
  assumes inv: "snake_inv g" and gl: "game_loop rs g k = ret (g', k', b)"
  shows "snake_inv g'"
proof (cases "game_over g \<or> paused g")
  case True
  with gl inv show ?thesis by (simp add: game_loop_def)
next
  case False
  with gl obtain moved g1 k1 where mv: "move_snake rs g k = ret (moved, g1, k1)"
    and res: "(if \<not> moved then ret (g1\<lparr>game_over := True\<rparr>, k1, False) else ret (g1, k1, True)) = ret (g', k', b)"
    by (auto simp: game_loop_def bind_out_eq_ret)
  have inv1: "snake_inv g1" by (rule move_snake_inv [OF inv mv])
  have "paused g1 = paused g" "game_started g1" 
    using move_snake_frame [OF mv] move_snake_ret_started [OF inv mv] by simp_all
  with False inv1 res show ?thesis by (auto simp: snake_inv_def split: if_splits)
qed

lemma spawn_food_inv:
  "spawn_food rs g k = Some (g', k') \<Longrightarrow> snake_inv (g\<lparr>food_pos := food_pos g'\<rparr>) \<Longrightarrow> snake_inv g'"
  by (auto dest!: spawn_food_Some)

lemma move_snake_moves:
  assumes "snake g = h # t" "in_grid (fst h + fst (next_direction g), snd h + snd (next_direction g))"
    "(fst h + fst (next_direction g), snd h + snd (next_direction g)) \<notin> set (h # t)"
    "move_snake rs g k = ret (moved, g', k')"
  shows moved
  using assms by (auto simp: move_snake_Cons Let_def bind_lift_opt_eq_ret split: if_splits)

lemma game_loop_direction:
  "game_loop rs g k = ret (g', k', b) \<Longrightarrow> direction g' = direction g \<or> direction g' = next_direction g"
  by (auto simp: game_loop_def bind_out_eq_ret split: if_splits dest!: move_snake_frame)

lemma game_loop_frame:
  "game_loop rs g k = ret (g', k', b) \<Longrightarrow> game_started g' = game_started g"
  by (auto simp: game_loop_def bind_out_eq_ret split: if_splits dest!: move_snake_frame)

text \<open>Only the fullscreen handlers change the fullscreen flag.\<close>

lemma move_snake_fullscreen:
  "move_snake rs g k = ret (m, g', k') \<Longrightarrow> is_fullscreen g' = is_fullscreen g"
  by (auto simp: move_snake_def Let_def bind_lift_opt_eq_ret split: list.splits if_splits dest!: spawn_food_Some)

lemma game_loop_fullscreen:
  "game_loop rs g k = ret (g', k', b) \<Longrightarrow> is_fullscreen g' = is_fullscreen g"
  by (auto simp: game_loop_def bind_out_eq_ret split: if_splits dest!: move_snake_fullscreen)

lemma handlers_fullscreen:
  "init_game rs g k = ret (g', k', b) \<Longrightarrow> is_fullscreen g' = is_fullscreen g"
  "toggle_pause rs g k = ret (g', k', b) \<Longrightarrow> is_fullscreen g' = is_fullscreen g"
  "change_direction rs d g k = ret (g', k', b) \<Longrightarrow> is_fullscreen g' = is_fullscreen g"
  "restart_game rs g k = ret (g', k', b) \<Longrightarrow> is_fullscreen g' = is_fullscreen g"
  by (auto simp: init_game_def toggle_pause_def change_direction_def restart_game_def Let_def bind_lift_opt_eq_ret
           split: if_splits dest!: spawn_food_Some game_loop_fullscreen)

lemma init_game_decomp:
  assumes "init_game rs g k = ret (g', k', b)"
  obtains f k2 where
    "game_loop rs (g\<lparr>snake := [(15, 15)], direction := RIGHT, next_direction := RIGHT,
        score := 0, game_over := False, paused := False, game_started := True, food_pos := Some f\<rparr>) k2 = ret (g', k', b)"
    "f \<noteq> (15, 15)" "in_grid f"
proof -
  let ?g1 = "g\<lparr>snake := [(GRID_WIDTH div 2, GRID_HEIGHT div 2)], direction := RIGHT,
                 next_direction := RIGHT, score := 0, game_over := False, paused := False,
                 game_started := True\<rparr>"
  from assms obtain g2 k2 where sp: "spawn_food rs ?g1 k = Some (g2, k2)"
    and gl: "game_loop rs g2 k2 = ret (g', k', b)"
    by (auto simp: init_game_def bind_lift_opt_eq_ret)
  from spawn_food_Some [OF sp] obtain f where "g2 = ?g1\<lparr>food_pos := Some f\<rparr>"
    "f \<notin> set (snake ?g1)" "in_grid f" by blast
  with gl that show ?thesis by simp
qed

lemma game_loop_no_raise:
  "snake_inv g \<Longrightarrow> game_started g \<Longrightarrow> game_loop rs g k \<noteq> raise e"
  by (auto simp: game_loop_def bind_out_eq_raise snake_inv_def body_ok_def dest: move_snake_no_raise)

lemma init_game_no_raise: "init_game rs g k \<noteq> raise e"
proof
  assume "init_game rs g k = raise e"
  then obtain g2 k2 where sp: "spawn_food rs (g\<lparr>snake := [(GRID_WIDTH div 2, GRID_HEIGHT div 2)],
      direction := RIGHT, next_direction := RIGHT, score := 0, game_over := False, paused := False,
      game_started := True\<rparr>) k = Some (g2, k2)" and gl: "game_loop rs g2 k2 = raise e"
    by (auto simp: init_game_def bind_lift_opt_eq_raise)
  from spawn_food_Some [OF sp] obtain f where "g2 = g\<lparr>snake := [(15, 15)], direction := RIGHT,
      next_direction := RIGHT, score := 0, game_over := False, paused := False,
      game_started := True, food_pos := Some f\<rparr>" by auto
  with gl show False
    by (auto simp: game_loop_def bind_out_eq_raise move_snake_no_raise split: if_splits)
qed

lemma init_game_inv:
  assumes "init_game rs g k = ret (g', k', b)"
  shows "snake_inv g'"
proof -
  from assms obtain f k2 where gl: "game_loop rs (g\<lparr>snake := [(15, 15)], direction := RIGHT,
        next_direction := RIGHT, score := 0, game_over := False, paused := False,
        game_started := True, food_pos := Some f\<rparr>) k2 = ret (g', k', b)" and "f \<noteq> (15, 15)" "in_grid f"
    by (rule init_game_decomp)
  then show ?thesis
    by (elim game_loop_inv [rotated])
       (simp add: snake_inv_def body_ok_def food_ok_def in_grid_def is_heading_def opposite_def dir_defs)
qed

lemma init_game_direction: "init_game rs g k = ret (g', k', b) \<Longrightarrow> direction g' = RIGHT"
  by (erule init_game_decomp) (auto dest: game_loop_direction)

text \<open>The first tick of a new game always succeeds: one cell in the middle of the grid, heading right.\<close>

lemma init_game_running:
  assumes "init_game rs g k = ret (g', k', b)"
  shows "game_started g' \<and> \<not> game_over g' \<and> \<not> paused g' \<and> b"
proof -
  from assms obtain f k2 where gl: "game_loop rs (g\<lparr>snake := [(15, 15)], direction := RIGHT,
        next_direction := RIGHT, score := 0, game_over := False, paused := False,
        game_started := True, food_pos := Some f\<rparr>) k2 = ret (g', k', b)"
    by (rule init_game_decomp)
  then obtain moved g1 k1 where
    mv: "move_snake rs (g\<lparr>snake := [(15, 15)], direction := RIGHT, next_direction := RIGHT,
        score := 0, game_over := False, paused := False, game_started := True, food_pos := Some f\<rparr>) k2 = ret (moved, g1, k1)"
    and res: "(if \<not> moved then ret (g1\<lparr>game_over := True\<rparr>, k1, False) else ret (g1, k1, True)) = ret (g', k', b)"
    by (auto simp: game_loop_def bind_out_eq_ret)
  have moved
    by (rule move_snake_moves [of _ "(15, 15)" "[]", OF _ _ _ mv]) (simp_all add: in_grid_def RIGHT_def)
  with res move_snake_frame [OF mv] show ?thesis by simp
qed

lemma toggle_pause_inv:
  assumes inv: "snake_inv g" and tp: "toggle_pause rs g k = ret (g', k', b)"
  shows "snake_inv g'"
proof (cases "game_started g \<and> \<not> game_over g")
  case False
  with inv tp show ?thesis by (simp add: toggle_pause_def)
next
  case True
  have inv1: "snake_inv (g\<lparr>paused := \<not> paused g\<rparr>)"
    using inv True by (simp add: snake_inv_def)
  show ?thesis
  proof (cases "paused g")
    case True
    with \<open>game_started g \<and> \<not> game_over g\<close> tp
    have "game_loop rs (g\<lparr>paused := \<not> paused g\<rparr>) k = ret (g', k', b)"
      by (simp add: toggle_pause_def)
    from game_loop_inv [OF inv1 this] show ?thesis .
  next
    case False
    with \<open>game_started g \<and> \<not> game_over g\<close> tp inv1 show ?thesis by (simp add: toggle_pause_def)
  qed
qed

lemma change_direction_inv:
  assumes "snake_inv g" "change_direction rs d g k = ret (g', k', b)" "is_heading d"
  shows "snake_inv g'"
  using assms by (auto simp: change_direction_def snake_inv_def opposite_def food_ok_def
      split: if_splits option.splits dest: init_game_inv)

lemma fullscreen_inv:
  "snake_inv g \<Longrightarrow> snake_inv (toggle_fullscreen g)"
  "snake_inv g \<Longrightarrow> snake_inv (exit_fullscreen g)"
  by (auto simp: toggle_fullscreen_def exit_fullscreen_def snake_inv_def food_ok_def split: option.splits)

lemma snake_init_inv: "snake_inv snake_init"
  by (simp add: snake_inv_def snake_init_def is_heading_def opposite_def dir_defs)

section \<open>Properties of the snake's handlers\<close>

text \<open>
  C2. A successful move puts the new head one step along the committed heading in
  front of the old body; when the head lands on the food the whole old body stays
  (growth by one cell) and the score rises by exactly 10, otherwise the tail cell
  is dropped and length and score are unchanged.
\<close>

theorem move_snake_growth:
  assumes "snake g = h # t" and "move_snake rs g k = ret (True, g', k')"
  shows "hd (snake g') = (fst h + fst (next_direction g), snd h + snd (next_direction g)) \<and>
    (if food_pos g = Some (hd (snake g'))
     then tl (snake g') = snake g \<and> length (snake g') = Suc (length (snake g)) \<and> score g' = score g + 10
     else tl (snake g') = butlast (snake g) \<and> length (snake g') = length (snake g) \<and> score g' = score g)"
proof -
  let ?nh = "(fst h + fst (next_direction g), snd h + snd (next_direction g))"
  note succ = move_snake_success [OF assms]
  show ?thesis
  proof (cases "food_pos g = Some ?nh")
    case True
    with succ have "snake g' = ?nh # h # t" "score g' = score g + 10" by simp_all
    with True assms(1) show ?thesis by simp
  next
    case False
    with succ have "snake g' = ?nh # butlast (h # t)" "score g' = score g" by simp_all
    with False assms(1) show ?thesis by simp
  qed
qed

theorem move_snake_growth_witness:
  "let g = snake_init\<lparr>snake := [(10, 10)], food_pos := Some (11, 10), game_started := True\<rparr>;
       g' = g\<lparr>snake := [(11, 10), (10, 10)], score := 10, food_pos := Some (0, 0)\<rparr>
   in snake g = (10, 10) # [] \<and> move_snake (\<lambda>_. 0) g 0 = ret (True, g', 2) \<and>
      hd (snake g') = (11, 10) \<and> length (snake g') = Suc (length (snake g)) \<and> score g' = score g + 10"
proof -
  let ?g = "snake_init\<lparr>snake := [(10, 10)], food_pos := Some (11, 10), game_started := True\<rparr>"
  let ?g' = "?g\<lparr>snake := [(11, 10), (10, 10)], score := 10, food_pos := Some (0, 0)\<rparr>"
  have m: "move_snake (\<lambda>_. 0) ?g 0 = ret (True, ?g', 2)"
    by (simp add: move_snake_def snake_init_def spawn_food.simps randint_def RIGHT_def Let_def)
  from move_snake_growth [OF _ m, of "(10, 10)" "[]"] m show ?thesis
    by (simp add: snake_init_def RIGHT_def)
qed

text \<open>
  C5. The scenario of the spec: a one-cell snake at (10,10) heading right with the
  food at (11,10) moves, its head becomes (11,10) with the old cell behind it
  (length 2), the score rises by 10 and the new food is a cell off the snake.
\<close>

theorem eat_scenario:
  assumes "snake g = [(10, 10)]" "next_direction g = RIGHT" "food_pos g = Some (11, 10)"
    and "move_snake rs g k = ret (moved, g', k')"
  shows "moved \<and> snake g' = [(11, 10), (10, 10)] \<and> score g' = score g + 10 \<and>
         (\<exists>f. food_pos g' = Some f \<and> f \<notin> set (snake g') \<and> in_grid f)"
proof -
  have moved
    by (rule move_snake_moves [of _ "(10, 10)" "[]", OF _ _ _ assms(4)])
       (simp_all add: assms(1,2) in_grid_def RIGHT_def)
  with assms(4) have mv: "move_snake rs g k = ret (True, g', k')" by simp
  note succ = move_snake_success [OF assms(1) mv]
  from succ assms(2,3) have "snake g' = [(11, 10), (10, 10)]" "score g' = score g + 10"
    by (simp_all add: RIGHT_def)
  moreover from succ assms(2,3) obtain f where "food_pos g' = Some f" "f \<notin> set (snake g')" "in_grid f"
    by (auto simp: RIGHT_def)
  ultimately have "snake g' = [(11, 10), (10, 10)] \<and> score g' = score g + 10 \<and>
      (\<exists>f. food_pos g' = Some f \<and> f \<notin> set (snake g') \<and> in_grid f)" by blast
  with \<open>moved\<close> show ?thesis by blast
qed

theorem eat_scenario_witness:
  "let g = snake_init\<lparr>snake := [(10, 10)], food_pos := Some (11, 10), game_started := True\<rparr>;
       g' = g\<lparr>snake := [(11, 10), (10, 10)], score := 10, food_pos := Some (0, 0)\<rparr>
   in snake g = [(10, 10)] \<and> next_direction g = RIGHT \<and> food_pos g = Some (11, 10) \<and>
      move_snake (\<lambda>_. 0) g 0 = ret (True, g', 2) \<and> snake g' = [(11, 10), (10, 10)] \<and> score g' = score g + 10"
proof -
  let ?g = "snake_init\<lparr>snake := [(10, 10)], food_pos := Some (11, 10), game_started := True\<rparr>"
  let ?g' = "?g\<lparr>snake := [(11, 10), (10, 10)], score := 10, food_pos := Some (0, 0)\<rparr>"
  have m: "move_snake (\<lambda>_. 0) ?g 0 = ret (True, ?g', 2)"
    by (simp add: move_snake_def snake_init_def spawn_food.simps randint_def RIGHT_def Let_def)
  have "snake ?g = [(10, 10)]" "next_direction ?g = RIGHT" "food_pos ?g = Some (11, 10)"
    by (simp_all add: snake_init_def)
  from eat_scenario [OF this m] m show ?thesis by (simp add: snake_init_def)
qed



text \<open>
  C7. When the snake covers every cell of the grid, \<open>spawn_food\<close> never returns,
  whatever the random draws: the \<open>while True\<close> loop of \<open>spawn_food\<close> has no exit,
  so eating the last free cell hangs the program.
\<close>

theorem spawn_food_full_board:
  "set grid_cells \<subseteq> set (snake g) \<Longrightarrow> spawn_food rs g k = None"
proof (rule ccontr)
  assume full: "set grid_cells \<subseteq> set (snake g)" and "spawn_food rs g k \<noteq> None"
  then obtain g' k' where "spawn_food rs g k = Some (g', k')" by auto
  from spawn_food_Some [OF this] obtain f where "f \<notin> set (snake g)" "in_grid f" by blast
  with full show False by (auto simp: in_set_grid_cells [symmetric])
qed

theorem spawn_food_full_board_witness:
  "set grid_cells \<subseteq> set (snake (snake_init\<lparr>snake := grid_cells\<rparr>)) \<and>
   spawn_food (\<lambda>_. 0) (snake_init\<lparr>snake := grid_cells\<rparr>) 0 = None"
  using spawn_food_full_board [of "snake_init\<lparr>snake := grid_cells\<rparr>" "\<lambda>_. 0" 0] by simp

text \<open>
  C8. A move into a wall or into any cell of the body ends the game: the loop
  commits the heading, sets \<open>game_over\<close>, leaves the body, score and food as they
  were and does not re-register itself.
\<close>

theorem collision_ends_game:
  assumes "snake g = h # t" "\<not> game_over g" "\<not> paused g"
    and "\<not> in_grid (fst h + fst (next_direction g), snd h + snd (next_direction g)) \<or>
         (fst h + fst (next_direction g), snd h + snd (next_direction g)) \<in> set (h # t)"
  shows "game_loop rs g k = ret (g\<lparr>direction := next_direction g, game_over := True\<rparr>, k, False)"
  using assms by (simp add: game_loop_def move_snake_Cons Let_def)

theorem collision_ends_game_witness:
  "let g = snake_init\<lparr>snake := [(29, 3)], food_pos := Some (0, 0), game_started := True\<rparr> in
   snake g = (29, 3) # [] \<and> \<not> game_over g \<and> \<not> paused g \<and>
   \<not> in_grid (29 + fst (next_direction g), 3 + snd (next_direction g)) \<and>
   game_loop (\<lambda>_. 0) g 0 = ret (g\<lparr>direction := next_direction g, game_over := True\<rparr>, 0, False)"
proof -
  let ?g = "snake_init\<lparr>snake := [(29, 3)], food_pos := Some (0, 0), game_started := True\<rparr>"
  have h: "snake ?g = (29, 3) # []" "\<not> game_over ?g" "\<not> paused ?g"
    "\<not> in_grid (29 + fst (next_direction ?g), 3 + snd (next_direction ?g))"
    by (simp_all add: snake_init_def in_grid_def RIGHT_def)
  from h collision_ends_game [OF h(1-3), of "\<lambda>_. 0" 0] show ?thesis by simp
qed

end
