(* ===== verification/Snake_Events.thy ===== *)
theory Snake_Events
  imports Snake_Invariant
begin

text \<open>
  The snake program as Tk runs it: the key bindings of \<open>SnakeGame.__init__\<close>
  (\<open>src/snake.py\<close>, lines 43--44 and 92--98) dispatch events to the handlers, and
  every \<open>root.after(GAME_SPEED, self.game_loop)\<close> (line 363) registers one
  callback that Tk fires later. The system state \<open>snake_sys\<close> is the game
  object, the cursor of the random stream and the number of registered callbacks
  not yet fired. \<open>snake_step\<close> is one event, \<open>snake_run\<close> a sequence of them,
  \<open>snake_reach\<close> the states some sequence reaches from program start.
\<close>

section \<open>Events and steps\<close>

datatype snake_event =
  KeyUp | KeyDown | KeyLeft | KeyRight | KeySpace | KeyR | KeyF11 | KeyEscape | TimerFire

record snake_sys =
  game :: snake_game
  cursor :: nat
  pending :: nat

definition snake_sys_init :: snake_sys where
  "snake_sys_init = \<lparr>game = snake_init, cursor = 0, pending = 0\<rparr>"

text \<open>A handler's result installed in the system: a handler whose \<open>game_loop\<close> re-registered adds a callback.\<close>

definition run_handler :: "snake_sys \<Rightarrow> (snake_game \<times> nat \<times> bool) outcome \<Rightarrow> snake_sys outcome" where
  "run_handler s r =
     bind_out r (\<lambda>(g, k, b). ret (s\<lparr>game := g, cursor := k, pending := after_count (pending s) b\<rparr>))"

fun snake_step :: "rng \<Rightarrow> snake_sys \<Rightarrow> snake_event \<Rightarrow> snake_sys outcome" where
  "snake_step rs s KeyUp = run_handler s (change_direction rs UP (game s) (cursor s))"
| "snake_step rs s KeyDown = run_handler s (change_direction rs DOWN (game s) (cursor s))"
| "snake_step rs s KeyLeft = run_handler s (change_direction rs LEFT (game s) (cursor s))"
| "snake_step rs s KeyRight = run_handler s (change_direction rs RIGHT (game s) (cursor s))"
| "snake_step rs s KeySpace = run_handler s (toggle_pause rs (game s) (cursor s))"
| "snake_step rs s KeyR = run_handler s (restart_game rs (game s) (cursor s))"
| "snake_step rs s KeyF11 = ret (s\<lparr>game := toggle_fullscreen (game s)\<rparr>)"
| "snake_step rs s KeyEscape = ret (s\<lparr>game := exit_fullscreen (game s)\<rparr>)"
| "snake_step rs s TimerFire =
     (if pending s = 0 then ret s
      else run_handler (s\<lparr>pending := pending s - 1\<rparr>) (game_loop rs (game s) (cursor s)))"

fun snake_run :: "rng \<Rightarrow> snake_sys \<Rightarrow> snake_event list \<Rightarrow> snake_sys outcome" where
  "snake_run rs s [] = ret s"
| "snake_run rs s (e # es) = bind_out (snake_step rs s e) (\<lambda>s'. snake_run rs s' es)"

inductive snake_reach :: "rng \<Rightarrow> snake_sys \<Rightarrow> bool" for rs where
  start: "snake_reach rs snake_sys_init"
| step: "snake_reach rs s \<Longrightarrow> snake_step rs s e = ret s' \<Longrightarrow> snake_reach rs s'"

definition running :: "snake_game \<Rightarrow> bool" where
  "running g \<longleftrightarrow> game_started g \<and> \<not> game_over g \<and> \<not> paused g"

definition sys_inv :: "snake_sys \<Rightarrow> bool" where
  "sys_inv s \<longleftrightarrow> snake_inv (game s) \<and> (running (game s) \<longrightarrow> 0 < pending s) \<and>
     (0 < pending s \<longrightarrow> game_started (game s))"

text \<open>
  The status the spec names (not started, running, paused, over), read off the
  three flags of the code, and the transitions the spec allows for each event:
  the first direction key or a restart starts the game, the pause key toggles
  between running and paused (resuming runs a tick at once, which may end the
  game), a tick of a running game keeps it running or ends it, a restart always
  gives a running game, and nothing else changes the status.
\<close>

datatype status = NotStarted | Running | Paused | Over

definition status_of :: "snake_game \<Rightarrow> status" where
  "status_of g = (if \<not> game_started g then NotStarted else if game_over g then Over
                  else if paused g then Paused else Running)"

fun status_next :: "status \<Rightarrow> snake_event \<Rightarrow> status list" where
  "status_next NotStarted e =
     (if e \<in> set [KeyUp, KeyDown, KeyLeft, KeyRight, KeyR] then [Running] else [NotStarted])"
| "status_next Running e =
     (case e of KeySpace \<Rightarrow> [Paused] | TimerFire \<Rightarrow> [Running, Over] | _ \<Rightarrow> [Running])"
| "status_next Paused e =
     (case e of KeySpace \<Rightarrow> [Running, Over] | KeyR \<Rightarrow> [Running] | _ \<Rightarrow> [Paused])"
| "status_next Over e = (case e of KeyR \<Rightarrow> [Running] | _ \<Rightarrow> [Over])"

section \<open>Runs and reachable states\<close>

lemma snake_run_reach:
  "snake_reach rs s \<Longrightarrow> snake_run rs s es = ret s' \<Longrightarrow> snake_reach rs s'"
proof (induction es arbitrary: s)
  case Nil
  then show ?case by simp
next
  case (Cons e es)
  from Cons.prems(2) obtain s1 where st: "snake_step rs s e = ret s1" and rn: "snake_run rs s1 es = ret s'"
    by (auto simp: bind_out_eq_ret)
  from Cons.prems(1) st have "snake_reach rs s1" by (rule snake_reach.step)
  from Cons.IH [OF this rn] show ?case .
qed

lemma run_handler_ret:
  "run_handler s r = ret s' \<longleftrightarrow>
   (\<exists>g k b. r = ret (g, k, b) \<and> s' = s\<lparr>game := g, cursor := k, pending := after_count (pending s) b\<rparr>)"
  by (auto simp: run_handler_def bind_out_eq_ret)

lemma snake_step_fullscreen:
  assumes "snake_step rs s e = ret s'" "e \<noteq> KeyF11" "e \<noteq> KeyEscape"
  shows "is_fullscreen (game s') = is_fullscreen (game s)"
  using assms
  by (cases e) (auto simp: run_handler_ret split: if_splits dest: handlers_fullscreen game_loop_fullscreen)

section \<open>Timer callbacks\<close>

lemma game_loop_reschedules:
  assumes "snake_inv g" "game_loop rs g k = ret (g', k', b)"
  shows "(running g' \<longrightarrow> b) \<and> (b \<longrightarrow> game_started g')"
proof (cases "game_over g \<or> paused g")
  case True
  with assms(2) show ?thesis by (auto simp: game_loop_def running_def)
next
  case False
  with assms(2) obtain moved g1 k1 where mv: "move_snake rs g k = ret (moved, g1, k1)"
    and res: "(if \<not> moved then ret (g1\<lparr>game_over := True\<rparr>, k1, False) else ret (g1, k1, True)) = ret (g', k', b)"
    by (auto simp: game_loop_def bind_out_eq_ret)
  have "game_started g" using move_snake_ret_started [OF assms(1) mv] by simp
  with move_snake_frame [OF mv] res show ?thesis by (auto simp: running_def split: if_splits)
qed

lemma init_game_sys_inv:
  "init_game rs g k = ret (g', k', b) \<Longrightarrow> sys_inv (s\<lparr>game := g', cursor := k', pending := after_count n b\<rparr>)"
  using init_game_inv [of rs g k g' k' b] init_game_running [of rs g k g' k' b]
  by (simp add: sys_inv_def running_def)

lemma sys_inv_frame:
  "sys_inv s \<Longrightarrow> snake_inv g' \<Longrightarrow> game_started g' = game_started (game s) \<Longrightarrow>
   running g' = running (game s) \<Longrightarrow> sys_inv (s\<lparr>game := g', cursor := k'\<rparr>)"
  by (simp add: sys_inv_def)

lemma change_direction_started:
  "game_started g \<Longrightarrow> change_direction rs d g k = ret (g', k', b) \<Longrightarrow>
   (g' = g \<or> g' = g\<lparr>next_direction := d\<rparr>) \<and> k' = k \<and> \<not> b"
  by (auto simp: change_direction_def split: if_splits)

lemma toggle_pause_cases:
  assumes "toggle_pause rs g k = ret (g', k', b)"
  obtains (idle) "\<not> (game_started g \<and> \<not> game_over g)" "g' = g" "k' = k" "\<not> b"
    | (pause) "game_started g" "\<not> game_over g" "\<not> paused g" "g' = g\<lparr>paused := True\<rparr>" "k' = k" "\<not> b"
    | (resume) "game_started g" "\<not> game_over g" "paused g" "game_loop rs (g\<lparr>paused := False\<rparr>) k = ret (g', k', b)"
proof (cases "game_started g \<and> \<not> game_over g")
  case False
  with assms show ?thesis by (intro idle) (simp_all add: toggle_pause_def)
next
  case started: True
  show ?thesis
  proof (cases "paused g")
    case True
    with started assms show ?thesis by (intro resume) (simp_all add: toggle_pause_def)
  next
    case False
    with started assms show ?thesis by (intro pause) (simp_all add: toggle_pause_def)
  qed
qed

lemma snake_inv_resume: "snake_inv g \<Longrightarrow> snake_inv (g\<lparr>paused := False\<rparr>)"
  by (simp add: snake_inv_def)

lemma sys_inv_after_loop:
  assumes "snake_inv g" "game_loop rs g k = ret (g', k', b)" "game_started g"
  shows "sys_inv (s\<lparr>game := g', cursor := k', pending := after_count n b\<rparr>)"
  using game_loop_inv [OF assms(1,2)] game_loop_reschedules [OF assms(1,2)] game_loop_frame [OF assms(2)] assms(3)
  by (cases b) (simp_all add: sys_inv_def)

lemma change_direction_sys_inv:
  assumes inv: "sys_inv s" and hd: "is_heading d"
    and r: "change_direction rs d (game s) (cursor s) = ret (g, k, b)"
  shows "sys_inv (s\<lparr>game := g, cursor := k, pending := after_count (pending s) b\<rparr>)"
proof (cases "game_started (game s)")
  case False
  with r show ?thesis by (simp add: change_direction_def init_game_sys_inv)
next
  case True
  have ginv: "snake_inv (game s)" using inv by (simp add: sys_inv_def)
  from change_direction_inv [OF ginv r hd] have gi: "snake_inv g" .
  from change_direction_started [OF True r] have "running g = running (game s)"
    "game_started g = game_started (game s)" "\<not> b" by (auto simp: running_def)
  with gi inv show ?thesis by (simp add: sys_inv_def)
qed

lemma toggle_pause_sys_inv:
  assumes inv: "sys_inv s" and r: "toggle_pause rs (game s) (cursor s) = ret (g, k, b)"
  shows "sys_inv (s\<lparr>game := g, cursor := k, pending := after_count (pending s) b\<rparr>)"
proof -
  have ginv: "snake_inv (game s)" using inv by (simp add: sys_inv_def)
  have gi: "snake_inv g" by (rule toggle_pause_inv [OF ginv r])
  from r show ?thesis
  proof (cases rule: toggle_pause_cases)
    case idle
    with inv show ?thesis by simp
  next
    case pause
    with inv gi show ?thesis by (simp add: sys_inv_def running_def)
  next
    case resume
    from sys_inv_after_loop [OF snake_inv_resume [OF ginv] resume(4)] resume(1) show ?thesis by simp
  qed
qed

lemma snake_step_inv:
  assumes inv: "sys_inv s" and st: "snake_step rs s e = ret s'"
  shows "sys_inv s'"
proof -
  have ginv: "snake_inv (game s)" using inv by (simp add: sys_inv_def)
  show ?thesis
  proof (cases e)
    case KeySpace with st inv show ?thesis by (auto simp: run_handler_ret intro: toggle_pause_sys_inv)
  next
    case KeyR
    with st show ?thesis by (auto simp: run_handler_ret restart_game_def init_game_sys_inv)
  next
    case KeyF11
    with st have "s' = s\<lparr>game := toggle_fullscreen (game s)\<rparr>" by simp
    with fullscreen_inv(1) [OF ginv] inv show ?thesis
      by (simp add: sys_inv_def running_def toggle_fullscreen_def)
  next
    case KeyEscape
    with st have "s' = s\<lparr>game := exit_fullscreen (game s)\<rparr>" by simp
    with fullscreen_inv(2) [OF ginv] inv show ?thesis
      by (simp add: sys_inv_def running_def exit_fullscreen_def)
  next
    case TimerFire
    show ?thesis
    proof (cases "pending s = 0")
      case True
      with st TimerFire inv show ?thesis by simp
    next
      case False
      with st TimerFire obtain g k b where gl: "game_loop rs (game s) (cursor s) = ret (g, k, b)"
        and s': "s' = s\<lparr>game := g, cursor := k, pending := after_count (pending s - 1) b\<rparr>"
        by (auto simp: run_handler_ret)
      from False inv have "game_started (game s)" by (simp add: sys_inv_def)
      from sys_inv_after_loop [OF ginv gl this] s' show ?thesis by simp
    qed
  qed (use st inv in \<open>auto simp: run_handler_ret is_heading_def intro: change_direction_sys_inv\<close>)
qed

lemma sys_inv_init: "sys_inv snake_sys_init"
  by (simp add: sys_inv_def snake_sys_init_def snake_init_inv) (simp add: running_def snake_init_def)

lemma snake_reach_sys_inv: "snake_reach rs s \<Longrightarrow> sys_inv s"
  by (induction rule: snake_reach.induct) (auto intro: sys_inv_init snake_step_inv)

section \<open>No exception escapes a handler\<close>

lemma run_handler_raise: "run_handler s r = raise e \<longleftrightarrow> r = raise e"
  by (auto simp: run_handler_def bind_out_eq_raise)

lemma snake_step_no_raise:
  assumes "sys_inv s"
  shows "snake_step rs s e \<noteq> raise ex"
proof -
  have ginv: "snake_inv (game s)" using assms by (simp add: sys_inv_def)
  have cd: "change_direction rs d (game s) (cursor s) \<noteq> raise ex" for d
    by (simp add: change_direction_def init_game_no_raise)
  have tp: "toggle_pause rs (game s) (cursor s) \<noteq> raise ex"
  proof -
    have "snake_inv ((game s)\<lparr>paused := False\<rparr>)" using ginv by (simp add: snake_inv_def)
    then show ?thesis by (auto simp: toggle_pause_def Let_def game_loop_no_raise)
  qed
  show ?thesis
  proof (cases e)
    case TimerFire
    with assms ginv show ?thesis by (auto simp: run_handler_raise sys_inv_def dest: game_loop_no_raise)
  qed (use cd tp in \<open>simp_all add: run_handler_raise restart_game_def init_game_no_raise\<close>)
qed

section \<open>Callback chains\<close>

lemma reach_running_pending:
  "snake_reach rs s \<Longrightarrow> running (game s) \<Longrightarrow> 0 < pending s"
  by (drule snake_reach_sys_inv) (simp add: sys_inv_def)

lemma game_loop_status:
  assumes "snake_inv g" "game_started g" "\<not> game_over g" "\<not> paused g"
    "game_loop rs g k = ret (g', k', b)"
  shows "game_started g' \<and> \<not> paused g'"
proof -
  from assms(3-5) obtain moved g1 k1 where mv: "move_snake rs g k = ret (moved, g1, k1)"
    and res: "(if \<not> moved then ret (g1\<lparr>game_over := True\<rparr>, k1, False) else ret (g1, k1, True)) = ret (g', k', b)"
    by (auto simp: game_loop_def bind_out_eq_ret)
  from move_snake_frame [OF mv] res assms(2,4) show ?thesis by (auto split: if_splits)
qed

section \<open>Refinement of the status machine\<close>

lemma change_direction_status:
  assumes "change_direction rs d g k = ret (g', k', b)" "e \<in> set [KeyUp, KeyDown, KeyLeft, KeyRight]"
  shows "status_of g' \<in> set (status_next (status_of g) e)"
proof (cases "game_started g")
  case False
  with assms init_game_running [of rs g k g' k' b] show ?thesis by (auto simp: change_direction_def status_of_def)
next
  case True
  with assms show ?thesis by (cases "status_of g") (auto simp: change_direction_def status_of_def split: if_splits)
qed

lemma toggle_pause_status:
  assumes "snake_inv g" "toggle_pause rs g k = ret (g', k', b)"
  shows "status_of g' \<in> set (status_next (status_of g) KeySpace)"
  using assms(2)
proof (cases rule: toggle_pause_cases)
  case resume
  have "snake_inv (g\<lparr>paused := False\<rparr>)" using assms(1) by (simp add: snake_inv_def)
  from game_loop_status [OF this _ _ _ resume(4)] resume(1-3) show ?thesis by (auto simp: status_of_def)
qed (auto simp: status_of_def)

lemma game_loop_tick_status:
  assumes "snake_inv g" "game_started g" "game_loop rs g k = ret (g', k', b)"
  shows "status_of g' \<in> set (status_next (status_of g) TimerFire)"
proof (cases "game_over g \<or> paused g")
  case True
  with assms show ?thesis by (auto simp: game_loop_def status_of_def)
next
  case False
  from game_loop_status [OF assms(1,2) _ _ assms(3)] False assms(2) show ?thesis by (auto simp: status_of_def)
qed

lemma snake_step_status_gen:
  assumes reach: "snake_reach rs s" and st: "snake_step rs s e = ret s'"
  shows "status_of (game s') \<in> set (status_next (status_of (game s)) e)"
proof -
  have inv: "sys_inv s" by (rule snake_reach_sys_inv [OF reach])
  then have ginv: "snake_inv (game s)" by (simp add: sys_inv_def)
  show ?thesis
  proof (cases e)
    case KeySpace
    with st ginv show ?thesis by (auto simp: run_handler_ret dest: toggle_pause_status)
  next
    case KeyR
    with st init_game_running show ?thesis
      by (cases "status_of (game s)") (auto simp: run_handler_ret restart_game_def status_of_def)
  next
    case TimerFire
    show ?thesis
    proof (cases "pending s = 0")
      case True
      with st TimerFire show ?thesis by (cases "status_of (game s)") auto
    next
      case False
      from False inv have "game_started (game s)" by (simp add: sys_inv_def)
      with False st TimerFire ginv show ?thesis by (auto simp: run_handler_ret dest: game_loop_tick_status)
    qed
  next
    case KeyF11
    with st show ?thesis
      by (cases "status_of (game s)") (auto simp: toggle_fullscreen_def status_of_def split: if_splits)
  next
    case KeyEscape
    with st show ?thesis
      by (cases "status_of (game s)") (auto simp: exit_fullscreen_def status_of_def split: if_splits)
  qed (use st in \<open>auto simp: run_handler_ret dest: change_direction_status\<close>)
qed

section \<open>Headings\<close>

lemma snake_step_direction:
  assumes "sys_inv s" "e \<noteq> KeyR" "snake_step rs s e = ret s'"
  shows "direction (game s') = direction (game s) \<or> direction (game s') = next_direction (game s) \<or>
         (\<not> game_started (game s) \<and> direction (game s') = RIGHT)"
proof (cases e)
  case KeySpace
  with assms(3) obtain g k b where r: "toggle_pause rs (game s) (cursor s) = ret (g, k, b)"
    and s': "s' = s\<lparr>game := g, cursor := k, pending := after_count (pending s) b\<rparr>"
    by (auto simp: run_handler_ret)
  from r show ?thesis
  proof (cases rule: toggle_pause_cases)
    case resume
    from game_loop_direction [OF resume(4)] s' show ?thesis by auto
  qed (use s' in simp_all)
next
  case TimerFire
  with assms(3) game_loop_direction [of rs "game s" "cursor s"] show ?thesis
    by (auto simp: run_handler_ret split: if_splits)
next
  case KeyR with assms(2) show ?thesis by simp
qed (use assms(3) in \<open>auto simp: run_handler_ret change_direction_def toggle_fullscreen_def
        exit_fullscreen_def split: if_splits dest: init_game_direction\<close>)

lemma game_loop_commits:
  "\<not> game_over g \<Longrightarrow> \<not> paused g \<Longrightarrow> game_loop rs g k = ret (g', k', b) \<Longrightarrow>
   direction g' = next_direction g \<and> next_direction g' = next_direction g"
  by (auto simp: game_loop_def bind_out_eq_ret split: if_splits dest!: move_snake_frame)

section \<open>Properties of the running program\<close>

text \<open>A state the program reaches: the first key press started the game and ran its first tick.\<close>

abbreviation demo_game :: snake_game where
  "demo_game \<equiv> snake_init\<lparr>snake := [(16, 15)], food_pos := Some (0, 0), game_started := True\<rparr>"

lemma demo_reach: "snake_reach (\<lambda>_. 0) \<lparr>game = demo_game, cursor = 2, pending = 1\<rparr>"
proof -
  have "snake_run (\<lambda>_. 0) snake_sys_init [KeyRight] = ret \<lparr>game = demo_game, cursor = 2, pending = 1\<rparr>"
    by (simp add: snake_sys_init_def snake_init_def run_handler_def change_direction_def init_game_def
        game_loop_def move_snake_def spawn_food.simps randint_def Let_def dir_defs)
  from snake_run_reach [OF snake_reach.start this] show ?thesis .
qed

text \<open>
  C1. In every state the program reaches after its first start, the body is a
  non-empty chain of distinct, orthogonally adjacent grid cells, the food is a
  grid cell off the body, and the score is exactly 10 per cell grown.
\<close>

theorem snake_body_invariant:
  assumes "snake_reach rs s" and "game_started (game s)"
  shows "snake (game s) \<noteq> [] \<and> distinct (snake (game s)) \<and> list_all in_grid (snake (game s)) \<and>
    adjacent_chain (snake (game s)) \<and>
    (\<exists>f. food_pos (game s) = Some f \<and> f \<notin> set (snake (game s)) \<and> in_grid f) \<and>
    score (game s) = 10 * (int (length (snake (game s))) - 1)"
proof -
  from snake_reach_sys_inv [OF assms(1)] have "snake_inv (game s)" by (simp add: sys_inv_def)
  with assms(2) show ?thesis
    by (auto simp: snake_inv_def body_ok_def food_ok_def split: option.splits)
qed

theorem snake_body_invariant_witness:
  "snake_reach (\<lambda>_. 0) \<lparr>game = demo_game, cursor = 2, pending = 1\<rparr> \<and> game_started demo_game \<and>
   distinct (snake demo_game) \<and> score demo_game = 10 * (int (length (snake demo_game)) - 1)"
  using snake_body_invariant [OF demo_reach] demo_reach by (simp add: snake_init_def)

text \<open>
  C3. No event but a restart makes the committed heading the reverse of the one
  committed before it: a direction key is checked against the committed heading,
  and a tick commits the buffered one.
\<close>

theorem no_instant_reversal:
  assumes "snake_reach rs s" and "e \<noteq> KeyR" and "snake_step rs s e = ret s'"
  shows "direction (game s') \<noteq> opposite (direction (game s))"
proof -
  have inv: "sys_inv s" by (rule snake_reach_sys_inv [OF assms(1)])
  then have gi: "snake_inv (game s)" by (simp add: sys_inv_def)
  then have "is_heading (direction (game s))" "next_direction (game s) \<noteq> opposite (direction (game s))"
    "\<not> game_started (game s) \<longrightarrow> direction (game s) = RIGHT"
    by (simp_all add: snake_inv_def split: if_splits)
  with snake_step_direction [OF inv assms(2,3)] show ?thesis
    by (auto simp: is_heading_def opposite_def dir_defs)
qed

theorem no_instant_reversal_witness:
  "snake_reach (\<lambda>_. 0) \<lparr>game = demo_game, cursor = 2, pending = 1\<rparr> \<and> TimerFire \<noteq> KeyR \<and>
   snake_step (\<lambda>_. 0) \<lparr>game = demo_game, cursor = 2, pending = 1\<rparr> TimerFire =
     ret \<lparr>game = demo_game\<lparr>snake := [(17, 15)]\<rparr>, cursor = 2, pending = 1\<rparr> \<and>
   direction (demo_game\<lparr>snake := [(17, 15)]\<rparr>) \<noteq> opposite (direction demo_game)"
proof -
  have st: "snake_step (\<lambda>_. 0) \<lparr>game = demo_game, cursor = 2, pending = 1\<rparr> TimerFire =
     ret \<lparr>game = demo_game\<lparr>snake := [(17, 15)]\<rparr>, cursor = 2, pending = 1\<rparr>"
    by (simp add: snake_init_def run_handler_def game_loop_def move_snake_def Let_def dir_defs)
  from no_instant_reversal [OF demo_reach _ st] st demo_reach show ?thesis by simp
qed

text \<open>
  C4. The spec's scenario: a running snake heading right (nothing buffered) gets
  the Left key and then a tick; the key is rejected as a reversal and the tick
  keeps heading right.
\<close>

theorem reversal_key_ignored:
  assumes "snake_reach rs s" "running (game s)"
    and "direction (game s) = RIGHT" "next_direction (game s) = RIGHT"
    and "snake_run rs s [KeyLeft, TimerFire] = ret s'"
  shows "direction (game s') = RIGHT \<and> next_direction (game s') = RIGHT"
proof -
  from assms(5) obtain s1 where st1: "snake_step rs s KeyLeft = ret s1"
    and st2: "snake_step rs s1 TimerFire = ret s'"
    by (auto simp: bind_out_eq_ret)
  from st1 assms(2,3) have "s1 = s"
    by (auto simp: run_handler_ret change_direction_def running_def dir_defs)
  moreover have "0 < pending s" by (rule reach_running_pending [OF assms(1,2)])
  ultimately obtain g k b where gl: "game_loop rs (game s) (cursor s) = ret (g, k, b)"
    and s': "s' = s\<lparr>game := g, cursor := k, pending := after_count (pending s - 1) b\<rparr>"
    using st2 by (auto simp: run_handler_ret)
  from game_loop_commits [OF _ _ gl] assms(2,4) s' show ?thesis by (simp add: running_def)
qed

theorem reversal_key_ignored_witness:
  "snake_reach (\<lambda>_. 0) \<lparr>game = demo_game, cursor = 2, pending = 1\<rparr> \<and> running demo_game \<and>
   direction demo_game = RIGHT \<and> next_direction demo_game = RIGHT \<and>
   snake_run (\<lambda>_. 0) \<lparr>game = demo_game, cursor = 2, pending = 1\<rparr> [KeyLeft, TimerFire] =
     ret \<lparr>game = demo_game\<lparr>snake := [(17, 15)]\<rparr>, cursor = 2, pending = 1\<rparr> \<and>
   direction (demo_game\<lparr>snake := [(17, 15)]\<rparr>) = RIGHT"
proof -
  have r: "snake_run (\<lambda>_. 0) \<lparr>game = demo_game, cursor = 2, pending = 1\<rparr> [KeyLeft, TimerFire] =
     ret \<lparr>game = demo_game\<lparr>snake := [(17, 15)]\<rparr>, cursor = 2, pending = 1\<rparr>"
    by (simp add: snake_init_def run_handler_def change_direction_def game_loop_def move_snake_def
        Let_def dir_defs)
  have h: "running demo_game" "direction demo_game = RIGHT" "next_direction demo_game = RIGHT"
    by (simp_all add: running_def snake_init_def)
  from reversal_key_ignored [OF demo_reach _ _ _ r] h r demo_reach show ?thesis by simp
qed

text \<open>
  C9. Restarting a running game starts a second chain of timer callbacks: the
  callback registered by the old game stays pending and the new game registers
  its own, so from then on the snake advances twice per period. The spec says
  exactly one tick callback is ever in flight.
\<close>

theorem restart_adds_chain:
  assumes "snake_reach rs s" and "running (game s)" and "snake_step rs s KeyR = ret s'"
  shows "pending s' = Suc (pending s) \<and> 2 \<le> pending s' \<and> running (game s')"
proof -
  from assms(3) obtain g k b where r: "init_game rs (game s) (cursor s) = ret (g, k, b)"
    and s': "s' = s\<lparr>game := g, cursor := k, pending := after_count (pending s) b\<rparr>"
    by (auto simp: run_handler_ret restart_game_def)
  from reach_running_pending [OF assms(1,2)] init_game_running [OF r] s' show ?thesis
    by (simp add: running_def)
qed

theorem restart_adds_chain_witness:
  "snake_reach (\<lambda>_. 0) \<lparr>game = demo_game, cursor = 2, pending = 1\<rparr> \<and> running demo_game \<and>
   snake_step (\<lambda>_. 0) \<lparr>game = demo_game, cursor = 2, pending = 1\<rparr> KeyR =
     ret \<lparr>game = demo_game, cursor = 4, pending = 2\<rparr>"
proof -
  have st: "snake_step (\<lambda>_. 0) \<lparr>game = demo_game, cursor = 2, pending = 1\<rparr> KeyR =
     ret \<lparr>game = demo_game, cursor = 4, pending = 2\<rparr>"
    by (simp add: snake_init_def run_handler_def restart_game_def init_game_def game_loop_def
        move_snake_def spawn_food.simps randint_def Let_def dir_defs)
  have h: "running demo_game" by (simp add: running_def snake_init_def)
  from restart_adds_chain [OF demo_reach _ st] st demo_reach h show ?thesis by simp
qed

text \<open>
  C10. Pausing and resuming a running game before its pending tick has fired
  also leaves two callbacks: the paused game's callback is still registered when
  the resume runs a tick and registers another.
\<close>

theorem pause_resume_adds_chain:
  assumes "snake_reach rs s" and "running (game s)"
    and "snake_step rs s KeySpace = ret s1" and "snake_step rs s1 KeySpace = ret s2"
    and "running (game s2)"
  shows "pending s2 = Suc (pending s) \<and> 2 \<le> pending s2"
proof -
  from assms(3) obtain g1 k1 b1 where r1: "toggle_pause rs (game s) (cursor s) = ret (g1, k1, b1)"
    and s1: "s1 = s\<lparr>game := g1, cursor := k1, pending := after_count (pending s) b1\<rparr>"
    by (auto simp: run_handler_ret)
  from r1 assms(2) have g1: "g1 = (game s)\<lparr>paused := True\<rparr>" and "\<not> b1" "k1 = cursor s"
    by (auto simp: toggle_pause_def running_def)
  from assms(4) s1 obtain g2 k2 b2 where r2: "toggle_pause rs g1 k1 = ret (g2, k2, b2)"
    and s2: "s2 = s1\<lparr>game := g2, cursor := k2, pending := after_count (pending s1) b2\<rparr>"
    by (auto simp: run_handler_ret)
  have inv: "snake_inv (game s)" using snake_reach_sys_inv [OF assms(1)] by (simp add: sys_inv_def)
  from r2 g1 assms(2) have gl: "game_loop rs ((game s)\<lparr>paused := False\<rparr>) k1 = ret (g2, k2, b2)"
    by (simp add: toggle_pause_def running_def)
  have "snake_inv ((game s)\<lparr>paused := False\<rparr>)" using inv by (simp add: snake_inv_def)
  from game_loop_reschedules [OF this gl] assms(5) s2 have b2 by simp
  with s1 s2 \<open>\<not> b1\<close> reach_running_pending [OF assms(1,2)] show ?thesis by simp
qed

theorem pause_resume_adds_chain_witness:
  "snake_reach (\<lambda>_. 0) \<lparr>game = demo_game, cursor = 2, pending = 1\<rparr> \<and> running demo_game \<and>
   snake_step (\<lambda>_. 0) \<lparr>game = demo_game, cursor = 2, pending = 1\<rparr> KeySpace =
     ret \<lparr>game = demo_game\<lparr>paused := True\<rparr>, cursor = 2, pending = 1\<rparr> \<and>
   snake_step (\<lambda>_. 0) \<lparr>game = demo_game\<lparr>paused := True\<rparr>, cursor = 2, pending = 1\<rparr> KeySpace =
     ret \<lparr>game = demo_game\<lparr>snake := [(17, 15)]\<rparr>, cursor = 2, pending = 2\<rparr> \<and>
   running (demo_game\<lparr>snake := [(17, 15)]\<rparr>)"
proof -
  have st1: "snake_step (\<lambda>_. 0) \<lparr>game = demo_game, cursor = 2, pending = 1\<rparr> KeySpace =
     ret \<lparr>game = demo_game\<lparr>paused := True\<rparr>, cursor = 2, pending = 1\<rparr>"
    by (simp add: snake_init_def run_handler_def toggle_pause_def)
  have st2: "snake_step (\<lambda>_. 0) \<lparr>game = demo_game\<lparr>paused := True\<rparr>, cursor = 2, pending = 1\<rparr> KeySpace =
     ret \<lparr>game = demo_game\<lparr>snake := [(17, 15)]\<rparr>, cursor = 2, pending = 2\<rparr>"
    by (simp add: snake_init_def run_handler_def toggle_pause_def game_loop_def move_snake_def
        Let_def dir_defs)
  have h: "running demo_game" "running (demo_game\<lparr>snake := [(17, 15)]\<rparr>)"
    by (simp_all add: running_def snake_init_def)
  from pause_resume_adds_chain [OF demo_reach _ st1 st2] h st1 st2 demo_reach show ?thesis by simp
qed

text \<open>
  C11. The code's three flags refine the status machine of the spec: in every
  reachable state, every event moves the status (not started, running, paused,
  over) along a transition the spec allows; in particular the first direction key
  and every restart give a running game, and only a tick or a resume ends one.
\<close>

theorem snake_step_status:
  assumes "snake_reach rs s" and "snake_step rs s e = ret s'"
  shows "status_of (game s') \<in> set (status_next (status_of (game s)) e)"
  using snake_step_status_gen [OF assms] .

theorem snake_step_status_witness:
  "snake_reach (\<lambda>_. 0) \<lparr>game = demo_game, cursor = 2, pending = 1\<rparr> \<and>
   snake_step (\<lambda>_. 0) \<lparr>game = demo_game, cursor = 2, pending = 1\<rparr> TimerFire =
     ret \<lparr>game = demo_game\<lparr>snake := [(17, 15)]\<rparr>, cursor = 2, pending = 1\<rparr> \<and>
   status_of (demo_game\<lparr>snake := [(17, 15)]\<rparr>) \<in> set (status_next (status_of demo_game) TimerFire)"
proof -
  have st: "snake_step (\<lambda>_. 0) \<lparr>game = demo_game, cursor = 2, pending = 1\<rparr> TimerFire =
     ret \<lparr>game = demo_game\<lparr>snake := [(17, 15)]\<rparr>, cursor = 2, pending = 1\<rparr>"
    by (simp add: snake_init_def run_handler_def game_loop_def move_snake_def Let_def dir_defs)
  from snake_step_status [OF demo_reach st] st demo_reach show ?thesis by simp
qed

text \<open>
  C12. No handler raises in a reachable state: \<open>self.snake[0]\<close> in
  \<open>move_snake\<close> is only reached with a non-empty body, because the loop runs only
  after a start, and a started game always has a body.
\<close>

theorem no_exception_escapes:
  "snake_reach rs s \<Longrightarrow> snake_step rs s e \<noteq> raise ex"
  by (rule snake_step_no_raise [OF snake_reach_sys_inv])

theorem no_exception_escapes_witness:
  "snake_reach (\<lambda>_. 0) \<lparr>game = demo_game, cursor = 2, pending = 1\<rparr> \<and>
   snake_step (\<lambda>_. 0) \<lparr>game = demo_game, cursor = 2, pending = 1\<rparr> TimerFire \<noteq> raise IndexError"
  using demo_reach no_exception_escapes [OF demo_reach, of TimerFire IndexError] by (rule conjI)

text \<open>
  C13. A running game always has a tick scheduled: whenever the game is started,
  not over and not paused, at least one \<open>game_loop\<close> callback is registered, so
  the game never freezes while running.
\<close>

theorem running_game_has_tick:
  "snake_reach rs s \<Longrightarrow> running (game s) \<Longrightarrow> 0 < pending s"
  by (rule reach_running_pending)

theorem running_game_has_tick_witness:
  "snake_reach (\<lambda>_. 0) \<lparr>game = demo_game, cursor = 2, pending = 1\<rparr> \<and> running demo_game \<and>
   0 < pending \<lparr>game = demo_game, cursor = 2, pending = 1\<rparr>"
proof -
  have h: "running demo_game" by (simp add: running_def snake_init_def)
  from running_game_has_tick [OF demo_reach] h demo_reach show ?thesis by simp
qed

text \<open>
  C30. The headings are always one of the four unit steps of the spec's data
  model: in every reachable state the committed heading and the buffered one
  are among \<open>UP\<close>, \<open>DOWN\<close>, \<open>LEFT\<close>, \<open>RIGHT\<close>, and the buffered one is never
  the reverse of the committed one.
\<close>

theorem snake_headings_valid:
  assumes "snake_reach rs s"
  shows "direction (game s) \<in> {UP, DOWN, LEFT, RIGHT} \<and> next_direction (game s) \<in> {UP, DOWN, LEFT, RIGHT} \<and>
         next_direction (game s) \<noteq> opposite (direction (game s))"
proof -
  have "snake_inv (game s)" using snake_reach_sys_inv [OF assms] by (simp add: sys_inv_def)
  then have "is_heading (direction (game s))" "is_heading (next_direction (game s))"
    "next_direction (game s) \<noteq> opposite (direction (game s))"
    by (simp_all add: snake_inv_def)
  then show ?thesis by (simp add: is_heading_def)
qed

theorem snake_headings_valid_witness:
  "snake_reach (\<lambda>_. 0) \<lparr>game = demo_game, cursor = 2, pending = 1\<rparr> \<and> direction demo_game = RIGHT \<and>
   next_direction demo_game \<in> {UP, DOWN, LEFT, RIGHT}"
  using snake_headings_valid [OF demo_reach] demo_reach by (simp add: snake_init_def)

end
