(* ===== verification/Canvas.thy ===== *)
theory Canvas
  imports Prelude
begin

text \<open>
  The Tk canvas both games draw on, as far as their calls use it: a display
  list of items in creation order, each with its kind, its coordinate list, its
  fill colour and its tags. \<open>create\<close> is \<open>canvas.create_rectangle\<close>,
  \<open>create_oval\<close>, \<open>create_polygon\<close> or \<open>create_text\<close> (the new item goes on top);
  \<open>canvas_delete\<close> is \<open>canvas.delete(tag, ...)\<close>, which removes every item
  carrying one of the tags, all of them for the tag \<open>all\<close>. Outline, stipple,
  width and font options only change how an item looks and are left out.
\<close>

datatype shape = Rectangle | Oval | Polygon | Text_item

record item =
  item_shape :: shape
  item_coords :: "real list"
  item_fill :: string
  item_tags :: "string list"

type_synonym canvas = "item list"

definition create :: "shape \<Rightarrow> real list \<Rightarrow> string \<Rightarrow> string list \<Rightarrow> canvas \<Rightarrow> canvas" where
  "create sh cs fill tags c = c @ [\<lparr>item_shape = sh, item_coords = cs, item_fill = fill, item_tags = tags\<rparr>]"

definition has_tag :: "string list \<Rightarrow> item \<Rightarrow> bool" where
  "has_tag ts i \<longleftrightarrow> list_ex (\<lambda>t. t = ''all'' \<or> t \<in> set (item_tags i)) ts"

definition canvas_delete :: "string list \<Rightarrow> canvas \<Rightarrow> canvas" where
  "canvas_delete ts c = filter (\<lambda>i. \<not> has_tag ts i) c"

text \<open>The items of a canvas that carry a tag, and the points an item's coordinates list.\<close>

definition tagged :: "string \<Rightarrow> canvas \<Rightarrow> item list" where
  "tagged t c = filter (\<lambda>i. t \<in> set (item_tags i)) c"

fun coord_pairs :: "real list \<Rightarrow> (real \<times> real) list" where
  "coord_pairs (x # y # r) = (x, y) # coord_pairs r"
| "coord_pairs _ = []"

definition item_inside :: "real \<Rightarrow> real \<Rightarrow> item \<Rightarrow> bool" where
  "item_inside w h i \<longleftrightarrow> list_all (\<lambda>(x, y). 0 \<le> x \<and> x \<le> w \<and> 0 \<le> y \<and> y \<le> h) (coord_pairs (item_coords i))"

text \<open>
  The untagged items (the background a program draws once), and the discipline
  both programs keep: no item carries more than one tag.
\<close>

definition untagged :: "canvas \<Rightarrow> item list" where
  "untagged c = filter (\<lambda>i. item_tags i = []) c"

definition single_tags :: "canvas \<Rightarrow> bool" where
  "single_tags c \<longleftrightarrow> list_all (\<lambda>i. length (item_tags i) \<le> 1) c"

text \<open>
  The toplevel window \<open>tk.Tk()\<close> as far as the programs configure it: the
  title (\<open>root.title\<close>), the background (\<open>root.configure(bg=...)\<close>), whether
  it may be resized in width and height (\<open>root.resizable\<close>), its minimum size
  (\<open>root.minsize\<close>) and the \<open>-fullscreen\<close> attribute
  (\<open>root.attributes\<close>). \<open>tk_root\<close> holds Tk's defaults on X11; both programs
  override all of them but the minimum size and the attribute.
\<close>

record tk_window =
  win_title :: string
  win_bg :: string
  win_resizable :: "bool \<times> bool"
  win_minsize :: "nat \<times> nat"
  win_fullscreen :: bool

definition tk_root :: tk_window where
  "tk_root = \<lparr>win_title = ''tk'', win_bg = ''#d9d9d9'', win_resizable = (True, True),
              win_minsize = (1, 1), win_fullscreen = False\<rparr>"

named_theorems canvas_simps "rules that compute the items of a drawing"

lemma create_simps [simp, canvas_simps]:
  "tagged t (create sh cs f ts c) = tagged t c @ (if t \<in> set ts then [\<lparr>item_shape = sh, item_coords = cs, item_fill = f, item_tags = ts\<rparr>] else [])"
  "filter P (create sh cs f ts c) = filter P c @ (if P \<lparr>item_shape = sh, item_coords = cs, item_fill = f, item_tags = ts\<rparr> then [\<lparr>item_shape = sh, item_coords = cs, item_fill = f, item_tags = ts\<rparr>] else [])"
  "set (create sh cs f ts c) = insert \<lparr>item_shape = sh, item_coords = cs, item_fill = f, item_tags = ts\<rparr> (set c)"
  "length (create sh cs f ts c) = Suc (length c)"
  by (simp_all add: create_def tagged_def)

lemma tagged_delete [simp, canvas_simps]:
  "t \<in> set ts \<Longrightarrow> tagged t (canvas_delete ts c) = []"
  by (auto simp: tagged_def canvas_delete_def has_tag_def list_ex_iff filter_empty_conv)

lemma filter_delete [canvas_simps]:
  "(\<And>i. \<not> P i \<or> \<not> has_tag ts i) \<Longrightarrow> filter P (canvas_delete ts c) = filter P c"
  by (induction c) (auto simp: canvas_delete_def)

lemma set_delete: "set (canvas_delete ts c) \<subseteq> set c"
  by (auto simp: canvas_delete_def)

lemma create_tags [simp, canvas_simps]:
  "untagged (create sh cs f ts c) = untagged c @ (if ts = [] then [\<lparr>item_shape = sh, item_coords = cs, item_fill = f, item_tags = ts\<rparr>] else [])"
  "single_tags (create sh cs f ts c) \<longleftrightarrow> single_tags c \<and> length ts \<le> 1"
  by (simp_all add: create_def untagged_def single_tags_def)

lemma empty_canvas [simp, canvas_simps]: "untagged [] = []" "single_tags []" "tagged t [] = []"
  by (simp_all add: untagged_def single_tags_def tagged_def)

lemma canvas_delete_all [simp, canvas_simps]: "canvas_delete [''all''] c = []"
  by (simp add: canvas_delete_def has_tag_def)

text \<open>Under the one-tag discipline, deleting some tags leaves every other tag's items.\<close>

lemma tagged_delete_other [canvas_simps]:
  assumes "t \<notin> set ts" "''all'' \<notin> set ts" "single_tags c"
  shows "tagged t (canvas_delete ts c) = tagged t c"
proof -
  have "\<not> has_tag ts i" if "i \<in> set c" "t \<in> set (item_tags i)" for i
  proof -
    from assms(3) that(1) have "length (item_tags i) \<le> 1" by (simp add: single_tags_def list_all_iff)
    with that(2) have "item_tags i = [t]"
      by (cases "item_tags i") (auto simp: le_Suc_eq)
    with assms(1,2) show ?thesis by (auto simp: has_tag_def list_ex_iff)
  qed
  then show ?thesis by (auto simp: tagged_def canvas_delete_def filter_filter intro!: filter_cong)
qed

lemma untagged_delete [canvas_simps]: "''all'' \<notin> set ts \<Longrightarrow> untagged (canvas_delete ts c) = untagged c"
  unfolding untagged_def by (rule filter_delete) (auto simp: has_tag_def list_ex_iff)

lemma single_tags_delete [canvas_simps]: "single_tags c \<Longrightarrow> single_tags (canvas_delete ts c)"
  by (simp add: single_tags_def canvas_delete_def list_all_iff)

end
