(* ===== verification/Snake_Render.thy ===== *)
theory Snake_Render
  imports Snake_Events Canvas
begin

text \<open>
  What \<open>SnakeGame\<close> draws (\<open>src/snake.py\<close>): \<open>draw_grid\<close> paints the 30 by 30
  checkerboard once per (re)start, and \<open>draw_game\<close>, called by every tick that
  goes on, deletes the items tagged \<open>snake\<close> and \<open>food\<close> and draws the food
  (an oval and its highlight) and each body cell (a rectangle, the head with two
  eyes facing the committed heading). Coordinates are pixels of the 600 by 600
  canvas.
\<close>

section \<open>Colours\<close>

definition BG_COLOR :: string where "BG_COLOR = ''#1a1a2e''"
definition BG_COLOR_ALT :: string where "BG_COLOR_ALT = ''#16213e''"
definition SNAKE_HEAD :: string where "SNAKE_HEAD = ''#0f3460''"
definition SNAKE_BODY :: string where "SNAKE_BODY = ''#16a085''"
definition FOOD_COLOR :: string where "FOOD_COLOR = ''#e94560''"

text \<open>The items a redraw of the game leaves alone: those tagged neither \<open>snake\<close> nor \<open>food\<close>.\<close>

definition other_item :: "item \<Rightarrow> bool" where
  "other_item it \<longleftrightarrow> \<not> (''snake'' \<in> set (item_tags it) \<or> ''food'' \<in> set (item_tags it))"

section \<open>Drawing\<close>

definition draw_grid :: "canvas \<Rightarrow> canvas" where
  "draw_grid c =
     foldl (\<lambda>c (row, col).
              let x1 = col * GRID_SIZE; y1 = row * GRID_SIZE; x2 = x1 + GRID_SIZE; y2 = y1 + GRID_SIZE;
                  color = (if (row + col) mod 2 = 0 then BG_COLOR_ALT else BG_COLOR)
              in create Rectangle (map of_int [x1, y1, x2, y2]) color [] c)
       c [(row, col). row \<leftarrow> [0..GRID_HEIGHT - 1], col \<leftarrow> [0..GRID_WIDTH - 1]]"

text \<open>The centres of the two eyes of the head at cell \<open>(x, y)\<close> for a heading (lines 293--304).\<close>

definition eye_centres :: "dir \<Rightarrow> int \<Rightarrow> int \<Rightarrow> (int \<times> int) \<times> (int \<times> int)" where
  "eye_centres d x y =
     (if d = RIGHT then ((x * GRID_SIZE + 14, y * GRID_SIZE + 7), (x * GRID_SIZE + 14, y * GRID_SIZE + 13))
      else if d = LEFT then ((x * GRID_SIZE + 6, y * GRID_SIZE + 7), (x * GRID_SIZE + 6, y * GRID_SIZE + 13))
      else if d = UP then ((x * GRID_SIZE + 7, y * GRID_SIZE + 6), (x * GRID_SIZE + 13, y * GRID_SIZE + 6))
      else ((x * GRID_SIZE + 7, y * GRID_SIZE + 14), (x * GRID_SIZE + 13, y * GRID_SIZE + 14)))"

definition draw_eye :: "int \<times> int \<Rightarrow> canvas \<Rightarrow> canvas" where
  "draw_eye e c =
     (let eye_size = 3
      in create Oval (map of_int [fst e - eye_size, snd e - eye_size, fst e + eye_size, snd e + eye_size])
           ''#fff'' [''snake''] c)"

text \<open>One iteration of \<open>for i, (x, y) in enumerate(self.snake)\<close> (lines 276--317).\<close>

definition draw_segment :: "dir \<Rightarrow> nat \<Rightarrow> cell \<Rightarrow> canvas \<Rightarrow> canvas" where
  "draw_segment d i xy c =
     (case xy of (x, y) \<Rightarrow>
        let margin = 2;
            color = (if i = 0 then SNAKE_HEAD else SNAKE_BODY);
            c1 = create Rectangle (map of_int [x * GRID_SIZE + margin, y * GRID_SIZE + margin,
                                               (x + 1) * GRID_SIZE - margin, (y + 1) * GRID_SIZE - margin])
                   color [''snake''] c
        in if i = 0 then (case eye_centres d x y of (eye1, eye2) \<Rightarrow> draw_eye eye2 (draw_eye eye1 c1))
           else c1)"

text \<open>\<open>if self.food_pos:\<close> holds for every cell, \<open>(0, 0)\<close> included: a non-empty tuple is true.\<close>

definition draw_food :: "cell option \<Rightarrow> canvas \<Rightarrow> canvas" where
  "draw_food fp c =
     (case fp of
        None \<Rightarrow> c
      | Some (x, y) \<Rightarrow>
          (let margin = 3;
               c1 = create Oval (map of_int [x * GRID_SIZE + margin, y * GRID_SIZE + margin,
                                             (x + 1) * GRID_SIZE - margin, (y + 1) * GRID_SIZE - margin])
                      FOOD_COLOR [''food''] c
           in create Oval (map of_int [x * GRID_SIZE + 6, y * GRID_SIZE + 6, x * GRID_SIZE + 10, y * GRID_SIZE + 10])
                ''#ff6b81'' [''food''] c1))"

definition draw_game :: "snake_game \<Rightarrow> canvas \<Rightarrow> canvas" where
  "draw_game g c =
     foldl (\<lambda>c (i, xy). draw_segment (direction g) i xy c)
       (draw_food (food_pos g) (canvas_delete [''snake'', ''food''] c)) (enumerate 0 (snake g))"

section \<open>What a redraw leaves on the canvas\<close>

lemma other_item_iff [simp]:
  "other_item it \<longleftrightarrow> ''snake'' \<notin> set (item_tags it) \<and> ''food'' \<notin> set (item_tags it)"
  by (simp add: other_item_def)

lemma draw_eye_counts [simp]:
  "length (tagged ''snake'' (draw_eye e c)) = Suc (length (tagged ''snake'' c))"
  "tagged ''food'' (draw_eye e c) = tagged ''food'' c"
  "filter other_item (draw_eye e c) = filter other_item c"
  by (simp_all add: draw_eye_def Let_def)

lemma draw_segment_counts [simp]:
  "length (tagged ''snake'' (draw_segment d i xy c)) = length (tagged ''snake'' c) + (if i = 0 then 3 else 1)"
  "tagged ''food'' (draw_segment d i xy c) = tagged ''food'' c"
  "filter other_item (draw_segment d i xy c) = filter other_item c"
  by (simp_all add: draw_segment_def Let_def split: prod.splits)

lemma draw_segments_counts:
  "length (tagged ''snake'' (foldl (\<lambda>c (i, xy). draw_segment d i xy c) c (enumerate n xs))) =
     length (tagged ''snake'' c) + length xs + (if n = 0 \<and> xs \<noteq> [] then 2 else 0) \<and>
   tagged ''food'' (foldl (\<lambda>c (i, xy). draw_segment d i xy c) c (enumerate n xs)) = tagged ''food'' c \<and>
   filter other_item (foldl (\<lambda>c (i, xy). draw_segment d i xy c) c (enumerate n xs)) =
     filter other_item c"
  by (induction xs arbitrary: n c) auto

lemma draw_food_counts [simp]:
  "tagged ''snake'' (draw_food fp c) = tagged ''snake'' c"
  "length (tagged ''food'' (draw_food fp c)) = length (tagged ''food'' c) + (if fp = None then 0 else 2)"
  "filter other_item (draw_food fp c) = filter other_item c"
  by (simp_all add: draw_food_def Let_def split: option.splits prod.splits)

lemma delete_snake_food:
  "tagged ''snake'' (canvas_delete [''snake'', ''food''] c) = []"
  "tagged ''food'' (canvas_delete [''snake'', ''food''] c) = []"
  "filter other_item (canvas_delete [''snake'', ''food''] c) = filter other_item c"
  by (simp_all, rule filter_delete, auto simp: has_tag_def)

section \<open>Where the items go\<close>

lemma create_ints_inside:
  assumes "it \<in> set (create sh (map of_int [a, b, a', b']) f ts c)"
    "0 \<le> a" "a \<le> 600" "0 \<le> b" "b \<le> 600" "0 \<le> a'" "a' \<le> 600" "0 \<le> b'" "b' \<le> 600"
  shows "it \<in> set c \<or> item_inside 600 600 it"
  using assms by (auto simp: item_inside_def)

lemma draw_eye_inside:
  assumes "it \<in> set (draw_eye e c)" "3 \<le> fst e" "fst e \<le> 597" "3 \<le> snd e" "snd e \<le> 597"
  shows "it \<in> set c \<or> item_inside 600 600 it"
  using assms(1) unfolding draw_eye_def Let_def
  by (rule create_ints_inside, insert assms(2-5), simp_all)

lemma eye_centres_bounds:
  "fst (fst (eye_centres d x y)) \<in> {x * 20 + 6 .. x * 20 + 14} \<and> snd (fst (eye_centres d x y)) \<in> {y * 20 + 6 .. y * 20 + 14} \<and>
   fst (snd (eye_centres d x y)) \<in> {x * 20 + 6 .. x * 20 + 14} \<and> snd (snd (eye_centres d x y)) \<in> {y * 20 + 6 .. y * 20 + 14}"
  by (simp add: eye_centres_def GRID_SIZE_def)

lemma draw_segment_inside:
  assumes "0 \<le> x" "x < GRID_WIDTH" "0 \<le> y" "y < GRID_HEIGHT"
    and "it \<in> set (draw_segment d i (x, y) c)"
  shows "it \<in> set c \<or> item_inside 600 600 it"
proof -
  let ?c1 = "create Rectangle (map of_int [x * GRID_SIZE + 2, y * GRID_SIZE + 2, (x + 1) * GRID_SIZE - 2, (y + 1) * GRID_SIZE - 2])
               (if i = 0 then SNAKE_HEAD else SNAKE_BODY) [''snake''] c"
  have c1: "it' \<in> set c \<or> item_inside 600 600 it'" if m: "it' \<in> set ?c1" for it'
    by (rule create_ints_inside [OF m], insert assms(1-4), simp_all add: GRID_SIZE_def)
  have eyes: "it' \<in> set (draw_eye e2 (draw_eye e1 ?c1)) \<Longrightarrow> it' \<in> set c \<or> item_inside 600 600 it'"
    if "e1 = fst (eye_centres d x y)" "e2 = snd (eye_centres d x y)" for it' e1 e2
    using eye_centres_bounds [of d x y] assms(1-4) that draw_eye_inside [of it' e2] draw_eye_inside [of _ e1] c1
    by fastforce
  have "draw_segment d i (x, y) c = (if i = 0 then draw_eye (snd (eye_centres d x y)) (draw_eye (fst (eye_centres d x y)) ?c1) else ?c1)"
    by (simp add: draw_segment_def Let_def split: prod.splits)
  with assms(5) c1 eyes show ?thesis by (auto split: if_splits)
qed

lemma draw_food_inside:
  assumes "\<forall>f. fp = Some f \<longrightarrow> in_grid f" "it \<in> set (draw_food fp c)"
  shows "it \<in> set c \<or> item_inside 600 600 it"
proof (cases fp)
  case None
  with assms(2) show ?thesis by (simp add: draw_food_def)
next
  case (Some f)
  obtain x y where f: "f = (x, y)" by (cases f)
  with Some assms(1) have b: "0 \<le> x" "x < 30" "0 \<le> y" "y < 30" by (auto simp: in_grid_def)
  let ?c1 = "create Oval (map of_int [x * GRID_SIZE + 3, y * GRID_SIZE + 3, (x + 1) * GRID_SIZE - 3, (y + 1) * GRID_SIZE - 3])
               FOOD_COLOR [''food''] c"
  have c1: "it' \<in> set c \<or> item_inside 600 600 it'" if m: "it' \<in> set ?c1" for it'
    by (rule create_ints_inside [OF m], insert b, simp_all add: GRID_SIZE_def)
  have eq: "draw_food fp c = create Oval (map of_int [x * GRID_SIZE + 6, y * GRID_SIZE + 6, x * GRID_SIZE + 10, y * GRID_SIZE + 10])
                ''#ff6b81'' [''food''] ?c1"
    by (simp add: draw_food_def Some f Let_def)
  from assms(2) have m: "it \<in> set (create Oval (map of_int [x * GRID_SIZE + 6, y * GRID_SIZE + 6, x * GRID_SIZE + 10, y * GRID_SIZE + 10])
                ''#ff6b81'' [''food''] ?c1)"
    by (simp only: eq)
  have "it \<in> set ?c1 \<or> item_inside 600 600 it"
    by (rule create_ints_inside [OF m], insert b, simp_all add: GRID_SIZE_def)
  with c1 show ?thesis by blast
qed

lemma draw_segments_inside:
  "list_all in_grid xs \<Longrightarrow> it \<in> set (foldl (\<lambda>c (i, xy). draw_segment d i xy c) c (enumerate n xs)) \<Longrightarrow>
   it \<in> set c \<or> item_inside 600 600 it"
proof (induction xs arbitrary: n c)
  case Nil
  then show ?case by simp
next
  case (Cons xy xs)
  obtain x y where xy: "xy = (x, y)" by (cases xy)
  from Cons.prems xy have b: "0 \<le> x" "x < GRID_WIDTH" "0 \<le> y" "y < GRID_HEIGHT" by (simp_all add: in_grid_def)
  from Cons.prems(2) have "it \<in> set (foldl (\<lambda>c (i, xy). draw_segment d i xy c) (draw_segment d n xy c) (enumerate (Suc n) xs))"
    by simp
  with Cons.IH Cons.prems(1) have "it \<in> set (draw_segment d n xy c) \<or> item_inside 600 600 it"
    by simp
  with draw_segment_inside [OF b, of it d n c] xy show ?case by blast
qed

lemma draw_game_inside_gen:
  assumes "list_all in_grid (snake g)" "\<forall>f. food_pos g = Some f \<longrightarrow> in_grid f"
    and "it \<in> set (draw_game g c)" "\<not> other_item it"
  shows "item_inside 600 600 it"
proof -
  let ?c0 = "canvas_delete [''snake'', ''food''] c"
  from draw_segments_inside [OF assms(1)] assms(3)
  have "it \<in> set (draw_food (food_pos g) ?c0) \<or> item_inside 600 600 it"
    unfolding draw_game_def by blast
  with draw_food_inside [OF assms(2)] have "it \<in> set ?c0 \<or> item_inside 600 600 it" by blast
  moreover have "it \<notin> set ?c0" using assms(4) by (auto simp: canvas_delete_def has_tag_def)
  ultimately show ?thesis by blast
qed

section \<open>What a redraw keeps of the other items\<close>

text \<open>
  Under the one-tag discipline, a redraw of the game leaves the items of every
  tag but \<open>snake\<close> and \<open>food\<close> and the untagged items as they were, and it
  keeps the discipline; the grid adds its 900 untagged cells and nothing else.
\<close>

lemma draw_segment_keeps [simp]:
  "t \<noteq> ''snake'' \<Longrightarrow> tagged t (draw_segment d i xy c) = tagged t c"
  "untagged (draw_segment d i xy c) = untagged c"
  "single_tags (draw_segment d i xy c) = single_tags c"
  by (simp_all add: draw_segment_def draw_eye_def Let_def split: prod.splits)

lemma draw_food_keeps [simp]:
  "t \<noteq> ''food'' \<Longrightarrow> tagged t (draw_food fp c) = tagged t c"
  "untagged (draw_food fp c) = untagged c"
  "single_tags (draw_food fp c) = single_tags c"
  by (simp_all add: draw_food_def Let_def split: option.splits prod.splits)

lemma draw_segments_keep:
  "t \<noteq> ''snake'' \<Longrightarrow> tagged t (foldl (\<lambda>c (i, xy). draw_segment d i xy c) c (enumerate n xs)) = tagged t c"
  "untagged (foldl (\<lambda>c (i, xy). draw_segment d i xy c) c (enumerate n xs)) = untagged c"
  "single_tags (foldl (\<lambda>c (i, xy). draw_segment d i xy c) c (enumerate n xs)) = single_tags c"
  by (induction xs arbitrary: n c) simp_all

lemma draw_game_keeps:
  assumes "single_tags c"
  shows "t \<notin> {''snake'', ''food''} \<Longrightarrow> tagged t (draw_game g c) = tagged t c"
    "untagged (draw_game g c) = untagged c"
    "single_tags (draw_game g c)"
  using assms by (simp_all add: draw_game_def draw_segments_keep tagged_delete_other untagged_delete
                                single_tags_delete)

lemma grid_cells_length: "length [(row, col). row \<leftarrow> [0..GRID_HEIGHT - 1], col \<leftarrow> [0..GRID_WIDTH - 1]] = 900"
  by (simp add: length_concat comp_def sum_list_triv del: upto_rec_numeral)

lemma draw_grid_keeps:
  "length (untagged (draw_grid c)) = length (untagged c) + 900"
  "tagged t (draw_grid c) = tagged t c"
  "single_tags (draw_grid c) = single_tags c"
proof -
  have gen: "length (untagged (foldl (\<lambda>c (row, col). create Rectangle (F row col) (G row col) [] c) c xs)) =
               length (untagged c) + length xs \<and>
             tagged t (foldl (\<lambda>c (row, col). create Rectangle (F row col) (G row col) [] c) c xs) = tagged t c \<and>
             single_tags (foldl (\<lambda>c (row, col). create Rectangle (F row col) (G row col) [] c) c xs) =
               single_tags c" for F G xs c
    by (induction xs arbitrary: c) (simp_all split: prod.splits)
  show "length (untagged (draw_grid c)) = length (untagged c) + 900"
    "tagged t (draw_grid c) = tagged t c" "single_tags (draw_grid c) = single_tags c"
    unfolding draw_grid_def Let_def by (simp_all only: gen grid_cells_length)
qed

section \<open>Properties of the drawing\<close>

text \<open>
  C26. Each redraw replaces the snake and the food instead of piling them up:
  whatever the canvas held before, \<open>draw_game\<close> leaves exactly one rectangle
  per body cell plus the head's two eyes tagged \<open>snake\<close>, exactly the food oval
  and its highlight tagged \<open>food\<close> (none before the first food), and every other
  item (the grid, the overlays) as it was.
\<close>

theorem draw_game_replaces:
  "length (tagged ''snake'' (draw_game g c)) = length (snake g) + (if snake g = [] then 0 else 2) \<and>
   length (tagged ''food'' (draw_game g c)) = (if food_pos g = None then 0 else 2) \<and>
   filter other_item (draw_game g c) = filter other_item c"
  using draw_segments_counts [of "direction g" "draw_food (food_pos g) (canvas_delete [''snake'', ''food''] c)" 0 "snake g"]
  by (simp add: draw_game_def delete_snake_food)

text \<open>
  C27. Everything a tick draws for the snake and the food lies on the 600 by
  600 canvas: in every reachable started game, each item tagged \<open>snake\<close> or
  \<open>food\<close> that \<open>draw_game\<close> leaves has all its corners inside the window (the
  body and the food stay on the grid, and the eyes stay inside the head's cell).
\<close>

theorem drawn_items_inside:
  assumes "snake_reach rs s" "game_started (game s)"
  shows "\<forall>it\<in>set (draw_game (game s) c). \<not> other_item it \<longrightarrow> item_inside 600 600 it"
proof -
  have "snake_inv (game s)" using snake_reach_sys_inv [OF assms(1)] by (simp add: sys_inv_def)
  with assms(2) have "body_ok (snake (game s))" "food_ok (game s)" by (simp_all add: snake_inv_def)
  then have "list_all in_grid (snake (game s))" "\<forall>f. food_pos (game s) = Some f \<longrightarrow> in_grid f"
    by (auto simp: body_ok_def food_ok_def)
  with draw_game_inside_gen show ?thesis by blast
qed

theorem drawn_items_inside_witness:
  "snake_reach (\<lambda>_. 0) \<lparr>game = demo_game, cursor = 2, pending = 1\<rparr> \<and> game_started demo_game \<and>
   item_tags (draw_game demo_game [] ! 2) = [''snake''] \<and> item_inside 600 600 (draw_game demo_game [] ! 2)"
proof -
  have d: "draw_game demo_game [] ! 2 \<in> set (draw_game demo_game [])"
    "item_tags (draw_game demo_game [] ! 2) = [''snake'']"
    by (simp_all add: draw_game_def draw_food_def draw_segment_def draw_eye_def eye_centres_def create_def
        canvas_delete_def snake_init_def Let_def nth_append)
  from drawn_items_inside [OF demo_reach] d demo_reach show ?thesis by (simp add: snake_init_def)
qed

end
