(* ===== verification/Py_Text.thy ===== *)
theory Py_Text
  imports Prelude
begin

text \<open>
  The Python string operations the labels of both games use: \<open>str(n)\<close> of an
  integer (in the f-strings \<open>f"Score: {self.score}"\<close>), repetition
  \<open>s * n\<close> and \<open>strip()\<close>. A string is the list of its UTF-8 bytes, which is
  what Tk is given; the only non-ASCII text the labels hold is the heart
  \<open>U+2764 U+FE0F\<close>, whose bytes are none of the ASCII whitespace characters
  that \<open>strip()\<close> removes, so stripping bytes and stripping code points agree on
  these strings. \<open>parse_int\<close> reads a decimal numeral back; it is not code of
  the programs but the inverse the round trip is stated with.
\<close>

section \<open>Integers as decimal strings\<close>

definition DIGITS :: string where "DIGITS = ''0123456789''"

fun nat_str :: "nat \<Rightarrow> string" where
  "nat_str n = (if n < 10 then [DIGITS ! n] else nat_str (n div 10) @ [DIGITS ! (n mod 10)])"

definition py_str :: "int \<Rightarrow> string" where
  "py_str i = (if i < 0 then CHR ''-'' # nat_str (nat (- i)) else nat_str (nat i))"

definition digits_val :: "string \<Rightarrow> nat" where
  "digits_val s = foldl (\<lambda>acc c. 10 * acc + (of_char c - 48)) 0 s"

definition parse_int :: "string \<Rightarrow> int" where
  "parse_int s = (case s of [] \<Rightarrow> 0 | c # ds \<Rightarrow> if c = CHR ''-'' then - int (digits_val ds) else int (digits_val s))"

section \<open>Repetition and stripping\<close>

definition py_mul_str :: "string \<Rightarrow> int \<Rightarrow> string" where
  "py_mul_str s n = concat (replicate (nat n) s)"

text \<open>The ASCII characters for which \<open>str.isspace\<close> holds.\<close>

definition is_py_space :: "char \<Rightarrow> bool" where
  "is_py_space c \<longleftrightarrow> (let n = (of_char c :: nat) in (9 \<le> n \<and> n \<le> 13) \<or> (28 \<le> n \<and> n \<le> 32))"

definition py_strip :: "string \<Rightarrow> string" where
  "py_strip s = rev (dropWhile is_py_space (rev (dropWhile is_py_space s)))"

text \<open>The heart of the lives label, \<open>U+2764 U+FE0F\<close>, as its UTF-8 bytes.\<close>

definition HEART :: string where
  "HEART = map char_of [226 :: nat, 157, 164, 239, 184, 143]"

section \<open>Lemmas\<close>

declare nat_str.simps [simp del]

lemma of_char_digit [simp]: "d < 10 \<Longrightarrow> (of_char (DIGITS ! d) :: nat) = 48 + d"
  by (auto simp: DIGITS_def less_Suc_eq numeral_eq_Suc)

lemma digit_not_minus [simp]: "d < 10 \<Longrightarrow> DIGITS ! d \<noteq> CHR ''-''"
  by (auto simp: DIGITS_def less_Suc_eq numeral_eq_Suc)

lemma digits_val_snoc: "digits_val (s @ [c]) = 10 * digits_val s + (of_char c - 48)"
  by (simp add: digits_val_def)

lemma digits_val_nat_str [simp]: "digits_val (nat_str n) = n"
proof (induction n rule: nat_str.induct)
  case (1 n)
  show ?case
  proof (cases "n < 10")
    case True
    then show ?thesis by (simp add: nat_str.simps digits_val_def)
  next
    case False
    then have "digits_val (nat_str n) = 10 * (n div 10) + n mod 10"
      using "1.IH" by (simp add: nat_str.simps [of n] digits_val_snoc)
    then show ?thesis by simp
  qed
qed

lemma nat_str_hd: "\<exists>c cs. nat_str n = c # cs \<and> c \<noteq> CHR ''-''"
proof (induction n rule: nat_str.induct)
  case (1 n)
  show ?case
  proof (cases "n < 10")
    case True
    with True show ?thesis by (simp add: nat_str.simps)
  next
    case False
    with "1.IH" show ?thesis by (auto simp: nat_str.simps [of n])
  qed
qed

lemma parse_int_py_str [simp]: "parse_int (py_str i) = i"
proof -
  obtain c cs where h: "nat_str (nat (if i < 0 then - i else i)) = c # cs" "c \<noteq> CHR ''-''"
    using nat_str_hd by blast
  show ?thesis
  proof (cases "i < 0")
    case True
    then show ?thesis by (simp add: py_str_def parse_int_def)
  next
    case False
    with h have "parse_int (nat_str (nat i)) = int (digits_val (nat_str (nat i)))"
      by (simp add: parse_int_def)
    with False show ?thesis by (simp add: py_str_def)
  qed
qed

lemma py_str_inject [simp]: "py_str a = py_str b \<longleftrightarrow> a = b"
  by (metis parse_int_py_str)

lemma py_strip_hearts:
  "py_strip (py_mul_str (HEART @ '' '') n) =
     (if n \<le> 0 then [] else concat (replicate (nat n - 1) (HEART @ '' '')) @ HEART)"
proof (cases "n \<le> 0")
  case True
  then show ?thesis by (simp add: py_strip_def py_mul_str_def)
next
  case False
  then obtain m where m: "nat n = Suc m" by (metis gr0_implies_Suc not_le zero_less_nat_eq)
  let ?P = "concat (replicate m (HEART @ '' ''))"
  have c: "py_mul_str (HEART @ '' '') n = ?P @ HEART @ '' ''"
  proof -
    have "replicate (Suc m) (HEART @ '' '') = replicate m (HEART @ '' '') @ [HEART @ '' '']"
      by (simp add: replicate_append_same)
    then show ?thesis by (simp add: py_mul_str_def m)
  qed
  have l: "dropWhile is_py_space (?P @ HEART @ '' '') = ?P @ HEART @ '' ''"
    by (cases m) (simp_all add: HEART_def is_py_space_def)
  have r: "dropWhile is_py_space (rev (?P @ HEART @ '' '')) = rev HEART @ rev ?P"
    by (simp add: HEART_def is_py_space_def)
  have "py_strip (py_mul_str (HEART @ '' '') n) = ?P @ HEART" unfolding py_strip_def c l r by simp
  with False m show ?thesis by simp
qed

end
