(* ===== verification/Snake_UI.thy ===== *)
theory Snake_UI
  imports Snake_Render Py_Text
begin

text \<open>
  The snake program with its canvas: the handlers of \<open>SnakeGame\<close> with the
  canvas calls they make, in the order they make them (\<open>src/snake.py\<close>).
  \<open>__init__\<close> draws the grid and the start screen; \<open>init_game\<close> removes the
  start, game-over and pause overlays before its first tick; \<open>restart_game\<close>
  clears the canvas and redraws the grid first; pausing shows the pause overlay
  and resuming removes it; a tick either ends the game and shows the game-over
  overlay or redraws the snake and the food. The score label is not on the
  canvas; its text, which \<open>update_score\<close> sets whenever the score changes, is
  part of the state beside it, and so is the window with its fullscreen
  attribute. The texts' strings and fonts on the canvas are left out.
\<close>

section \<open>Screens\<close>

definition TEXT_COLOR :: string where "TEXT_COLOR = ''#eee''"
definition ACCENT_COLOR :: string where "ACCENT_COLOR = ''#f39c12''"

definition show_start_screen :: "canvas \<Rightarrow> canvas" where
  "show_start_screen c =
     create Text_item (map of_int [WINDOW_WIDTH div 2, WINDOW_HEIGHT div 2 + 20]) TEXT_COLOR [''start'']
       (create Text_item (map of_int [WINDOW_WIDTH div 2, WINDOW_HEIGHT div 2 - 40]) ACCENT_COLOR [''start''] c)"

definition show_pause_screen :: "canvas \<Rightarrow> canvas" where
  "show_pause_screen c =
     create Text_item (map of_int [WINDOW_WIDTH div 2, WINDOW_HEIGHT div 2]) ACCENT_COLOR [''pause'']
       (create Rectangle (map of_int [0, 0, WINDOW_WIDTH, WINDOW_HEIGHT]) BG_COLOR [''pause''] c)"

definition show_game_over :: "canvas \<Rightarrow> canvas" where
  "show_game_over c =
     create Text_item (map of_int [WINDOW_WIDTH div 2, WINDOW_HEIGHT div 2 + 50]) ACCENT_COLOR [''gameover'']
       (create Text_item (map of_int [WINDOW_WIDTH div 2, WINDOW_HEIGHT div 2]) TEXT_COLOR [''gameover'']
         (create Text_item (map of_int [WINDOW_WIDTH div 2, WINDOW_HEIGHT div 2 - 60]) FOOD_COLOR [''gameover'']
           (create Rectangle (map of_int [0, 0, WINDOW_WIDTH, WINDOW_HEIGHT]) BG_COLOR [''gameover''] c)))"

text \<open>The text \<open>update_score\<close> gives the score label.\<close>

definition update_score :: "snake_game \<Rightarrow> string" where
  "update_score g = ''Score: '' @ py_str (score g)"

section \<open>The window\<close>

text \<open>
  The window \<open>__init__\<close> sets up (lines 31--36): the title, whose snake
  \<open>U+1F40D\<close> is given as its UTF-8 bytes, the background, resizing in both
  directions and a minimum size of 500 by 500. The fullscreen handlers (lines
  106--117) set the \<open>-fullscreen\<close> attribute of the window with the flag; the
  result is the new game and the new window.
\<close>

definition SNAKE_TITLE :: string where
  "SNAKE_TITLE = map char_of [240 :: nat, 159, 144, 141] @ '' Snake Game''"

definition snake_window :: tk_window where
  "snake_window = tk_root\<lparr>win_title := SNAKE_TITLE, win_bg := BG_COLOR, win_resizable := (True, True),
                          win_minsize := (500, 500)\<rparr>"

definition toggle_fullscreen_ui :: "snake_game \<Rightarrow> tk_window \<Rightarrow> snake_game \<times> tk_window" where
  "toggle_fullscreen_ui g w =
     (let g1 = g\<lparr>is_fullscreen := \<not> is_fullscreen g\<rparr> in (g1, w\<lparr>win_fullscreen := is_fullscreen g1\<rparr>))"

definition exit_fullscreen_ui :: "snake_game \<Rightarrow> tk_window \<Rightarrow> snake_game \<times> tk_window" where
  "exit_fullscreen_ui g w =
     (if is_fullscreen g then (g\<lparr>is_fullscreen := False\<rparr>, w\<lparr>win_fullscreen := False\<rparr>) else (g, w))"

section \<open>Handlers with their drawing\<close>

text \<open>\<open>move_snake\<close> with its \<open>update_score\<close> call (line 236): the result carries the label text.\<close>

definition move_snake_ui :: "rng \<Rightarrow> snake_game \<Rightarrow> nat \<Rightarrow> string \<Rightarrow> (bool \<times> snake_game \<times> nat \<times> string) outcome" where
  "move_snake_ui rs g k lbl =
     (let g1 = g\<lparr>direction := next_direction g\<rparr> in
      case snake g1 of
        [] \<Rightarrow> raise IndexError
      | (head_x, head_y) # _ \<Rightarrow>
          (let new_head = (head_x + fst (direction g1), head_y + snd (direction g1)) in
           if fst new_head < 0 \<or> fst new_head \<ge> GRID_WIDTH \<or>
              snd new_head < 0 \<or> snd new_head \<ge> GRID_HEIGHT then ret (False, g1, k, lbl)
           else if new_head \<in> set (snake g1) then ret (False, g1, k, lbl)
           else
             (let g2 = g1\<lparr>snake := new_head # snake g1\<rparr> in
              if food_pos g2 = Some new_head then
                (let g3 = g2\<lparr>score := score g2 + 10\<rparr> in
                 bind_out (lift_opt (spawn_food rs g3 k)) (\<lambda>(g4, k'). ret (True, g4, k', update_score g3)))
              else ret (True, g2\<lparr>snake := butlast (snake g2)\<rparr>, k, lbl))))"

type_synonym ui_result = "snake_game \<times> nat \<times> bool \<times> canvas \<times> string"

definition game_loop_ui :: "rng \<Rightarrow> snake_game \<Rightarrow> nat \<Rightarrow> canvas \<Rightarrow> string \<Rightarrow> ui_result outcome" where
  "game_loop_ui rs g k c lbl =
     (if game_over g \<or> paused g then ret (g, k, False, c, lbl)
      else bind_out (move_snake_ui rs g k lbl)
        (\<lambda>(moved, g', k', lbl'). if \<not> moved then ret (g'\<lparr>game_over := True\<rparr>, k', False, show_game_over c, lbl')
                                  else ret (g', k', True, draw_game g' c, lbl')))"

definition init_game_ui :: "rng \<Rightarrow> snake_game \<Rightarrow> nat \<Rightarrow> canvas \<Rightarrow> string \<Rightarrow> ui_result outcome" where
  "init_game_ui rs g k c lbl =
     (let g1 = g\<lparr>snake := [(GRID_WIDTH div 2, GRID_HEIGHT div 2)], direction := RIGHT,
                 next_direction := RIGHT, score := 0, game_over := False, paused := False,
                 game_started := True\<rparr>;
          lbl1 = update_score g1
      in bind_out (lift_opt (spawn_food rs g1 k))
           (\<lambda>(g2, k2). game_loop_ui rs g2 k2 (canvas_delete [''start'', ''gameover'', ''pause''] c) lbl1))"

definition restart_game_ui :: "rng \<Rightarrow> snake_game \<Rightarrow> nat \<Rightarrow> canvas \<Rightarrow> string \<Rightarrow> ui_result outcome" where
  "restart_game_ui rs g k c lbl = init_game_ui rs g k (draw_grid (canvas_delete [''all''] c)) lbl"

definition toggle_pause_ui :: "rng \<Rightarrow> snake_game \<Rightarrow> nat \<Rightarrow> canvas \<Rightarrow> string \<Rightarrow> ui_result outcome" where
  "toggle_pause_ui rs g k c lbl =
     (if game_started g \<and> \<not> game_over g then
        (let g1 = g\<lparr>paused := \<not> paused g\<rparr> in
         if paused g1 then ret (g1, k, False, show_pause_screen c, lbl)
         else game_loop_ui rs g1 k (canvas_delete [''pause''] c) lbl)
      else ret (g, k, False, c, lbl))"

definition change_direction_ui :: "rng \<Rightarrow> dir \<Rightarrow> snake_game \<Rightarrow> nat \<Rightarrow> canvas \<Rightarrow> string \<Rightarrow> ui_result outcome" where
  "change_direction_ui rs new_direction g k c lbl =
     (if \<not> game_started g then init_game_ui rs g k c lbl
      else if (fst new_direction * -1, snd new_direction * -1) \<noteq> direction g
        then ret (g\<lparr>next_direction := new_direction\<rparr>, k, False, c, lbl)
      else ret (g, k, False, c, lbl))"

section \<open>The program with its canvas\<close>

record snake_ui =
  ui_sys :: snake_sys
  ui_canvas :: canvas
  ui_score_label :: string
  ui_window :: tk_window

definition snake_ui_init :: snake_ui where
  "snake_ui_init = \<lparr>ui_sys = snake_sys_init, ui_canvas = show_start_screen (draw_grid []),
                     ui_score_label = ''Score: 0'', ui_window = snake_window\<rparr>"

definition run_handler_ui :: "snake_ui \<Rightarrow> ui_result outcome \<Rightarrow> snake_ui outcome" where
  "run_handler_ui u r =
     bind_out r (\<lambda>(g, k, b, c, l).
       ret (u\<lparr>ui_sys := (ui_sys u)\<lparr>game := g, cursor := k, pending := after_count (pending (ui_sys u)) b\<rparr>,
               ui_canvas := c, ui_score_label := l\<rparr>))"

fun snake_ui_step :: "rng \<Rightarrow> snake_ui \<Rightarrow> snake_event \<Rightarrow> snake_ui outcome" where
  "snake_ui_step rs u KeyUp = run_handler_ui u (change_direction_ui rs UP (game (ui_sys u)) (cursor (ui_sys u)) (ui_canvas u) (ui_score_label u))"
| "snake_ui_step rs u KeyDown = run_handler_ui u (change_direction_ui rs DOWN (game (ui_sys u)) (cursor (ui_sys u)) (ui_canvas u) (ui_score_label u))"
| "snake_ui_step rs u KeyLeft = run_handler_ui u (change_direction_ui rs LEFT (game (ui_sys u)) (cursor (ui_sys u)) (ui_canvas u) (ui_score_label u))"
| "snake_ui_step rs u KeyRight = run_handler_ui u (change_direction_ui rs RIGHT (game (ui_sys u)) (cursor (ui_sys u)) (ui_canvas u) (ui_score_label u))"
| "snake_ui_step rs u KeySpace = run_handler_ui u (toggle_pause_ui rs (game (ui_sys u)) (cursor (ui_sys u)) (ui_canvas u) (ui_score_label u))"
| "snake_ui_step rs u KeyR = run_handler_ui u (restart_game_ui rs (game (ui_sys u)) (cursor (ui_sys u)) (ui_canvas u) (ui_score_label u))"
| "snake_ui_step rs u KeyF11 =
     (case toggle_fullscreen_ui (game (ui_sys u)) (ui_window u) of (g, w) \<Rightarrow>
        ret (u\<lparr>ui_sys := (ui_sys u)\<lparr>game := g\<rparr>, ui_window := w\<rparr>))"
| "snake_ui_step rs u KeyEscape =
     (case exit_fullscreen_ui (game (ui_sys u)) (ui_window u) of (g, w) \<Rightarrow>
        ret (u\<lparr>ui_sys := (ui_sys u)\<lparr>game := g\<rparr>, ui_window := w\<rparr>))"
| "snake_ui_step rs u TimerFire =
     (if pending (ui_sys u) = 0 then ret u
      else run_handler_ui (u\<lparr>ui_sys := (ui_sys u)\<lparr>pending := pending (ui_sys u) - 1\<rparr>\<rparr>)
             (game_loop_ui rs (game (ui_sys u)) (cursor (ui_sys u)) (ui_canvas u) (ui_score_label u)))"

fun snake_ui_run :: "rng \<Rightarrow> snake_ui \<Rightarrow> snake_event list \<Rightarrow> snake_ui outcome" where
  "snake_ui_run rs u [] = ret u"
| "snake_ui_run rs u (e # es) = bind_out (snake_ui_step rs u e) (\<lambda>u'. snake_ui_run rs u' es)"

inductive snake_ui_reach :: "rng \<Rightarrow> snake_ui \<Rightarrow> bool" for rs where
  start: "snake_ui_reach rs snake_ui_init"
| step: "snake_ui_reach rs u \<Longrightarrow> snake_ui_step rs u e = ret u' \<Longrightarrow> snake_ui_reach rs u'"

text \<open>
  \<open>overlays_ok\<close>: every item carries at most one tag; the 900 untagged grid
  cells are on the canvas; the two start texts are there exactly before the
  first start, the two pause items exactly while paused, the four game-over
  items exactly when the game is over.
\<close>

definition overlays_ok :: "snake_game \<Rightarrow> canvas \<Rightarrow> bool" where
  "overlays_ok g c \<longleftrightarrow> single_tags c \<and> length (untagged c) = 900 \<and>
     length (tagged ''start'' c) = (if game_started g then 0 else 2) \<and>
     length (tagged ''pause'' c) = (if paused g then 2 else 0) \<and>
     length (tagged ''gameover'' c) = (if game_over g then 4 else 0)"

text \<open>\<open>display_ok\<close>: the overlays follow the flags and the score label shows the score.\<close>

definition display_ok :: "snake_game \<Rightarrow> canvas \<Rightarrow> string \<Rightarrow> bool" where
  "display_ok g c l \<longleftrightarrow> overlays_ok g c \<and> l = update_score g"

definition forget_canvas :: "ui_result \<Rightarrow> snake_game \<times> nat \<times> bool" where
  "forget_canvas r = (case r of (g, k, b, c, l) \<Rightarrow> (g, k, b))"

definition forget_label :: "bool \<times> snake_game \<times> nat \<times> string \<Rightarrow> bool \<times> snake_game \<times> nat" where
  "forget_label r = (case r of (m, g, k, l) \<Rightarrow> (m, g, k))"

section \<open>Drawing does not change the game\<close>

lemma forget_simps [simp]: "forget_canvas (g, k, b, c, l) = (g, k, b)" "forget_label (m, g, k, l) = (m, g, k)"
  by (simp_all add: forget_canvas_def forget_label_def)

lemma fullscreen_ui_proj [simp]:
  "toggle_fullscreen_ui g w = (toggle_fullscreen g, w\<lparr>win_fullscreen := \<not> is_fullscreen g\<rparr>)"
  "exit_fullscreen_ui g w = (exit_fullscreen g, if is_fullscreen g then w\<lparr>win_fullscreen := False\<rparr> else w)"
  by (simp_all add: toggle_fullscreen_ui_def exit_fullscreen_ui_def toggle_fullscreen_def exit_fullscreen_def)

lemma move_snake_ui_proj: "map_out forget_label (move_snake_ui rs g k l) = move_snake rs g k"
proof -
  have "(\<lambda>v. map_out forget_label (case v of (g4, k') \<Rightarrow> ret (True, g4, k', l'))) = (\<lambda>(g3, k'). ret (True, g3, k'))" for l'
    by (rule ext) (simp split: prod.splits)
  then show ?thesis
    unfolding move_snake_ui_def move_snake_def by (simp add: Let_def map_out_bind split: list.splits prod.splits)
qed

lemma move_snake_ui_ret: "move_snake_ui rs g k l = ret (m, g', k', l') \<Longrightarrow> move_snake rs g k = ret (m, g', k')"
  using move_snake_ui_proj [of rs g k l] by simp

lemma game_loop_ui_proj: "map_out forget_canvas (game_loop_ui rs g k c l) = game_loop rs g k"
proof (cases "game_over g \<or> paused g")
  case True
  then show ?thesis by (simp add: game_loop_ui_def game_loop_def)
next
  case False
  have e: "(\<lambda>v. map_out forget_canvas (case v of (moved, g', k', l') \<Rightarrow>
              if \<not> moved then ret (g'\<lparr>game_over := True\<rparr>, k', False, show_game_over c, l')
              else ret (g', k', True, draw_game g' c, l'))) =
           (\<lambda>v. case forget_label v of (moved, g', k') \<Rightarrow>
              if \<not> moved then ret (g'\<lparr>game_over := True\<rparr>, k', False) else ret (g', k', True))"
    by (rule ext) (simp split: prod.splits)
  from False show ?thesis
    by (simp add: game_loop_ui_def game_loop_def map_out_bind e bind_map_out flip: move_snake_ui_proj [of rs g k l])
qed

lemma init_game_ui_proj: "map_out forget_canvas (init_game_ui rs g k c l) = init_game rs g k"
proof -
  have "(\<lambda>v. map_out forget_canvas (case v of (g2, k2) \<Rightarrow> game_loop_ui rs g2 k2 c' l')) = (\<lambda>(x, y). game_loop rs x y)" for c' l'
    by (rule ext) (simp add: game_loop_ui_proj split: prod.splits)
  then show ?thesis by (simp add: init_game_ui_def init_game_def Let_def map_out_bind)
qed

lemma toggle_pause_ui_proj: "map_out forget_canvas (toggle_pause_ui rs g k c l) = toggle_pause rs g k"
  by (simp add: toggle_pause_ui_def toggle_pause_def Let_def game_loop_ui_proj)

lemma change_direction_ui_proj:
  "map_out forget_canvas (change_direction_ui rs d g k c l) = change_direction rs d g k"
  by (simp add: change_direction_ui_def change_direction_def init_game_ui_proj)

lemma restart_game_ui_proj: "map_out forget_canvas (restart_game_ui rs g k c l) = restart_game rs g k"
  by (simp add: restart_game_ui_def restart_game_def init_game_ui_proj)

lemma run_handler_ui_proj:
  "map_out ui_sys (run_handler_ui u r) = run_handler (ui_sys u) (map_out forget_canvas r)"
  by (cases r rule: outcome_cases) (auto simp: run_handler_ui_def run_handler_def)

lemma snake_ui_step_proj: "map_out ui_sys (snake_ui_step rs u e) = snake_step rs (ui_sys u) e"
  by (cases e) (simp_all add: run_handler_ui_proj change_direction_ui_proj toggle_pause_ui_proj
                              restart_game_ui_proj game_loop_ui_proj)

lemma snake_ui_reach_proj: "snake_ui_reach rs u \<Longrightarrow> snake_reach rs (ui_sys u)"
proof (induction rule: snake_ui_reach.induct)
  case start
  then show ?case by (simp add: snake_ui_init_def snake_reach.start)
next
  case (step u e u')
  from step.hyps(2) have "snake_step rs (ui_sys u) e = ret (ui_sys u')"
    by (simp flip: snake_ui_step_proj)
  with step.IH show ?case by (rule snake_reach.step)
qed

section \<open>The overlays follow the flags\<close>

lemma screens_keep [simp]:
  "t \<noteq> ''start'' \<Longrightarrow> tagged t (show_start_screen c) = tagged t c"
  "length (tagged ''start'' (show_start_screen c)) = length (tagged ''start'' c) + 2"
  "untagged (show_start_screen c) = untagged c" "single_tags (show_start_screen c) = single_tags c"
  "t \<noteq> ''pause'' \<Longrightarrow> tagged t (show_pause_screen c) = tagged t c"
  "length (tagged ''pause'' (show_pause_screen c)) = length (tagged ''pause'' c) + 2"
  "untagged (show_pause_screen c) = untagged c" "single_tags (show_pause_screen c) = single_tags c"
  "t \<noteq> ''gameover'' \<Longrightarrow> tagged t (show_game_over c) = tagged t c"
  "length (tagged ''gameover'' (show_game_over c)) = length (tagged ''gameover'' c) + 4"
  "untagged (show_game_over c) = untagged c" "single_tags (show_game_over c) = single_tags c"
  by (simp_all add: show_start_screen_def show_pause_screen_def show_game_over_def)

lemma move_snake_ui_label:
  "move_snake_ui rs g k l = ret (m, g', k', l') \<Longrightarrow> l = update_score g \<Longrightarrow> l' = update_score g'"
  by (cases "snake g")
     (auto simp: move_snake_ui_def Let_def update_score_def bind_lift_opt_eq_ret split: if_splits prod.splits
           dest!: spawn_food_Some)

lemma game_loop_ui_ok:
  assumes "display_ok g c l" "game_loop_ui rs g k c l = ret (g', k', b, c', l')"
  shows "display_ok g' c' l'"
proof (cases "game_over g \<or> paused g")
  case True
  with assms show ?thesis by (simp add: game_loop_ui_def)
next
  case False
  with assms(2) obtain moved g1 k1 l1 where m: "move_snake_ui rs g k l = ret (moved, g1, k1, l1)"
    and r: "(if \<not> moved then ret (g1\<lparr>game_over := True\<rparr>, k1, False, show_game_over c, l1)
             else ret (g1, k1, True, draw_game g1 c, l1)) = ret (g', k', b, c', l')"
    by (auto simp: game_loop_ui_def bind_out_eq_ret)
  from move_snake_frame [OF move_snake_ui_ret [OF m]] False have fl: "paused g1 = paused g" "game_over g1 = False"
    "game_started g1 = game_started g" by simp_all
  have s: "single_tags c" and l1: "l1 = update_score g1"
    using assms(1) move_snake_ui_label [OF m] by (simp_all add: display_ok_def overlays_ok_def)
  show ?thesis
  proof (cases moved)
    case True
    with r have "g' = g1" "c' = draw_game g1 c" "l' = l1" by auto
    with assms(1) fl False l1 draw_game_keeps [OF s] show ?thesis by (simp add: display_ok_def overlays_ok_def)
  next
    case moved: False
    with r have "g' = g1\<lparr>game_over := True\<rparr>" "c' = show_game_over c" "l' = l1" by auto
    with assms(1) fl False l1 show ?thesis by (simp add: display_ok_def overlays_ok_def update_score_def)
  qed
qed

lemma init_game_ui_ok:
  assumes "single_tags c" "length (untagged c) = 900" "init_game_ui rs g k c l = ret (g', k', b, c', l')"
  shows "display_ok g' c' l'"
proof -
  let ?g1 = "g\<lparr>snake := [(GRID_WIDTH div 2, GRID_HEIGHT div 2)], direction := RIGHT,
                 next_direction := RIGHT, score := 0, game_over := False, paused := False,
                 game_started := True\<rparr>"
  let ?c0 = "canvas_delete [''start'', ''gameover'', ''pause''] c"
  from assms(3) obtain g2 k2 where sp: "spawn_food rs ?g1 k = Some (g2, k2)"
    and gl: "game_loop_ui rs g2 k2 ?c0 (update_score ?g1) = ret (g', k', b, c', l')"
    by (auto simp: init_game_ui_def Let_def bind_lift_opt_eq_ret)
  from spawn_food_Some [OF sp] obtain f where "g2 = ?g1\<lparr>food_pos := Some f\<rparr>" by blast
  with assms(1,2) have "display_ok g2 ?c0 (update_score ?g1)"
    by (simp add: display_ok_def overlays_ok_def untagged_delete single_tags_delete update_score_def)
  from game_loop_ui_ok [OF this gl] show ?thesis .
qed

lemma restart_game_ui_ok:
  "restart_game_ui rs g k c l = ret (g', k', b, c', l') \<Longrightarrow> display_ok g' c' l'"
  unfolding restart_game_ui_def by (rule init_game_ui_ok) (simp_all add: draw_grid_keeps)

lemma toggle_pause_ui_ok:
  assumes "display_ok g c l" "toggle_pause_ui rs g k c l = ret (g', k', b, c', l')"
  shows "display_ok g' c' l'"
proof (cases "game_started g \<and> \<not> game_over g")
  case False
  with assms show ?thesis by (simp add: toggle_pause_ui_def)
next
  case started: True
  show ?thesis
  proof (cases "paused g")
    case False
    with started assms show ?thesis by (auto simp: toggle_pause_ui_def display_ok_def overlays_ok_def update_score_def)
  next
    case True
    with started assms(2) have gl: "game_loop_ui rs (g\<lparr>paused := False\<rparr>) k (canvas_delete [''pause''] c) l = ret (g', k', b, c', l')"
      by (simp add: toggle_pause_ui_def)
    from assms(1) True have "display_ok (g\<lparr>paused := False\<rparr>) (canvas_delete [''pause''] c) l"
      by (simp add: display_ok_def overlays_ok_def tagged_delete_other untagged_delete single_tags_delete update_score_def)
    from game_loop_ui_ok [OF this gl] show ?thesis .
  qed
qed

lemma change_direction_ui_ok:
  assumes "display_ok g c l" "change_direction_ui rs d g k c l = ret (g', k', b, c', l')"
  shows "display_ok g' c' l'"
proof (cases "game_started g")
  case False
  with assms(2) have i: "init_game_ui rs g k c l = ret (g', k', b, c', l')" by (simp add: change_direction_ui_def)
  have "single_tags c" "length (untagged c) = 900" using assms(1) by (simp_all add: display_ok_def overlays_ok_def)
  from init_game_ui_ok [OF this i] show ?thesis .
next
  case True
  with assms show ?thesis by (auto simp: change_direction_ui_def display_ok_def overlays_ok_def update_score_def split: if_splits)
qed

lemma run_handler_ui_ok:
  assumes "run_handler_ui u r = ret u'" "\<And>g k b c l. r = ret (g, k, b, c, l) \<Longrightarrow> display_ok g c l"
  shows "display_ok (game (ui_sys u')) (ui_canvas u') (ui_score_label u')"
  using assms by (auto simp: run_handler_ui_def bind_out_eq_ret)

lemma snake_ui_step_ok:
  assumes ok: "display_ok (game (ui_sys u)) (ui_canvas u) (ui_score_label u)" and st: "snake_ui_step rs u e = ret u'"
  shows "display_ok (game (ui_sys u')) (ui_canvas u') (ui_score_label u')"
proof (cases e)
  case KeyUp
  with st show ?thesis by simp (erule run_handler_ui_ok, erule change_direction_ui_ok [OF ok])
next
  case KeyDown
  with st show ?thesis by simp (erule run_handler_ui_ok, erule change_direction_ui_ok [OF ok])
next
  case KeyLeft
  with st show ?thesis by simp (erule run_handler_ui_ok, erule change_direction_ui_ok [OF ok])
next
  case KeyRight
  with st show ?thesis by simp (erule run_handler_ui_ok, erule change_direction_ui_ok [OF ok])
next
  case KeySpace
  with st show ?thesis by simp (erule run_handler_ui_ok, erule toggle_pause_ui_ok [OF ok])
next
  case KeyR
  with st show ?thesis by simp (erule run_handler_ui_ok, erule restart_game_ui_ok)
next
  case KeyF11
  with ok st show ?thesis by (auto simp: display_ok_def overlays_ok_def update_score_def toggle_fullscreen_def)
next
  case KeyEscape
  with ok st show ?thesis
    by (cases "is_fullscreen (game (ui_sys u))") (auto simp: display_ok_def overlays_ok_def update_score_def exit_fullscreen_def)
next
  case TimerFire
  show ?thesis
  proof (cases "pending (ui_sys u) = 0")
    case True
    with TimerFire ok st show ?thesis by simp
  next
    case False
    with TimerFire st show ?thesis by simp (erule run_handler_ui_ok, erule game_loop_ui_ok [OF ok])
  qed
qed

lemma snake_ui_reach_ok: "snake_ui_reach rs u \<Longrightarrow> display_ok (game (ui_sys u)) (ui_canvas u) (ui_score_label u)"
proof (induction rule: snake_ui_reach.induct)
  case start
  show ?case
    by (simp add: snake_ui_init_def snake_sys_init_def snake_init_def display_ok_def overlays_ok_def draw_grid_keeps
                  update_score_def py_str_def nat_str.simps DIGITS_def)
next
  case (step u e u')
  from snake_ui_step_ok [OF step.IH step.hyps(2)] show ?case .
qed

section \<open>The window follows the fullscreen flag\<close>

lemma run_handler_ui_window: "run_handler_ui u r = ret u' \<Longrightarrow> ui_window u' = ui_window u"
  by (auto simp: run_handler_ui_def bind_out_eq_ret)

lemma snake_ui_step_window:
  assumes w: "ui_window u = snake_window\<lparr>win_fullscreen := is_fullscreen (game (ui_sys u))\<rparr>"
    and st: "snake_ui_step rs u e = ret u'"
  shows "ui_window u' = snake_window\<lparr>win_fullscreen := is_fullscreen (game (ui_sys u'))\<rparr>"
proof (cases "e = KeyF11 \<or> e = KeyEscape")
  case True
  with w st show ?thesis by (auto simp: toggle_fullscreen_def exit_fullscreen_def)
next
  case False
  from st have "snake_step rs (ui_sys u) e = ret (ui_sys u')" by (simp flip: snake_ui_step_proj)
  from snake_step_fullscreen [OF this] False
  have "is_fullscreen (game (ui_sys u')) = is_fullscreen (game (ui_sys u))" by simp
  moreover from False st have "ui_window u' = ui_window u"
    by (cases e) (auto split: if_splits dest: run_handler_ui_window)
  ultimately show ?thesis using w by simp
qed

lemma snake_ui_reach_window:
  "snake_ui_reach rs u \<Longrightarrow> ui_window u = snake_window\<lparr>win_fullscreen := is_fullscreen (game (ui_sys u))\<rparr>"
proof (induction rule: snake_ui_reach.induct)
  case start
  show ?case by (simp add: snake_ui_init_def snake_sys_init_def snake_init_def snake_window_def tk_root_def)
next
  case (step u e u')
  from snake_ui_step_window [OF step.IH step.hyps(2)] show ?case .
qed

section \<open>Properties of the program with its canvas\<close>

text \<open>The state after the first key press (a right arrow) and a space: started, one tick run, paused.\<close>

abbreviation demo_ui_canvas :: canvas where
  "demo_ui_canvas \<equiv> show_pause_screen (draw_game demo_game
     (canvas_delete [''start'', ''gameover'', ''pause''] (show_start_screen (draw_grid []))))"

lemma demo_ui_reach:
  "snake_ui_reach (\<lambda>_. 0) \<lparr>ui_sys = \<lparr>game = demo_game\<lparr>paused := True\<rparr>, cursor = 2, pending = 1\<rparr>,
                             ui_canvas = demo_ui_canvas, ui_score_label = ''Score: 0'', ui_window = snake_window\<rparr>"
proof -
  have s1: "snake_ui_step (\<lambda>_. 0) snake_ui_init KeyRight =
      ret \<lparr>ui_sys = \<lparr>game = demo_game, cursor = 2, pending = 1\<rparr>,
           ui_canvas = draw_game demo_game (canvas_delete [''start'', ''gameover'', ''pause''] (show_start_screen (draw_grid []))),
           ui_score_label = ''Score: 0'', ui_window = snake_window\<rparr>"
    by (simp add: snake_ui_init_def snake_sys_init_def snake_init_def run_handler_ui_def change_direction_ui_def
        init_game_ui_def game_loop_ui_def move_snake_ui_def spawn_food.simps randint_def Let_def dir_defs
        update_score_def py_str_def nat_str.simps DIGITS_def)
  have s2: "snake_ui_step (\<lambda>_. 0) \<lparr>ui_sys = \<lparr>game = demo_game, cursor = 2, pending = 1\<rparr>,
           ui_canvas = draw_game demo_game (canvas_delete [''start'', ''gameover'', ''pause''] (show_start_screen (draw_grid []))),
           ui_score_label = ''Score: 0'', ui_window = snake_window\<rparr>
        KeySpace = ret \<lparr>ui_sys = \<lparr>game = demo_game\<lparr>paused := True\<rparr>, cursor = 2, pending = 1\<rparr>, ui_canvas = demo_ui_canvas,
                        ui_score_label = ''Score: 0'', ui_window = snake_window\<rparr>"
    by (simp add: snake_init_def run_handler_ui_def toggle_pause_ui_def)
  from snake_ui_reach.step [OF snake_ui_reach.step [OF snake_ui_reach.start s1] s2] show ?thesis .
qed

text \<open>
  C33. Drawing never changes the game: the program with its canvas, run on any
  sequence of events, computes the same game, random cursor and pending callbacks
  (or the same exception, or the same non-termination) as the game logic alone.
  The canvas calls of every handler are pure output.
\<close>

theorem ui_refines_game: "map_out ui_sys (snake_ui_run rs u es) = snake_run rs (ui_sys u) es"
  by (induction es arbitrary: u)
     (simp_all add: map_out_bind bind_map_out flip: snake_ui_step_proj)

text \<open>
  C34. In every state the program reaches, the canvas matches the game's flags:
  the 900 grid cells are there, the two start texts exactly until the game is
  first started, the pause overlay (shade and text) exactly while paused, the four
  game-over items exactly when the game is over; and no item carries two tags.
  Pausing adds the overlay, resuming and restarting remove it, a losing tick adds
  the game-over screen, and a start removes all three.
\<close>

theorem overlays_follow_flags:
  assumes "snake_ui_reach rs u"
  shows "single_tags (ui_canvas u) \<and> length (untagged (ui_canvas u)) = 900 \<and>
    length (tagged ''start'' (ui_canvas u)) = (if game_started (game (ui_sys u)) then 0 else 2) \<and>
    length (tagged ''pause'' (ui_canvas u)) = (if paused (game (ui_sys u)) then 2 else 0) \<and>
    length (tagged ''gameover'' (ui_canvas u)) = (if game_over (game (ui_sys u)) then 4 else 0)"
  using snake_ui_reach_ok [OF assms] by (simp add: display_ok_def overlays_ok_def)

theorem overlays_follow_flags_witness:
  "snake_ui_reach (\<lambda>_. 0) \<lparr>ui_sys = \<lparr>game = demo_game\<lparr>paused := True\<rparr>, cursor = 2, pending = 1\<rparr>,
                             ui_canvas = demo_ui_canvas, ui_score_label = ''Score: 0'', ui_window = snake_window\<rparr> \<and>
   length (tagged ''pause'' demo_ui_canvas) = 2 \<and> tagged ''start'' demo_ui_canvas = [] \<and>
   tagged ''gameover'' demo_ui_canvas = [] \<and> length (untagged demo_ui_canvas) = 900"
  using overlays_follow_flags [OF demo_ui_reach] demo_ui_reach by (simp add: snake_init_def)

text \<open>
  C38. The score label always shows the score: in every state the program
  reaches, its text is \<open>Score: \<close> followed by the decimal numeral of the
  score, so reading the numeral back gives the score exactly. \<open>update_score\<close>
  is called at each change of the score (the start and each food eaten).
\<close>

theorem score_label_shows_score:
  assumes "snake_ui_reach rs u"
  shows "ui_score_label u = ''Score: '' @ py_str (score (game (ui_sys u))) \<and>
         parse_int (drop 7 (ui_score_label u)) = score (game (ui_sys u))"
  using snake_ui_reach_ok [OF assms] by (simp add: display_ok_def update_score_def)

theorem score_label_shows_score_witness:
  "snake_ui_reach (\<lambda>_. 0) \<lparr>ui_sys = \<lparr>game = demo_game\<lparr>paused := True\<rparr>, cursor = 2, pending = 1\<rparr>,
                             ui_canvas = demo_ui_canvas, ui_score_label = ''Score: 0'', ui_window = snake_window\<rparr> \<and>
   ''Score: 0'' = ''Score: '' @ py_str (score demo_game)"
  using score_label_shows_score [OF demo_ui_reach] demo_ui_reach by simp

end
