(* ===== verification/Frites_Core.thy ===== *)
theory Frites_Core
  imports Prelude
begin

text \<open>
  The objects of \<open>src/frites_game.py\<close> without the drawing calls. \<open>frite\<close> and
  \<open>paquet\<close> are the classes \<open>Frite\<close> (a falling fry) and \<open>PaquetFrites\<close> (the
  catcher), \<open>frites_game\<close> the game fields of \<open>FritesGame\<close>. The module global
  \<open>FRITE_SPAWN_RATE\<close>, which \<open>game_loop\<close> decrements through \<open>globals()\<close>, is
  passed to and returned from the loop. Positions of fries are floats (a fry's
  x drifts by a sine), modelled as \<open>real\<close>; the catcher's coordinates stay
  integers (\<open>event.x\<close>, \<open>//\<close>, \<open>+ 15\<close>) and are \<open>int\<close>.
  The methods \<open>toggle_fullscreen\<close>, \<open>exit_fullscreen\<close>, \<open>restart_game\<close> and
  \<open>game_loop\<close>, whose names \<open>SnakeGame\<close> also uses, carry the suffix \<open>_frites\<close>.
\<close>

section \<open>Constants\<close>

definition WINDOW_WIDTH_frites :: int where "WINDOW_WIDTH_frites = 800"
definition WINDOW_HEIGHT_frites :: int where "WINDOW_HEIGHT_frites = 600"
definition FRITE_SPAWN_RATE_init :: int where "FRITE_SPAWN_RATE_init = 40"
definition FRITE_SPEED :: int where "FRITE_SPEED = 3"

named_theorems frites_consts "the module constants of frites_game.py, unfolded"

declare WINDOW_WIDTH_frites_def [frites_consts] WINDOW_HEIGHT_frites_def [frites_consts]
  FRITE_SPAWN_RATE_init_def [frites_consts] FRITE_SPEED_def [frites_consts]

section \<open>Frite\<close>

record frite =
  frite_x :: real
  frite_y :: real
  frite_width :: int
  frite_height :: int
  frite_speed :: real
  frite_rotation :: int
  frite_wobble :: real

text \<open>\<open>Frite(x, y)\<close> draws its speed jitter, rotation and wobble phase, in this order.\<close>

definition new_frite :: "rng \<Rightarrow> nat \<Rightarrow> real \<Rightarrow> real \<Rightarrow> frite \<times> nat" where
  "new_frite rs k x y =
     (\<lparr>frite_x = x, frite_y = y, frite_width = 8, frite_height = 40,
       frite_speed = of_int FRITE_SPEED + uniform (-1) 1 (rs k),
       frite_rotation = randint (-30) 30 (rs (Suc k)),
       frite_wobble = uniform 0 360 (rs (Suc (Suc k)))\<rparr>, k + 3)"

definition frite_update :: "frite \<Rightarrow> frite" where
  "frite_update f =
     (let y = frite_y f + frite_speed f; w = frite_wobble f + 5
      in f\<lparr>frite_y := y, frite_wobble := w, frite_x := frite_x f + sin (w * pi / 180) * 0.5\<rparr>)"

definition is_off_screen :: "frite \<Rightarrow> bool" where
  "is_off_screen f \<longleftrightarrow> frite_y f > of_int WINDOW_HEIGHT_frites"

section \<open>PaquetFrites\<close>

record paquet =
  paquet_x :: int
  paquet_y :: int
  paquet_width :: int
  paquet_height :: int
  paquet_target_x :: int
  paquet_speed :: int

definition new_paquet :: "int \<Rightarrow> int \<Rightarrow> paquet" where
  "new_paquet x y = \<lparr>paquet_x = x, paquet_y = y, paquet_width = 80, paquet_height = 100,
     paquet_target_x = x, paquet_speed = 15\<rparr>"

definition move_to :: "paquet \<Rightarrow> int \<Rightarrow> paquet" where
  "move_to p target_x =
     p\<lparr>paquet_target_x := max (paquet_width p div 2)
                               (min (WINDOW_WIDTH_frites - paquet_width p div 2) target_x)\<rparr>"

definition update_paquet :: "paquet \<Rightarrow> paquet" where
  "update_paquet p =
     (if \<bar>paquet_x p - paquet_target_x p\<bar> > 2 then
        (if paquet_x p < paquet_target_x p
         then p\<lparr>paquet_x := min (paquet_x p + paquet_speed p) (paquet_target_x p)\<rparr>
         else p\<lparr>paquet_x := max (paquet_x p - paquet_speed p) (paquet_target_x p)\<rparr>)
      else p)"

definition get_catch_rect :: "paquet \<Rightarrow> int \<times> int \<times> int \<times> int" where
  "get_catch_rect p =
     (paquet_x p - paquet_width p div 2, paquet_y p - paquet_height p div 2,
      paquet_x p + paquet_width p div 2, paquet_y p - paquet_height p div 2 + 20)"

section \<open>FritesGame\<close>

record frites_game =
  paquet :: paquet
  frites :: "frite list"
  score :: int
  lives :: int
  game_over :: bool
  game_started :: bool
  frame_count :: int
  combo :: int
  max_combo :: int
  is_fullscreen :: bool

definition frites_init :: frites_game where
  "frites_init = \<lparr>paquet = new_paquet (WINDOW_WIDTH_frites div 2) (WINDOW_HEIGHT_frites - 80),
     frites = [], score = 0, lives = 3, game_over = False, game_started = False,
     frame_count = 0, combo = 0, max_combo = 0, is_fullscreen = False\<rparr>"

definition toggle_fullscreen_frites :: "frites_game \<Rightarrow> frites_game" where
  "toggle_fullscreen_frites g = g\<lparr>is_fullscreen := \<not> is_fullscreen g\<rparr>"

definition exit_fullscreen_frites :: "frites_game \<Rightarrow> frites_game" where
  "exit_fullscreen_frites g = (if is_fullscreen g then g\<lparr>is_fullscreen := False\<rparr> else g)"

definition check_collision :: "frites_game \<Rightarrow> frite \<Rightarrow> bool" where
  "check_collision g f =
     (case get_catch_rect (paquet g) of (l, t, r, b) \<Rightarrow>
        of_int l \<le> frite_x f \<and> frite_x f \<le> of_int r \<and>
        of_int t \<le> frite_y f \<and> frite_y f \<le> of_int (b + 30))"

definition spawn_frite :: "rng \<Rightarrow> frites_game \<Rightarrow> nat \<Rightarrow> frites_game \<times> nat" where
  "spawn_frite rs g k =
     (let x = randint 50 (WINDOW_WIDTH_frites - 50) (rs k);
          (f, k') = new_frite rs (Suc k) (of_int x) (-50)
      in (g\<lparr>frites := frites g @ [f]\<rparr>, k'))"

definition on_mouse_move :: "frites_game \<Rightarrow> int \<Rightarrow> frites_game" where
  "on_mouse_move g x =
     (if game_started g \<and> \<not> game_over g then g\<lparr>paquet := move_to (paquet g) x\<rparr> else g)"

definition restart_game_frites :: "frites_game \<Rightarrow> frites_game" where
  "restart_game_frites g =
     g\<lparr>frites := [], score := 0, lives := 3, combo := 0, max_combo := 0, game_over := False,
       game_started := False, frame_count := 0,
       paquet := (paquet g)\<lparr>paquet_x := WINDOW_WIDTH_frites div 2,
                            paquet_target_x := WINDOW_WIDTH_frites div 2\<rparr>\<rparr>"

section \<open>The game loop\<close>

text \<open>
  The \<open>for frite in self.frites\<close> loop of \<open>game_loop\<close> (lines 424--447). Each
  fry is moved in place, then caught (score \<open>10 + 5 * combo\<close>, combo up) or, if
  it fell off the screen, missed (a life lost, combo reset). The loop returns the
  game, the fries after the pass with a flag ``listed in \<open>frites_to_remove\<close>'', and
  whether it stopped early: a miss that leaves no life sets \<open>game_over\<close> and
  returns from \<open>game_loop\<close> at once, leaving the later fries unmoved.
  \<open>self.frites.remove(frite)\<close> removes the object itself (\<open>Frite\<close> has no
  \<open>__eq__\<close>), so removal is by position: the flagged entries are dropped.
\<close>

fun frites_pass :: "frites_game \<Rightarrow> frite list \<Rightarrow> frites_game \<times> (frite \<times> bool) list \<times> bool" where
  "frites_pass g [] = (g, [], False)"
| "frites_pass g (f # fs) =
     (let f' = frite_update f in
      if check_collision g f' then
        (let points = 10 + combo g * 5;
             g1 = g\<lparr>score := score g + points, combo := combo g + 1\<rparr>;
             g2 = g1\<lparr>max_combo := max (max_combo g1) (combo g1)\<rparr>;
             (g3, rest, stop) = frites_pass g2 fs
         in (g3, (f', True) # rest, stop))
      else if is_off_screen f' then
        (let g1 = g\<lparr>lives := lives g - 1, combo := 0\<rparr> in
         if lives g1 \<le> 0 then (g1\<lparr>game_over := True\<rparr>, (f', True) # map (\<lambda>f. (f, False)) fs, True)
         else (let (g3, rest, stop) = frites_pass g1 fs in (g3, (f', True) # rest, stop)))
      else (let (g3, rest, stop) = frites_pass g fs in (g3, (f', False) # rest, stop)))"

text \<open>
  \<open>game_loop_frites\<close> with the module global \<open>FRITE_SPAWN_RATE\<close> as \<open>rate\<close>: returns
  the game, the new rate, the random cursor and whether it re-registered itself.
\<close>

definition game_loop_frites :: "rng \<Rightarrow> int \<Rightarrow> frites_game \<Rightarrow> nat \<Rightarrow> (frites_game \<times> int \<times> nat \<times> bool) outcome" where
  "game_loop_frites rs rate g k =
     (if \<not> game_started g \<or> game_over g then ret (g, rate, k, False)
      else
        (let g1 = g\<lparr>frame_count := frame_count g + 1\<rparr> in
         bind_out (py_mod (frame_count g1) rate) (\<lambda>m.
           let (g2, k2) = (if m = 0 then spawn_frite rs g1 k else (g1, k));
               rate2 = (if frame_count g2 mod 500 = 0 \<and> rate > 20 then rate - 2 else rate);
               g3 = g2\<lparr>paquet := update_paquet (paquet g2)\<rparr>;
               (g4, passed, stop) = frites_pass g3 (frites g3)
           in if stop then ret (g4\<lparr>frites := map fst passed\<rparr>, rate2, k2, False)
              else ret (g4\<lparr>frites := map fst (filter (\<lambda>(f, removed). \<not> removed) passed)\<rparr>,
                        rate2, k2, True))))"

definition start_game :: "rng \<Rightarrow> int \<Rightarrow> frites_game \<Rightarrow> nat \<Rightarrow> (frites_game \<times> int \<times> nat \<times> bool) outcome" where
  "start_game rs rate g k = game_loop_frites rs rate (g\<lparr>game_started := True\<rparr>) k"

definition on_click :: "rng \<Rightarrow> int \<Rightarrow> frites_game \<Rightarrow> nat \<Rightarrow> (frites_game \<times> int \<times> nat \<times> bool) outcome" where
  "on_click rs rate g k = (if \<not> game_started g then start_game rs rate g k else ret (g, rate, k, False))"

end
