(* ===== verification/Frites_Props.thy ===== *)
theory Frites_Props
  imports Frites_Core
begin

text \<open>
  Properties of the objects of \<open>Frites_Core\<close> one tick at a time: the catcher's
  bounds and its approach to the target; the per-fry pass of \<open>game_loop\<close>
  against a reference fold (\<open>tally_run\<close>) over the outcome of each fry
  (\<open>classify\<close>), and the bounds and the combo that fold computes; the shape of
  the fries; what one tick does (\<open>game_loop_frites_tick\<close>) and the invariant
  \<open>frites_inv\<close> of the game object that every tick keeps.
\<close>

section \<open>Specifications\<close>

text \<open>The catcher as \<open>__init__\<close> builds it, with its position and target inside the window.\<close>

definition paquet_ok :: "paquet \<Rightarrow> bool" where
  "paquet_ok p \<longleftrightarrow> paquet_width p = 80 \<and> paquet_height p = 100 \<and> paquet_speed p = 15 \<and>
     paquet_y p = 520 \<and> 40 \<le> paquet_x p \<and> paquet_x p \<le> 760 \<and>
     40 \<le> paquet_target_x p \<and> paquet_target_x p \<le> 760"

text \<open>
  What happens to one fry in a pass depends only on the fry and on the catcher,
  which the pass does not move: it is caught, missed (fell off the screen) or
  still falling. The bookkeeping of the pass is then a fold over these outcomes
  of a step on (score, lives, combo, max_combo) that stops at the first miss that
  leaves no life.
\<close>

datatype fry_outcome = Caught | Missed | Falling

definition classify :: "frites_game \<Rightarrow> frite \<Rightarrow> fry_outcome" where
  "classify g f = (let f' = frite_update f in
     if check_collision g f' then Caught else if is_off_screen f' then Missed else Falling)"

type_synonym tally = "int \<times> int \<times> int \<times> int"

fun tally_step :: "tally \<Rightarrow> fry_outcome \<Rightarrow> tally" where
  "tally_step (s, l, c, m) Caught = (s + (10 + c * 5), l, c + 1, max m (c + 1))"
| "tally_step (s, l, c, m) Missed = (s, l - 1, 0, m)"
| "tally_step t Falling = t"

fun tally_run :: "tally \<Rightarrow> fry_outcome list \<Rightarrow> tally \<times> bool" where
  "tally_run t [] = (t, False)"
| "tally_run t (oc # ocs) =
     (let t' = tally_step t oc in
      if oc = Missed \<and> fst (snd t') \<le> 0 then (t', True) else tally_run t' ocs)"

definition tally_of :: "frites_game \<Rightarrow> tally" where
  "tally_of g = (score g, lives g, combo g, max_combo g)"

text \<open>
  Bounds the fold keeps: the score and the best combo never decrease, the combo
  stays between 0 and the best combo, lives only go down, and the fold stops
  exactly when the last life is lost.
\<close>

definition tally_ok :: "tally \<Rightarrow> bool" where
  "tally_ok t \<longleftrightarrow> (case t of (s, l, c, m) \<Rightarrow> 0 \<le> s \<and> 0 \<le> c \<and> c \<le> m \<and> 1 \<le> l)"

text \<open>A fry as \<open>Frite.__init__\<close> builds it: size 8 by 40, speed \<open>3 + uniform(-1, 1)\<close>, rotation in -30..30.\<close>

definition frite_ok :: "frite \<Rightarrow> bool" where
  "frite_ok f \<longleftrightarrow> frite_width f = 8 \<and> frite_height f = 40 \<and>
     2 \<le> frite_speed f \<and> frite_speed f \<le> 4 \<and> -30 \<le> frite_rotation f \<and> frite_rotation f \<le> 30"

text \<open>
  The combo the fold ends with: 0 when it stopped on the last life; otherwise
  the catches since the last miss, on top of the initial combo when there was
  no miss at all.
\<close>

definition catches_since_miss :: "fry_outcome list \<Rightarrow> int" where
  "catches_since_miss ocs = int (length (filter (\<lambda>oc. oc = Caught) (takeWhile (\<lambda>oc. oc \<noteq> Missed) (rev ocs))))"

text \<open>
  \<open>frites_inv\<close>: the catcher is the one built in \<open>__init__\<close>, inside the
  window; score, combo and best combo are ordered; lives stay in 0..3 and the
  game is over exactly when none is left; every fry has the shape and the speed
  \<open>Frite.__init__\<close> gives it; and a game not started is the fresh game of
  \<open>__init__\<close> and \<open>restart_game\<close>. \<open>rate_ok\<close> bounds \<open>FRITE_SPAWN_RATE\<close>.
\<close>

definition frites_inv :: "frites_game \<Rightarrow> bool" where
  "frites_inv g \<longleftrightarrow> paquet_ok (paquet g) \<and> 0 \<le> score g \<and> 0 \<le> combo g \<and> combo g \<le> max_combo g \<and>
     0 \<le> lives g \<and> lives g \<le> 3 \<and> (game_over g \<longleftrightarrow> lives g = 0) \<and>
     (game_over g \<longrightarrow> game_started g) \<and> 0 \<le> frame_count g \<and> list_all frite_ok (frites g) \<and>
     (\<not> game_started g \<longrightarrow> frites g = [] \<and> score g = 0 \<and> lives g = 3 \<and> combo g = 0 \<and>
                          max_combo g = 0 \<and> frame_count g = 0)"

definition rate_ok :: "int \<Rightarrow> bool" where
  "rate_ok r \<longleftrightarrow> 20 \<le> r \<and> r \<le> 40 \<and> even r"

section \<open>The catcher\<close>

lemma update_paquet_target [simp]: "paquet_target_x (update_paquet p) = paquet_target_x p"
  by (simp add: update_paquet_def)

lemma update_paquet_fixed [simp]:
  "paquet_y (update_paquet p) = paquet_y p" "paquet_width (update_paquet p) = paquet_width p"
  "paquet_height (update_paquet p) = paquet_height p" "paquet_speed (update_paquet p) = paquet_speed p"
  by (simp_all add: update_paquet_def)

text \<open>One update moves the catcher towards its target and never past it.\<close>

lemma update_paquet_between:
  "0 \<le> paquet_speed p \<Longrightarrow> min (paquet_x p) (paquet_target_x p) \<le> paquet_x (update_paquet p) \<and>
   paquet_x (update_paquet p) \<le> max (paquet_x p) (paquet_target_x p)"
  by (simp add: update_paquet_def)

lemma update_paquet_dist:
  assumes "0 \<le> paquet_speed p"
  shows "\<bar>paquet_x (update_paquet p) - paquet_target_x p\<bar> =
    (if \<bar>paquet_x p - paquet_target_x p\<bar> > 2
     then max 0 (\<bar>paquet_x p - paquet_target_x p\<bar> - paquet_speed p)
     else \<bar>paquet_x p - paquet_target_x p\<bar>)"
  using assms by (auto simp: update_paquet_def)

lemma update_paquet_ok: "paquet_ok p \<Longrightarrow> paquet_ok (update_paquet p)"
  using update_paquet_between [of p] by (auto simp: paquet_ok_def)

lemma move_to_ok: "paquet_ok p \<Longrightarrow> paquet_ok (move_to p x)"
  by (auto simp: paquet_ok_def move_to_def WINDOW_WIDTH_frites_def)

lemma iterate_update_paquet_target [simp]:
  "paquet_target_x ((update_paquet ^^ n) p) = paquet_target_x p"
  "paquet_speed ((update_paquet ^^ n) p) = paquet_speed p"
  by (induction n) simp_all

lemma iterate_update_paquet_dist:
  assumes "0 \<le> paquet_speed p"
  shows "\<bar>paquet_x ((update_paquet ^^ n) p) - paquet_target_x p\<bar> \<le>
         max 2 (\<bar>paquet_x p - paquet_target_x p\<bar> - paquet_speed p * int n)"
proof (induction n)
  case 0
  then show ?case by simp
next
  case (Suc n)
  let ?q = "(update_paquet ^^ n) p"
  have "\<bar>paquet_x (update_paquet ?q) - paquet_target_x ?q\<bar> =
    (if \<bar>paquet_x ?q - paquet_target_x ?q\<bar> > 2
     then max 0 (\<bar>paquet_x ?q - paquet_target_x ?q\<bar> - paquet_speed ?q)
     else \<bar>paquet_x ?q - paquet_target_x ?q\<bar>)"
    using assms by (intro update_paquet_dist) simp
  with Suc.IH assms show ?case by (auto simp: algebra_simps max_def split: if_splits)
qed

section \<open>The per-fry loop against a reference fold\<close>

lemma check_collision_cong: "paquet g' = paquet g \<Longrightarrow> check_collision g' f = check_collision g f"
  unfolding check_collision_def by (simp only:)

lemma classify_cong:
  assumes "paquet g' = paquet g" shows "classify g' f = classify g f"
  using check_collision_cong [OF assms, of "frite_update f"] by (simp add: classify_def)

lemma classify_ext: "paquet g' = paquet g \<Longrightarrow> classify g' = classify g"
  by (rule ext) (rule classify_cong)

lemma frites_pass_Caught:
  "classify g f = Caught \<Longrightarrow> frites_pass g (f # fs) =
     (case frites_pass (g\<lparr>score := score g + (10 + combo g * 5), combo := combo g + 1,
                          max_combo := max (max_combo g) (combo g + 1)\<rparr>) fs of
        (g3, rest, stop) \<Rightarrow> (g3, (frite_update f, True) # rest, stop))"
  by (simp add: classify_def Let_def split: if_splits)

lemma frites_pass_Missed:
  "classify g f = Missed \<Longrightarrow> frites_pass g (f # fs) =
     (if lives g - 1 \<le> 0
      then (g\<lparr>lives := lives g - 1, combo := 0, game_over := True\<rparr>,
            (frite_update f, True) # map (\<lambda>f. (f, False)) fs, True)
      else (case frites_pass (g\<lparr>lives := lives g - 1, combo := 0\<rparr>) fs of
              (g3, rest, stop) \<Rightarrow> (g3, (frite_update f, True) # rest, stop)))"
  by (simp add: classify_def Let_def split: if_splits)

lemma frites_pass_Falling:
  "classify g f = Falling \<Longrightarrow> frites_pass g (f # fs) =
     (case frites_pass g fs of (g3, rest, stop) \<Rightarrow> (g3, (frite_update f, False) # rest, stop))"
  by (simp add: classify_def Let_def split: if_splits)

lemma frites_pass_cont:
  assumes "frites_pass g (f # fs) = (g', ps, stop)"
    and "frites_pass g (f # fs) = (case frites_pass g1 fs of (g3, rest, st) \<Rightarrow> (g3, (f', r) # rest, st))"
  obtains rest where "frites_pass g1 fs = (g', rest, stop)" "ps = (f', r) # rest"
  using assms by (auto split: prod.splits)

lemma frites_pass_frame:
  "frites_pass g fs = (g', ps, stop) \<Longrightarrow>
   paquet g' = paquet g \<and> frites g' = frites g \<and> frame_count g' = frame_count g \<and>
   game_started g' = game_started g \<and> is_fullscreen g' = is_fullscreen g"
  by (induction fs arbitrary: g g' ps stop) (auto simp: Let_def split: if_splits prod.splits)

lemma frites_pass_tally:
  assumes "frites_pass g fs = (g', ps, stop)"
  shows "(tally_of g', stop) = tally_run (tally_of g) (map (classify g) fs) \<and>
    game_over g' = (game_over g \<or> stop) \<and>
    (\<not> stop \<longrightarrow> map fst (filter (\<lambda>(f, removed). \<not> removed) ps) =
                  map frite_update (filter (\<lambda>f. classify g f = Falling) fs))"
  using assms
proof (induction fs arbitrary: g g' ps stop)
  case Nil
  then show ?case by simp
next
  case (Cons f fs)
  show ?case
  proof (cases "classify g f")
    case Caught
    let ?g2 = "g\<lparr>score := score g + (10 + combo g * 5), combo := combo g + 1,
                 max_combo := max (max_combo g) (combo g + 1)\<rparr>"
    obtain rest where r: "frites_pass ?g2 fs = (g', rest, stop)" "ps = (frite_update f, True) # rest"
      by (rule frites_pass_cont [OF Cons.prems frites_pass_Caught [OF Caught]])
    have "classify ?g2 = classify g" by (rule classify_ext) simp
    with r Cons.IH [OF r(1)] Caught show ?thesis by (simp add: tally_of_def)
  next
    case Missed
    let ?g1 = "g\<lparr>lives := lives g - 1, combo := 0\<rparr>"
    show ?thesis
    proof (cases "lives g - 1 \<le> 0")
      case True
      with Cons.prems have "g' = ?g1\<lparr>game_over := True\<rparr> \<and> stop"
        unfolding frites_pass_Missed [OF Missed] by simp
      with True Missed show ?thesis by (simp add: tally_of_def)
    next
      case False
      from Cons.prems have p: "frites_pass g (f # fs) = (case frites_pass ?g1 fs of (g3, rest, st) \<Rightarrow>
          (g3, (frite_update f, True) # rest, st))"
        unfolding frites_pass_Missed [OF Missed] using False by simp
      obtain rest where r: "frites_pass ?g1 fs = (g', rest, stop)" "ps = (frite_update f, True) # rest"
        by (rule frites_pass_cont [OF Cons.prems p])
      have "classify ?g1 = classify g" by (rule classify_ext) simp
      with r Cons.IH [OF r(1)] Missed False show ?thesis by (simp add: tally_of_def)
    qed
  next
    case Falling
    obtain rest where r: "frites_pass g fs = (g', rest, stop)" "ps = (frite_update f, False) # rest"
      by (rule frites_pass_cont [OF Cons.prems frites_pass_Falling [OF Falling]])
    with Cons.IH [OF r(1)] Falling show ?thesis by simp
  qed
qed

lemma frites_pass_spec:
  assumes "frites_pass g fs = (g', ps, stop)"
  shows "(tally_of g', stop) = tally_run (tally_of g) (map (classify g) fs) \<and>
    paquet g' = paquet g \<and> frites g' = frites g \<and> frame_count g' = frame_count g \<and>
    game_started g' = game_started g \<and> is_fullscreen g' = is_fullscreen g \<and>
    game_over g' = (game_over g \<or> stop) \<and>
    (\<not> stop \<longrightarrow> map fst (filter (\<lambda>(f, removed). \<not> removed) ps) =
                  map frite_update (filter (\<lambda>f. classify g f = Falling) fs))"
  using frites_pass_frame [OF assms] frites_pass_tally [OF assms] by blast

lemma frites_pass_fries:
  "frites_pass g fs = (g', ps, stop) \<Longrightarrow> set (map fst ps) \<subseteq> set fs \<union> frite_update ` set fs"
proof (induction fs arbitrary: g g' ps stop)
  case Nil
  then show ?case by simp
next
  case (Cons f fs)
  have sub: "set (map fst rest) \<subseteq> set (f # fs) \<union> frite_update ` set (f # fs)"
    if "frites_pass g1 fs = (g3, rest, st)" for g1 g3 rest st
    using Cons.IH [OF that] by auto
  show ?case
  proof (cases "classify g f")
    case Caught
    let ?g2 = "g\<lparr>score := score g + (10 + combo g * 5), combo := combo g + 1,
                 max_combo := max (max_combo g) (combo g + 1)\<rparr>"
    obtain g3 rest st where r: "frites_pass ?g2 fs = (g3, rest, st)" by (cases "frites_pass ?g2 fs")
    from Cons.prems have "ps = (frite_update f, True) # rest"
      unfolding frites_pass_Caught [OF Caught] r by simp
    with sub [OF r] show ?thesis by simp
  next
    case Missed
    let ?g1 = "g\<lparr>lives := lives g - 1, combo := 0\<rparr>"
    obtain g3 rest st where r: "frites_pass ?g1 fs = (g3, rest, st)" by (cases "frites_pass ?g1 fs")
    from Cons.prems have "ps = (frite_update f, True) # map (\<lambda>f. (f, False)) fs \<or>
                          ps = (frite_update f, True) # rest"
      unfolding frites_pass_Missed [OF Missed] r by (simp split: if_splits)
    with sub [OF r] show ?thesis by (elim disjE) (auto simp: o_def)
  next
    case Falling
    obtain g3 rest st where r: "frites_pass g fs = (g3, rest, st)" by (cases "frites_pass g fs")
    from Cons.prems have "ps = (frite_update f, False) # rest"
      unfolding frites_pass_Falling [OF Falling] r by simp
    with sub [OF r] show ?thesis by simp
  qed
qed

section \<open>Bounds the fold keeps\<close>

lemma tally_step_ok:
  "tally_ok (s, l, c, m) \<Longrightarrow> tally_step (s, l, c, m) oc = (s', l', c', m') \<Longrightarrow>
   s \<le> s' \<and> 0 \<le> c' \<and> c' \<le> m' \<and> m \<le> m' \<and> l' \<le> l \<and> l - 1 \<le> l'"
  by (cases oc) (auto simp: tally_ok_def)

lemma tally_run_ok:
  assumes "tally_ok (s, l, c, m)" "tally_run (s, l, c, m) ocs = ((s', l', c', m'), stop)"
  shows "s \<le> s' \<and> 0 \<le> c' \<and> c' \<le> m' \<and> m \<le> m' \<and> l' \<le> l \<and> l - int (length ocs) \<le> l' \<and>
         (stop \<longrightarrow> l' = 0) \<and> (\<not> stop \<longrightarrow> 1 \<le> l')"
  using assms
proof (induction ocs arbitrary: s l c m)
  case Nil
  then show ?case by (simp add: tally_ok_def)
next
  case (Cons oc ocs)
  obtain s1 l1 c1 m1 where st: "tally_step (s, l, c, m) oc = (s1, l1, c1, m1)"
    by (cases "tally_step (s, l, c, m) oc")
  have b: "s \<le> s1 \<and> 0 \<le> c1 \<and> c1 \<le> m1 \<and> m \<le> m1 \<and> l1 \<le> l \<and> l - 1 \<le> l1"
    using tally_step_ok [OF Cons.prems(1) st] .
  show ?case
  proof (cases "oc = Missed \<and> l1 \<le> 0")
    case True
    with Cons.prems st b show ?thesis by (auto simp: tally_ok_def)
  next
    case False
    then have "l1 \<ge> 1"
      using Cons.prems(1) st by (cases oc) (auto simp: tally_ok_def)
    with b Cons.prems(1) have ok: "tally_ok (s1, l1, c1, m1)" by (simp add: tally_ok_def)
    from Cons.prems(2) st False have "tally_run (s1, l1, c1, m1) ocs = ((s', l', c', m'), stop)"
      by simp
    from Cons.IH [OF ok this] b show ?thesis by auto
  qed
qed

section \<open>Fries\<close>

lemma new_frite_ok: "new_frite rs k x y = (f, k') \<Longrightarrow> frite_ok f \<and> frite_x f = x \<and> frite_y f = y \<and> k' = k + 3"
  using uniform_bounds [of "-1" 1 "rs k"] randint_bounds [of "-30" 30 "rs (Suc k)"]
  by (auto simp: new_frite_def frite_ok_def FRITE_SPEED_def)

lemma frite_update_ok [simp]: "frite_ok (frite_update f) = frite_ok f"
  by (simp add: frite_ok_def frite_update_def Let_def)

lemma spawn_frite_ok:
  assumes "spawn_frite rs g k = (g', k')"
  shows "\<exists>f. frite_ok f \<and> g' = g\<lparr>frites := frites g @ [f]\<rparr> \<and> k' = k + 4"
proof -
  obtain f k1 where nf: "new_frite rs (Suc k) (of_int (randint 50 (WINDOW_WIDTH_frites - 50) (rs k))) (-50) = (f, k1)"
    by (cases "new_frite rs (Suc k) (of_int (randint 50 (WINDOW_WIDTH_frites - 50) (rs k))) (-50)")
  with assms have "g' = g\<lparr>frites := frites g @ [f]\<rparr>" "k' = k1"
    by (simp_all add: spawn_frite_def Let_def)
  with new_frite_ok [OF nf] show ?thesis by auto
qed

section \<open>The combo\<close>

lemma catches_since_miss_Nil [simp]: "catches_since_miss [] = 0"
  by (simp add: catches_since_miss_def)

lemma catches_since_miss_Cons:
  "catches_since_miss (oc # ocs) =
     catches_since_miss ocs + (if oc = Caught \<and> Missed \<notin> set ocs then 1 else 0)"
proof (cases "Missed \<in> set ocs")
  case True
  then have "takeWhile (\<lambda>oc. oc \<noteq> Missed) (rev (oc # ocs)) = takeWhile (\<lambda>oc. oc \<noteq> Missed) (rev ocs)"
    by (simp add: takeWhile_append1 [of Missed])
  with True show ?thesis by (simp only: catches_since_miss_def) simp
next
  case False
  then have "takeWhile (\<lambda>oc. oc \<noteq> Missed) (rev ocs) = rev ocs"
    by (auto simp: takeWhile_eq_all_conv)
  moreover from False have "takeWhile (\<lambda>oc. oc \<noteq> Missed) (rev (oc # ocs)) = rev ocs @ takeWhile (\<lambda>oc. oc \<noteq> Missed) [oc]"
    by (simp only: rev.simps) (rule takeWhile_append2, auto)
  ultimately show ?thesis using False by (simp only: catches_since_miss_def) (cases oc, simp_all)
qed

lemma tally_run_combo:
  "tally_run (s, l, c, m) ocs = ((s', l', c', m'), stop) \<Longrightarrow>
   c' = (if stop then 0 else (if Missed \<in> set ocs then 0 else c) + catches_since_miss ocs)"
proof (induction ocs arbitrary: s l c m)
  case Nil
  then show ?case by simp
next
  case (Cons oc ocs)
  obtain s1 l1 c1 m1 where st: "tally_step (s, l, c, m) oc = (s1, l1, c1, m1)"
    by (cases "tally_step (s, l, c, m) oc")
  show ?case
  proof (cases "oc = Missed \<and> l1 \<le> 0")
    case True
    with Cons.prems st show ?thesis by simp
  next
    case False
    with Cons.prems st have r: "tally_run (s1, l1, c1, m1) ocs = ((s', l', c', m'), stop)" by simp
    have "c1 = (if oc = Caught then c + 1 else if oc = Missed then 0 else c)"
      using st by (cases oc) auto
    with Cons.IH [OF r] show ?thesis by (cases oc) (simp_all add: catches_since_miss_Cons)
  qed
qed

section \<open>One tick of the game loop\<close>

lemma game_loop_frites_idle:
  "\<not> game_started g \<or> game_over g \<Longrightarrow> game_loop_frites rs rate g k = ret (g, rate, k, False)"
  by (simp add: game_loop_frites_def)

lemma game_loop_frites_rate0:
  "game_started g \<Longrightarrow> \<not> game_over g \<Longrightarrow> game_loop_frites rs 0 g k = raise ZeroDivisionError"
  by (simp add: game_loop_frites_def py_mod_def)

text \<open>
  A tick of a running game: the frame counter goes up, at most one fresh fry is
  appended, the catcher moves, the per-fry pass runs over all fries, and the
  game keeps the fries the pass did not remove, or all of them after the
  early return.
\<close>

lemma spawn_frite_eq:
  "spawn_frite rs g k =
     (g\<lparr>frites := frites g @ [fst (new_frite rs (Suc k) (of_int (randint 50 (WINDOW_WIDTH_frites - 50) (rs k))) (-50))]\<rparr>,
      k + 4)"
  by (simp add: spawn_frite_def new_frite_def Let_def)

lemma game_loop_frites_tick:
  assumes "game_loop_frites rs rate g k = ret (g', rate', k', b)" "game_started g" "\<not> game_over g"
  obtains new g4 passed stop where
    "rate \<noteq> 0" "list_all frite_ok new" "length new \<le> 1"
    "new = (if (frame_count g + 1) mod rate = 0
            then [fst (new_frite rs (Suc k) (of_int (randint 50 (WINDOW_WIDTH_frites - 50) (rs k))) (-50))] else [])"
    "k' = (if (frame_count g + 1) mod rate = 0 then k + 4 else k)"
    "frites_pass (g\<lparr>frame_count := frame_count g + 1, frites := frites g @ new,
                    paquet := update_paquet (paquet g)\<rparr>) (frites g @ new) = (g4, passed, stop)"
    "rate' = (if (frame_count g + 1) mod 500 = 0 \<and> rate > 20 then rate - 2 else rate)"
    "g' = g4\<lparr>frites := (if stop then map fst passed else map fst (filter (\<lambda>(f, removed). \<not> removed) passed))\<rparr>"
    "b = (\<not> stop)"
proof -
  let ?g1 = "g\<lparr>frame_count := frame_count g + 1\<rparr>"
  let ?f = "fst (new_frite rs (Suc k) (of_int (randint 50 (WINDOW_WIDTH_frites - 50) (rs k))) (-50))"
  have r0: "rate \<noteq> 0"
  proof
    assume "rate = 0"
    with assms game_loop_frites_rate0 [OF assms(2,3)] show False by simp
  qed
  define new where "new = (if (frame_count g + 1) mod rate = 0 then [?f] else [])"
  define k2 where "k2 = (if (frame_count g + 1) mod rate = 0 then k + 4 else k)"
  have sp: "(if (frame_count g + 1) mod rate = 0 then spawn_frite rs ?g1 k else (?g1, k)) =
            (?g1\<lparr>frites := frites g @ new\<rparr>, k2)"
    by (simp add: spawn_frite_eq new_def k2_def)
  have fok: "frite_ok ?f" using new_frite_ok [of rs "Suc k" _ "-50" ?f] by (metis prod.collapse)
  have new_ok: "list_all frite_ok new" "length new \<le> 1" by (simp_all add: new_def fok)
  let ?g3 = "g\<lparr>frame_count := frame_count g + 1, frites := frites g @ new, paquet := update_paquet (paquet g)\<rparr>"
  obtain g4 passed stop where ps: "frites_pass ?g3 (frites g @ new) = (g4, passed, stop)"
    by (cases "frites_pass ?g3 (frites g @ new)")
  from assms(1) assms(2,3) r0 sp ps have out:
    "rate' = (if (frame_count g + 1) mod 500 = 0 \<and> rate > 20 then rate - 2 else rate)"
    "g' = g4\<lparr>frites := (if stop then map fst passed else map fst (filter (\<lambda>(f, removed). \<not> removed) passed))\<rparr>"
    "b = (\<not> stop)" "k' = k2"
    by (auto simp: game_loop_frites_def Let_def split: if_splits)
  show ?thesis
    using that [OF r0 new_ok new_def [unfolded] out(4) [unfolded k2_def] ps out(1-3)] .
qed

section \<open>The invariant of the game object\<close>

lemma rate_ok_step:
  "rate_ok r \<Longrightarrow> rate_ok (if c \<and> r > 20 then r - 2 else r)"
  by (auto simp: rate_ok_def)

lemma rate_ok_nonzero: "rate_ok r \<Longrightarrow> r \<noteq> 0"
  by (simp add: rate_ok_def)

lemma frites_pass_fries_ok:
  assumes "list_all frite_ok fs" "frites_pass g fs = (g', ps, stop)"
  shows "list_all frite_ok (map fst ps)" "list_all frite_ok (map fst (filter P ps))"
proof -
  have "\<forall>f\<in>set (map fst ps). frite_ok f"
    using frites_pass_fries [OF assms(2)] assms(1) by (fastforce simp: list_all_iff)
  then show "list_all frite_ok (map fst ps)" "list_all frite_ok (map fst (filter P ps))"
    by (auto simp: list_all_iff)
qed

lemma tally_ok_running:
  "frites_inv g \<Longrightarrow> \<not> game_over g \<Longrightarrow> tally_ok (tally_of g)"
  by (simp add: frites_inv_def tally_ok_def tally_of_def)

text \<open>A tick keeps the invariant, never lowers the score or the best combo, and re-registers exactly when the game still runs.\<close>

lemma frites_pass_bounds:
  assumes tok: "tally_ok (tally_of g)" and p: "frites_pass g fs = (g4, passed, stop)"
  shows "score g \<le> score g4 \<and> 0 \<le> combo g4 \<and> combo g4 \<le> max_combo g4 \<and>
         max_combo g \<le> max_combo g4 \<and> lives g4 \<le> lives g \<and> lives g - int (length fs) \<le> lives g4 \<and>
         (stop \<longrightarrow> lives g4 = 0) \<and> (\<not> stop \<longrightarrow> 1 \<le> lives g4)"
proof -
  have "tally_run (score g, lives g, combo g, max_combo g) (map (classify g) fs) =
          ((score g4, lives g4, combo g4, max_combo g4), stop)"
    using frites_pass_spec [OF p] by (simp add: tally_of_def)
  from tally_run_ok [OF _ this] tok show ?thesis by (simp add: tally_of_def)
qed

text \<open>The per-fry loop of a running tick, on the game with the frame counted, the new fry appended and the catcher moved.\<close>

lemma frites_pass_tick:
  assumes inv: "frites_inv g" "game_started g" "\<not> game_over g" and new: "list_all frite_ok new"
    and p: "frites_pass (g\<lparr>frame_count := frame_count g + 1, frites := frites g @ new,
                           paquet := update_paquet (paquet g)\<rparr>) (frites g @ new) = (g4, passed, stop)"
  shows "(list_all frite_ok fs \<longrightarrow> frites_inv (g4\<lparr>frites := fs\<rparr>)) \<and> list_all frite_ok (map fst passed) \<and>
         game_started g4 \<and> is_fullscreen g4 = is_fullscreen g \<and> (game_over g4 \<longleftrightarrow> stop) \<and>
         score g \<le> score g4 \<and> max_combo g \<le> max_combo g4 \<and> lives g - int (length (frites g @ new)) \<le> lives g4"
proof -
  let ?g3 = "g\<lparr>frame_count := frame_count g + 1, frites := frites g @ new, paquet := update_paquet (paquet g)\<rparr>"
  have sp: "paquet g4 = paquet ?g3 \<and> frame_count g4 = frame_count ?g3 \<and>
    game_started g4 = game_started ?g3 \<and> is_fullscreen g4 = is_fullscreen ?g3 \<and>
    game_over g4 = (game_over ?g3 \<or> stop)"
    using frites_pass_spec [OF p] by blast
  have tok: "tally_ok (tally_of ?g3)"
    using tally_ok_running [OF inv(1,3)] by (simp add: tally_of_def tally_ok_def)
  note tb = frites_pass_bounds [OF tok p]
  have "list_all frite_ok (frites g @ new)" using inv(1) new by (simp add: frites_inv_def)
  note fr = frites_pass_fries_ok [OF this p]
  have "paquet_ok (paquet g4)" using inv(1) sp update_paquet_ok by (simp add: frites_inv_def)
  with inv sp tb fr show ?thesis unfolding frites_inv_def by auto
qed

lemma game_loop_frites_inv:
  assumes "frites_inv g" "rate_ok rate" "game_loop_frites rs rate g k = ret (g', rate', k', b)"
  shows "frites_inv g' \<and> rate_ok rate' \<and> game_started g' = game_started g \<and>
         is_fullscreen g' = is_fullscreen g \<and> score g \<le> score g' \<and> max_combo g \<le> max_combo g' \<and>
         lives g - int (length (frites g)) - 1 \<le> lives g' \<and>
         (b \<longleftrightarrow> game_started g' \<and> \<not> game_over g')"
proof (cases "game_started g \<and> \<not> game_over g")
  case False
  with assms(3) have "g' = g" "rate' = rate" "\<not> b"
    using game_loop_frites_idle [of g rs rate k] by auto
  with assms(1,2) False show ?thesis by simp
next
  case True
  then have run: "game_started g" "\<not> game_over g" by simp_all
  obtain new g4 passed stop where t:
    "list_all frite_ok new" "length new \<le> 1"
    "frites_pass (g\<lparr>frame_count := frame_count g + 1, frites := frites g @ new,
                    paquet := update_paquet (paquet g)\<rparr>) (frites g @ new) = (g4, passed, stop)"
    "rate' = (if (frame_count g + 1) mod 500 = 0 \<and> rate > 20 then rate - 2 else rate)"
    "g' = g4\<lparr>frites := (if stop then map fst passed else map fst (filter (\<lambda>(f, removed). \<not> removed) passed))\<rparr>"
    "b = (\<not> stop)"
    by (rule game_loop_frites_tick [OF assms(3) run]) blast
  note pt = frites_pass_tick [OF assms(1) run t(1,3)]
  have "list_all frite_ok (frites g')" using pt t(5) by (auto simp: list_all_iff)
  with pt t(5) have "frites_inv g'" by simp
  moreover have "rate_ok rate'" using rate_ok_step [OF assms(2)] t(4) by simp
  moreover have "lives g - int (length (frites g)) - 1 \<le> lives g'" using pt [of "[]"] t(2,5) by simp
  ultimately show ?thesis using pt [of "[]"] run t(5,6) by auto
qed


lemma game_loop_frites_ret: "rate \<noteq> 0 \<Longrightarrow> \<exists>r. game_loop_frites rs rate g k = ret r"
  by (auto simp: game_loop_frites_def Let_def split: prod.splits)

text \<open>A fry just spawned at \<open>y = -50\<close> is still falling after its first move.\<close>

lemma fresh_frite_falls:
  assumes "paquet_ok (paquet g)" "frite_ok f" "frite_y f = -50"
  shows "classify g f = Falling"
proof -
  have y: "frite_y (frite_update f) \<le> -46" "-48 \<le> frite_y (frite_update f)"
    using assms(2,3) by (simp_all add: frite_update_def frite_ok_def Let_def)
  have "\<not> check_collision g (frite_update f)"
    using assms(1) y by (auto simp: check_collision_def get_catch_rect_def paquet_ok_def)
  moreover have "\<not> is_off_screen (frite_update f)"
    using y by (simp add: is_off_screen_def WINDOW_HEIGHT_frites_def)
  ultimately show ?thesis by (simp add: classify_def)
qed

end
