(* ===== verification/Frites_Events.thy ===== *)
theory Frites_Events
  imports Frites_Props
begin

text \<open>
  \<open>src/frites_game.py\<close> as Tk runs it: the bindings of \<open>FritesGame.__init__\<close>
  (lines 79--80 and 140--143) dispatch pointer, click and key events to the
  handlers, and \<open>root.after(GAME_SPEED, self.game_loop)\<close> (line 460) registers
  one callback that fires later. The system state \<open>frites_sys\<close> is the game
  object, the module global \<open>FRITE_SPAWN_RATE\<close>, the cursor of the random
  stream and the number of registered \<open>game_loop\<close> callbacks not yet fired.
  The keys \<open>r\<close> and \<open>R\<close> are bound to the same handler and are one event.
\<close>

section \<open>Events and steps\<close>

datatype frites_event = Motion int | Button1 | Key_r | Key_F11 | Key_Escape | Tick

record frites_sys =
  fgame :: frites_game
  spawn_rate :: int
  draws :: nat
  callbacks :: nat

definition frites_sys_init :: frites_sys where
  "frites_sys_init = \<lparr>fgame = frites_init, spawn_rate = FRITE_SPAWN_RATE_init, draws = 0, callbacks = 0\<rparr>"

text \<open>The result of a handler that may run \<open>game_loop\<close>, installed in the system.\<close>

definition run_loop :: "frites_sys \<Rightarrow> (frites_game \<times> int \<times> nat \<times> bool) outcome \<Rightarrow> frites_sys outcome" where
  "run_loop s r =
     bind_out r (\<lambda>(g, rate, k, b).
       ret (s\<lparr>fgame := g, spawn_rate := rate, draws := k, callbacks := after_count (callbacks s) b\<rparr>))"

fun frites_step :: "rng \<Rightarrow> frites_sys \<Rightarrow> frites_event \<Rightarrow> frites_sys outcome" where
  "frites_step rs s (Motion x) = ret (s\<lparr>fgame := on_mouse_move (fgame s) x\<rparr>)"
| "frites_step rs s Button1 = run_loop s (on_click rs (spawn_rate s) (fgame s) (draws s))"
| "frites_step rs s Key_r = ret (s\<lparr>fgame := restart_game_frites (fgame s)\<rparr>)"
| "frites_step rs s Key_F11 = ret (s\<lparr>fgame := toggle_fullscreen_frites (fgame s)\<rparr>)"
| "frites_step rs s Key_Escape = ret (s\<lparr>fgame := exit_fullscreen_frites (fgame s)\<rparr>)"
| "frites_step rs s Tick =
     (if callbacks s = 0 then ret s
      else run_loop (s\<lparr>callbacks := callbacks s - 1\<rparr>) (game_loop_frites rs (spawn_rate s) (fgame s) (draws s)))"

fun frites_run :: "rng \<Rightarrow> frites_sys \<Rightarrow> frites_event list \<Rightarrow> frites_sys outcome" where
  "frites_run rs s [] = ret s"
| "frites_run rs s (e # es) = bind_out (frites_step rs s e) (\<lambda>s'. frites_run rs s' es)"

inductive frites_reach :: "rng \<Rightarrow> frites_sys \<Rightarrow> bool" for rs where
  start: "frites_reach rs frites_sys_init"
| step: "frites_reach rs s \<Longrightarrow> frites_step rs s e = ret s' \<Longrightarrow> frites_reach rs s'"

definition frites_running :: "frites_game \<Rightarrow> bool" where
  "frites_running g \<longleftrightarrow> game_started g \<and> \<not> game_over g"

definition frites_sys_inv :: "frites_sys \<Rightarrow> bool" where
  "frites_sys_inv s \<longleftrightarrow> frites_inv (fgame s) \<and> rate_ok (spawn_rate s) \<and>
     (frites_running (fgame s) \<longrightarrow> 0 < callbacks s)"

text \<open>
  The status of the catcher game read off its two flags, and the transitions
  the spec allows for each event: a click starts a game that was not started, a
  tick of a running game keeps it running or ends it (lives reaching zero), a
  restart always returns to the start screen, and nothing else changes the
  status. There is no pause in this game.
\<close>

datatype frites_status = FNotStarted | FRunning | FOver

definition frites_status_of :: "frites_game \<Rightarrow> frites_status" where
  "frites_status_of g = (if \<not> game_started g then FNotStarted else if game_over g then FOver else FRunning)"

fun frites_status_next :: "frites_status \<Rightarrow> frites_event \<Rightarrow> frites_status list" where
  "frites_status_next st Key_r = [FNotStarted]"
| "frites_status_next FNotStarted e = (if e = Button1 then [FRunning] else [FNotStarted])"
| "frites_status_next FRunning e = (if e = Tick then [FRunning, FOver] else [FRunning])"
| "frites_status_next FOver e = [FOver]"

section \<open>The handlers keep the invariant\<close>

lemma run_loop_ret:
  "run_loop s r = ret s' \<longleftrightarrow>
   (\<exists>g rate k b. r = ret (g, rate, k, b) \<and>
      s' = s\<lparr>fgame := g, spawn_rate := rate, draws := k, callbacks := after_count (callbacks s) b\<rparr>)"
  by (auto simp: run_loop_def bind_out_eq_ret)

lemma frites_run_reach:
  "frites_reach rs s \<Longrightarrow> frites_run rs s es = ret s' \<Longrightarrow> frites_reach rs s'"
proof (induction es arbitrary: s)
  case Nil
  then show ?case by simp
next
  case (Cons e es)
  from Cons.prems(2) obtain s1 where st: "frites_step rs s e = ret s1" and rn: "frites_run rs s1 es = ret s'"
    by (auto simp: bind_out_eq_ret)
  from frites_reach.step [OF Cons.prems(1) st] rn show ?case by (rule Cons.IH)
qed

lemma on_click_cases:
  assumes "on_click rs rate g k = ret (g', rate', k', b)"
  obtains (idle) "game_started g" "g' = g" "rate' = rate" "k' = k" "\<not> b"
    | (start) "\<not> game_started g" "game_loop_frites rs rate (g\<lparr>game_started := True\<rparr>) k = ret (g', rate', k', b)"
  using assms by (cases "game_started g") (auto simp: on_click_def start_game_def)

lemma frites_inv_start:
  "frites_inv g \<Longrightarrow> \<not> game_started g \<Longrightarrow> frites_inv (g\<lparr>game_started := True\<rparr>)"
  by (simp add: frites_inv_def)

text \<open>The first tick of a game started by a click cannot end it: it re-registers.\<close>

lemma start_reschedules:
  assumes "frites_inv g" "\<not> game_started g" "rate_ok rate"
    "game_loop_frites rs rate (g\<lparr>game_started := True\<rparr>) k = ret (g', rate', k', b)"
  shows "b \<and> frites_inv g' \<and> rate_ok rate'"
proof -
  have i: "frites_inv g'" "rate_ok rate'" "game_started g'"
    "lives g - int (length (frites g)) - 1 \<le> lives g'" "b \<longleftrightarrow> game_started g' \<and> \<not> game_over g'"
    using game_loop_frites_inv [OF frites_inv_start [OF assms(1,2)] assms(3,4)] by simp_all
  have "lives g = 3" "frites g = []" using assms(1,2) by (simp_all add: frites_inv_def)
  moreover have "game_over g' \<longleftrightarrow> lives g' = 0" using i(1) by (simp add: frites_inv_def)
  ultimately have "\<not> game_over g'" using i(4) by simp
  with i show ?thesis by simp
qed

lemma on_mouse_move_inv:
  assumes "frites_inv g"
  shows "frites_inv (on_mouse_move g x) \<and> frites_running (on_mouse_move g x) = frites_running g"
proof (cases "game_started g \<and> \<not> game_over g")
  case True
  then have "on_mouse_move g x = g\<lparr>paquet := move_to (paquet g) x\<rparr>" by (simp add: on_mouse_move_def)
  moreover have "paquet_ok (move_to (paquet g) x)" using assms move_to_ok by (simp add: frites_inv_def)
  ultimately show ?thesis using assms unfolding frites_inv_def frites_running_def by simp
next
  case False
  then have "on_mouse_move g x = g" by (auto simp: on_mouse_move_def)
  with assms show ?thesis by simp
qed

lemma restart_game_frites_init:
  assumes "frites_inv g"
  shows "restart_game_frites g = frites_init\<lparr>is_fullscreen := is_fullscreen g\<rparr>"
proof -
  have p: "paquet_ok (paquet g)" using assms by (simp add: frites_inv_def)
  have "(paquet g)\<lparr>paquet_x := 400, paquet_target_x := 400\<rparr> = new_paquet 400 520"
    using p unfolding paquet_ok_def new_paquet_def by (cases "paquet g") simp
  then show ?thesis
    unfolding restart_game_frites_def frites_init_def WINDOW_WIDTH_frites_def WINDOW_HEIGHT_frites_def
    by (cases g) simp
qed

lemma fullscreen_frites_inv:
  "frites_inv g \<Longrightarrow> frites_inv (toggle_fullscreen_frites g) \<and> frites_running (toggle_fullscreen_frites g) = frites_running g"
  "frites_inv g \<Longrightarrow> frites_inv (exit_fullscreen_frites g) \<and> frites_running (exit_fullscreen_frites g) = frites_running g"
  unfolding toggle_fullscreen_frites_def exit_fullscreen_frites_def frites_inv_def frites_running_def
  by simp_all
lemma frites_inv_init [simp]: "frites_inv (frites_init\<lparr>is_fullscreen := b\<rparr>)"
  unfolding frites_inv_def frites_init_def new_paquet_def paquet_ok_def
            WINDOW_WIDTH_frites_def WINDOW_HEIGHT_frites_def
  by simp

lemma frites_sys_inv_init: "frites_sys_inv frites_sys_init"
  unfolding frites_sys_inv_def frites_sys_init_def frites_inv_def frites_init_def new_paquet_def
            paquet_ok_def rate_ok_def frites_running_def FRITE_SPAWN_RATE_init_def
            WINDOW_WIDTH_frites_def WINDOW_HEIGHT_frites_def
  by simp


lemma on_click_sys_inv:
  assumes inv: "frites_sys_inv s" and r: "on_click rs (spawn_rate s) (fgame s) (draws s) = ret (g', rate', k', b)"
  shows "frites_sys_inv (s\<lparr>fgame := g', spawn_rate := rate', draws := k', callbacks := after_count (callbacks s) b\<rparr>)"
  using r
proof (cases rule: on_click_cases)
  case idle
  with inv show ?thesis by (simp add: frites_sys_inv_def)
next
  case start
  have "frites_inv (fgame s)" "rate_ok (spawn_rate s)" using inv by (simp_all add: frites_sys_inv_def)
  from start_reschedules [OF this(1) start(1) this(2) start(2)] show ?thesis
    by (simp add: frites_sys_inv_def)
qed

lemma tick_sys_inv:
  assumes inv: "frites_sys_inv s"
    and r: "game_loop_frites rs (spawn_rate s) (fgame s) (draws s) = ret (g', rate', k', b)"
  shows "frites_sys_inv (s\<lparr>fgame := g', spawn_rate := rate', draws := k', callbacks := after_count n b\<rparr>)"
proof -
  have "frites_inv (fgame s)" "rate_ok (spawn_rate s)" using inv by (simp_all add: frites_sys_inv_def)
  from game_loop_frites_inv [OF this r] show ?thesis by (auto simp: frites_sys_inv_def frites_running_def)
qed

text \<open>Every event keeps the invariant of the system.\<close>

lemma frites_step_inv:
  assumes inv: "frites_sys_inv s" and st: "frites_step rs s e = ret s'"
  shows "frites_sys_inv s'"
proof (cases e)
  case (Motion x)
  with st have "s' = s\<lparr>fgame := on_mouse_move (fgame s) x\<rparr>" by simp
  with inv on_mouse_move_inv [of "fgame s" x] show ?thesis by (simp add: frites_sys_inv_def)
next
  case Button1
  with st inv show ?thesis by (auto simp: run_loop_ret intro: on_click_sys_inv)
next
  case Key_r
  have "frites_inv (fgame s)" using inv by (simp add: frites_sys_inv_def)
  with st Key_r have "s' = s\<lparr>fgame := frites_init\<lparr>is_fullscreen := is_fullscreen (fgame s)\<rparr>\<rparr>"
    by (simp add: restart_game_frites_init)
  moreover have "\<not> game_started frites_init" by (simp add: frites_init_def)
  ultimately show ?thesis using inv by (simp add: frites_sys_inv_def frites_running_def)
next
  case Key_F11
  with st inv fullscreen_frites_inv(1) [of "fgame s"] show ?thesis by (auto simp: frites_sys_inv_def)
next
  case Key_Escape
  with st inv fullscreen_frites_inv(2) [of "fgame s"] show ?thesis by (auto simp: frites_sys_inv_def)
next
  case Tick
  with st inv show ?thesis by (auto simp: run_loop_ret intro: tick_sys_inv split: if_splits)
qed

lemma frites_reach_sys_inv: "frites_reach rs s \<Longrightarrow> frites_sys_inv s"
  by (induction rule: frites_reach.induct) (auto intro: frites_sys_inv_init frites_step_inv)

lemma frites_step_ret:
  assumes "frites_sys_inv s"
  shows "\<exists>s'. frites_step rs s e = ret s'"
proof -
  have r: "spawn_rate s \<noteq> 0" using assms by (simp add: frites_sys_inv_def rate_ok_nonzero)
  have "\<exists>v. game_loop_frites rs (spawn_rate s) g k = ret v" for g k
    using game_loop_frites_ret [OF r] .
  then have "\<exists>v. on_click rs (spawn_rate s) (fgame s) (draws s) = ret v"
    by (auto simp: on_click_def start_game_def)
  then show ?thesis
    using game_loop_frites_ret [OF r, of rs "fgame s" "draws s"]
    by (cases e) (auto simp: run_loop_def)
qed

text \<open>Only the fullscreen handlers change the fullscreen flag.\<close>

lemma frites_step_fullscreen:
  assumes inv: "frites_sys_inv s" and st: "frites_step rs s e = ret s'" and ne: "e \<noteq> Key_F11" "e \<noteq> Key_Escape"
  shows "is_fullscreen (fgame s') = is_fullscreen (fgame s)"
proof -
  have i: "frites_inv (fgame s)" "rate_ok (spawn_rate s)" using inv by (simp_all add: frites_sys_inv_def)
  have gl: "is_fullscreen g' = is_fullscreen g"
    if "game_loop_frites rs rate g k = ret (g', rate', k', b)" "frites_inv g" "rate_ok rate" for rate g k g' rate' k' b
    using game_loop_frites_inv [OF that(2,3,1)] by simp
  show ?thesis
  proof (cases e)
    case Button1
    with st obtain g' rate' k' b where oc: "on_click rs (spawn_rate s) (fgame s) (draws s) = ret (g', rate', k', b)"
      and s': "fgame s' = g'" by (auto simp: run_loop_ret)
    from oc show ?thesis
    proof (cases rule: on_click_cases)
      case idle
      with s' show ?thesis by simp
    next
      case start
      from gl [OF start(2) frites_inv_start [OF i(1) start(1)] i(2)] s' show ?thesis by simp
    qed
  next
    case Tick
    with st i show ?thesis by (auto simp: run_loop_ret split: if_splits dest: gl)
  next
    case (Motion x)
    with st show ?thesis by (auto simp: on_mouse_move_def split: if_splits)
  next
    case Key_r
    with st i show ?thesis by (auto simp: restart_game_frites_init)
  qed (use ne in simp_all)
qed

lemma handler_flags [simp]:
  "game_started (on_mouse_move g x) = game_started g" "game_over (on_mouse_move g x) = game_over g"
  "game_started (toggle_fullscreen_frites g) = game_started g" "game_over (toggle_fullscreen_frites g) = game_over g"
  "game_started (exit_fullscreen_frites g) = game_started g" "game_over (exit_fullscreen_frites g) = game_over g"
  by (simp_all add: on_mouse_move_def toggle_fullscreen_frites_def exit_fullscreen_frites_def)

lemma frites_status_of_cong:
  "game_started g' = game_started g \<Longrightarrow> game_over g' = game_over g \<Longrightarrow> frites_status_of g' = frites_status_of g"
  by (simp add: frites_status_of_def)

lemma frites_status_next_refl:
  "e \<noteq> Key_r \<Longrightarrow> (st = FNotStarted \<longrightarrow> e \<noteq> Button1) \<Longrightarrow> st \<in> set (frites_status_next st e)"
  by (cases st; cases e) auto

text \<open>How one event moves the status: the lemma behind the refinement claim.\<close>

lemma on_click_monotone:
  assumes i: "frites_inv g" "rate_ok rate" and r: "on_click rs rate g k = ret (g', rate', k', b)"
  shows "score g \<le> score g' \<and> max_combo g \<le> max_combo g'"
  using r
proof (cases rule: on_click_cases)
  case start
  from game_loop_frites_inv [OF frites_inv_start [OF i(1) start(1)] i(2) start(2)] show ?thesis by simp
qed simp

text \<open>Every event but a restart keeps or raises the score and the best combo.\<close>

lemma frites_step_monotone:
  assumes inv: "frites_sys_inv s" and st: "frites_step rs s e = ret s'" and ne: "e \<noteq> Key_r"
  shows "score (fgame s) \<le> score (fgame s') \<and> max_combo (fgame s) \<le> max_combo (fgame s')"
proof -
  have i: "frites_inv (fgame s)" "rate_ok (spawn_rate s)" using inv by (simp_all add: frites_sys_inv_def)
  have gl: "score g \<le> score g' \<and> max_combo g \<le> max_combo g'"
    if "game_loop_frites rs rate g k = ret (g', rate', k', b)" "frites_inv g" "rate_ok rate" for rate g k g' rate' k' b
    using game_loop_frites_inv [OF that(2,3,1)] by simp
  show ?thesis
  proof (cases e)
    case Button1
    with st i show ?thesis by (auto simp: run_loop_ret dest: on_click_monotone)
  next
    case Tick
    with st i show ?thesis by (auto simp: run_loop_ret split: if_splits dest: gl)
  qed (use st ne in \<open>auto simp: on_mouse_move_def toggle_fullscreen_frites_def exit_fullscreen_frites_def\<close>)
qed

lemma on_click_status:
  assumes i: "frites_inv g" "rate_ok rate" and r: "on_click rs rate g k = ret (g', rate', k', b)"
  shows "frites_status_of g' \<in> set (frites_status_next (frites_status_of g) Button1)"
  using r
proof (cases rule: on_click_cases)
  case idle
  then show ?thesis by (simp add: frites_status_next_refl frites_status_of_def)
next
  case start
  have "b \<longleftrightarrow> game_started g' \<and> \<not> game_over g'"
    using game_loop_frites_inv [OF frites_inv_start [OF i(1) start(1)] i(2) start(2)] by simp
  with start_reschedules [OF i(1) start(1) i(2) start(2)] start(1) show ?thesis
    by (simp add: frites_status_of_def)
qed

lemma tick_status:
  assumes i: "frites_inv g" "rate_ok rate" and r: "game_loop_frites rs rate g k = ret (g', rate', k', b)"
  shows "frites_status_of g' \<in> set (frites_status_next (frites_status_of g) Tick)"
proof (cases "\<not> game_started g \<or> game_over g")
  case True
  with r have "g' = g" by (simp add: game_loop_frites_idle)
  then show ?thesis by (simp add: frites_status_next_refl)
next
  case False
  from game_loop_frites_inv [OF i r] have "game_started g' = game_started g" by simp
  with False show ?thesis by (simp add: frites_status_of_def)
qed

lemma frites_step_status_gen:
  assumes inv: "frites_sys_inv s" and st: "frites_step rs s e = ret s'"
  shows "frites_status_of (fgame s') \<in> set (frites_status_next (frites_status_of (fgame s)) e)"
proof -
  have i: "frites_inv (fgame s)" "rate_ok (spawn_rate s)" using inv by (simp_all add: frites_sys_inv_def)
  show ?thesis
  proof (cases e)
    case Button1
    with st i show ?thesis by (auto simp: run_loop_ret dest: on_click_status)
  next
    case Key_r
    with st i have "fgame s' = frites_init\<lparr>is_fullscreen := is_fullscreen (fgame s)\<rparr>"
      by (auto simp: restart_game_frites_init)
    with Key_r show ?thesis by (simp add: frites_status_of_def frites_init_def)
  next
    case Tick
    show ?thesis
    proof (cases "callbacks s = 0")
      case True
      with st Tick show ?thesis by (simp add: frites_status_next_refl)
    next
      case False
      with st Tick i show ?thesis by (auto simp: run_loop_ret dest: tick_status)
    qed
  next
    case (Motion x)
    with st have "frites_status_of (fgame s') = frites_status_of (fgame s)" by (auto intro: frites_status_of_cong)
    with Motion show ?thesis by (simp add: frites_status_next_refl)
  next
    case Key_F11
    with st have "frites_status_of (fgame s') = frites_status_of (fgame s)" by (auto intro: frites_status_of_cong)
    with Key_F11 show ?thesis by (simp add: frites_status_next_refl)
  next
    case Key_Escape
    with st have "frites_status_of (fgame s') = frites_status_of (fgame s)" by (auto intro: frites_status_of_cong)
    with Key_Escape show ?thesis by (simp add: frites_status_next_refl)
  qed
qed

section \<open>Properties of the catcher program\<close>

text \<open>
  A small reachable state for the witnesses: the game just started by a click,
  with the random stream constantly 0.
\<close>

abbreviation frites_demo_game :: frites_game where
  "frites_demo_game \<equiv> frites_init\<lparr>game_started := True, frame_count := 1\<rparr>"

abbreviation frites_demo :: frites_sys where
  "frites_demo \<equiv> \<lparr>fgame = frites_demo_game, spawn_rate = 40, draws = 0, callbacks = 1\<rparr>"

lemma frites_demo_reach: "frites_reach (\<lambda>_. 0) frites_demo"
proof -
  have "frites_run (\<lambda>_. 0) frites_sys_init [Button1] = ret frites_demo"
    by (simp add: frites_sys_init_def frites_init_def new_paquet_def run_loop_def on_click_def
        start_game_def game_loop_frites_def update_paquet_def FRITE_SPAWN_RATE_init_def
        WINDOW_WIDTH_frites_def WINDOW_HEIGHT_frites_def Let_def)
  from frites_run_reach [OF frites_reach.start this] show ?thesis .
qed


abbreviation demo_fry :: "real \<Rightarrow> real \<Rightarrow> frite" where
  "demo_fry x y \<equiv> \<lparr>frite_x = x, frite_y = y, frite_width = 8, frite_height = 40, frite_speed = 3,
                    frite_rotation = 0, frite_wobble = -5\<rparr>"

lemma demo_classify:
  "classify frites_demo_game (demo_fry 400 500) = Caught"
  "classify frites_demo_game (demo_fry 100 599) = Missed"
  "classify frites_demo_game (demo_fry 100 0) = Falling"
  by (simp_all add: classify_def frite_update_def check_collision_def get_catch_rect_def is_off_screen_def
      frites_init_def new_paquet_def WINDOW_WIDTH_frites_def WINDOW_HEIGHT_frites_def)

lemma frites_demo_tick:
  "frites_step (\<lambda>_. 0) frites_demo Tick =
     ret \<lparr>fgame = frites_init\<lparr>game_started := True, frame_count := 2\<rparr>, spawn_rate = 40, draws = 0, callbacks = 1\<rparr>"
  by (simp add: frites_init_def new_paquet_def run_loop_def game_loop_frites_def update_paquet_def
      WINDOW_WIDTH_frites_def WINDOW_HEIGHT_frites_def Let_def)

text \<open>
  C14. In every state the catcher program reaches, the player has between 0 and
  3 lives and the game is over exactly when none is left (the spec's ``game
  ends when lives reach zero''); a game is over only once started; and a game
  not started (at launch or after a restart) has 3 lives, score 0 and no fries.
\<close>

theorem frites_lives_game_over:
  assumes "frites_reach rs s"
  shows "0 \<le> lives (fgame s) \<and> lives (fgame s) \<le> 3 \<and> (game_over (fgame s) \<longleftrightarrow> lives (fgame s) = 0) \<and>
         (game_over (fgame s) \<longrightarrow> game_started (fgame s)) \<and>
         (\<not> game_started (fgame s) \<longrightarrow> lives (fgame s) = 3 \<and> score (fgame s) = 0 \<and> frites (fgame s) = [])"
  using frites_reach_sys_inv [OF assms] by (simp add: frites_sys_inv_def frites_inv_def)

theorem frites_lives_game_over_witness:
  "frites_reach (\<lambda>_. 0) frites_demo \<and> lives frites_demo_game = 3 \<and> \<not> game_over frites_demo_game"
  using frites_lives_game_over [OF frites_demo_reach] frites_demo_reach by (simp add: frites_init_def)

text \<open>
  C15. The per-fry loop of \<open>game_loop\<close> (lines 423--447) refines a fold over
  the fries' outcomes: its score, lives, combo and best combo are those of
  \<open>tally_run\<close> on the list of outcomes (caught, missed, still falling)
  computed against the catcher's position, it stops exactly where the fold
  stops, sets \<open>game_over\<close> exactly then, never moves the catcher, and when it
  does not stop the fries kept are the falling ones, each moved once.
\<close>

theorem frites_pass_refines_fold:
  assumes "frites_pass g fs = (g', ps, stop)"
  shows "(tally_of g', stop) = tally_run (tally_of g) (map (classify g) fs) \<and>
         paquet g' = paquet g \<and> game_over g' = (game_over g \<or> stop) \<and>
         (\<not> stop \<longrightarrow> map fst (filter (\<lambda>(f, removed). \<not> removed) ps) =
                       map frite_update (filter (\<lambda>f. classify g f = Falling) fs))"
  using frites_pass_spec [OF assms] by blast

theorem frites_pass_refines_fold_witness:
  "map (classify frites_demo_game) [demo_fry 400 500, demo_fry 100 599, demo_fry 100 0] = [Caught, Missed, Falling] \<and>
   tally_run (tally_of frites_demo_game) [Caught, Missed, Falling] = ((10, 2, 0, 1), False) \<and>
   tally_of (fst (frites_pass frites_demo_game [demo_fry 400 500, demo_fry 100 599, demo_fry 100 0])) = (10, 2, 0, 1)"
proof -
  let ?r = "frites_pass frites_demo_game [demo_fry 400 500, demo_fry 100 599, demo_fry 100 0]"
  have cl: "map (classify frites_demo_game) [demo_fry 400 500, demo_fry 100 599, demo_fry 100 0] = [Caught, Missed, Falling]"
    by (simp add: demo_classify)
  have tr: "tally_run (tally_of frites_demo_game) [Caught, Missed, Falling] = ((10, 2, 0, 1), False)"
    by (simp add: tally_of_def frites_init_def)
  have "?r = (fst ?r, fst (snd ?r), snd (snd ?r))" by simp
  from frites_pass_refines_fold [OF this] cl tr show ?thesis by simp
qed

text \<open>
  C16. The combo resets to 0 exactly on a missed fry (spec, section 8): after
  the loop, the combo is the number of catches since the last miss of the pass,
  plus the combo it started with when no fry was missed, and 0 when the pass
  ended the game.
\<close>

theorem frites_pass_combo:
  assumes "frites_pass g fs = (g', ps, stop)"
  shows "combo g' = (if stop then 0
                     else (if Missed \<in> set (map (classify g) fs) then 0 else combo g) +
                          catches_since_miss (map (classify g) fs))"
proof -
  have "tally_run (score g, lives g, combo g, max_combo g) (map (classify g) fs) =
        ((score g', lives g', combo g', max_combo g'), stop)"
    using frites_pass_spec [OF assms] by (simp add: tally_of_def)
  from tally_run_combo [OF this] show ?thesis .
qed

theorem frites_pass_combo_witness:
  "map (classify frites_demo_game) [demo_fry 100 599, demo_fry 400 500, demo_fry 100 0] = [Missed, Caught, Falling] \<and>
   combo (fst (frites_pass frites_demo_game [demo_fry 100 599, demo_fry 400 500, demo_fry 100 0])) = 1"
proof -
  let ?r = "frites_pass frites_demo_game [demo_fry 100 599, demo_fry 400 500, demo_fry 100 0]"
  have cl: "map (classify frites_demo_game) [demo_fry 100 599, demo_fry 400 500, demo_fry 100 0] = [Missed, Caught, Falling]"
    by (simp add: demo_classify)
  have st: "\<not> snd (snd ?r)"
    by (simp add: frite_update_def check_collision_def get_catch_rect_def is_off_screen_def
        frites_init_def new_paquet_def WINDOW_WIDTH_frites_def WINDOW_HEIGHT_frites_def Let_def)
  have "?r = (fst ?r, fst (snd ?r), snd (snd ?r))" by simp
  from frites_pass_combo [OF this] cl st show ?thesis by (simp add: catches_since_miss_def)
qed


text \<open>
  C17. The best combo never decreases across a run (spec, section 8), nor does
  the score: every event but a restart keeps or raises both, and the combo stays
  between 0 and the best combo.
\<close>

theorem frites_score_monotone:
  assumes "frites_reach rs s" "e \<noteq> Key_r" "frites_step rs s e = ret s'"
  shows "score (fgame s) \<le> score (fgame s') \<and> max_combo (fgame s) \<le> max_combo (fgame s') \<and>
         0 \<le> combo (fgame s') \<and> combo (fgame s') \<le> max_combo (fgame s')"
proof -
  have inv: "frites_sys_inv s" by (rule frites_reach_sys_inv [OF assms(1)])
  have "frites_sys_inv s'" by (rule frites_step_inv [OF inv assms(3)])
  with frites_step_monotone [OF inv assms(3,2)] show ?thesis by (simp add: frites_sys_inv_def frites_inv_def)
qed


theorem frites_score_monotone_witness:
  "frites_reach (\<lambda>_. 0) frites_demo \<and> Tick \<noteq> Key_r \<and>
   frites_step (\<lambda>_. 0) frites_demo Tick =
     ret \<lparr>fgame = frites_init\<lparr>game_started := True, frame_count := 2\<rparr>, spawn_rate = 40, draws = 0, callbacks = 1\<rparr> \<and>
   score frites_demo_game \<le> score (frites_init\<lparr>game_started := True, frame_count := 2\<rparr>)"
  using frites_score_monotone [OF frites_demo_reach _ frites_demo_tick] frites_demo_reach frites_demo_tick
  by simp

text \<open>
  C18. Bounds in every reachable state: the catcher and its target stay in
  40..760 (half its width from each edge), \<open>FRITE_SPAWN_RATE\<close> stays an even
  number in 20..40 (it starts at 40 and drops by 2 only while above 20), and
  every fry falls at a speed in 2..4.
\<close>

theorem frites_bounds:
  assumes "frites_reach rs s"
  shows "40 \<le> paquet_x (paquet (fgame s)) \<and> paquet_x (paquet (fgame s)) \<le> 760 \<and>
         40 \<le> paquet_target_x (paquet (fgame s)) \<and> paquet_target_x (paquet (fgame s)) \<le> 760 \<and>
         20 \<le> spawn_rate s \<and> spawn_rate s \<le> 40 \<and> even (spawn_rate s) \<and>
         (\<forall>f\<in>set (frites (fgame s)). 2 \<le> frite_speed f \<and> frite_speed f \<le> 4)"
  using frites_reach_sys_inv [OF assms]
  by (auto simp: frites_sys_inv_def frites_inv_def paquet_ok_def rate_ok_def frite_ok_def list_all_iff)

theorem frites_bounds_witness:
  "frites_reach (\<lambda>_. 0) frites_demo \<and> paquet_x (paquet frites_demo_game) = 400 \<and> spawn_rate frites_demo = 40"
  using frites_bounds [OF frites_demo_reach] frites_demo_reach
  by (simp add: frites_init_def new_paquet_def WINDOW_WIDTH_frites_def)

text \<open>
  C19. No event raises in a reachable state: in particular
  \<open>self.frame_count % FRITE_SPAWN_RATE\<close> never divides by zero, and every
  handler returns.
\<close>

theorem frites_no_exception:
  assumes "frites_reach rs s"
  shows "\<exists>s'. frites_step rs s e = ret s'"
  by (rule frites_step_ret [OF frites_reach_sys_inv [OF assms]])

theorem frites_no_exception_witness:
  "frites_reach (\<lambda>_. 0) frites_demo \<and> (\<exists>s'. frites_step (\<lambda>_. 0) frites_demo Tick = ret s')"
  by (intro conjI frites_demo_reach frites_no_exception [OF frites_demo_reach])

text \<open>
  C20. The catcher reaches its target: with the target fixed, after \<open>n\<close>
  updates it is within 2 pixels of it as soon as \<open>n\<close> steps of its speed
  cover the initial distance (the spec's ``bounded step per tick'').
\<close>

theorem paquet_reaches_target:
  assumes "0 \<le> paquet_speed p" "\<bar>paquet_x p - paquet_target_x p\<bar> \<le> paquet_speed p * int n + 2"
  shows "\<bar>paquet_x ((update_paquet ^^ n) p) - paquet_target_x p\<bar> \<le> 2"
  using iterate_update_paquet_dist [OF assms(1), of n] assms(2) by (auto simp: max_def split: if_splits)

theorem paquet_reaches_target_witness:
  "\<bar>paquet_x ((update_paquet ^^ 24) ((new_paquet 400 520)\<lparr>paquet_target_x := 760\<rparr>)) - 760\<bar> \<le> 2"
  using paquet_reaches_target [of "(new_paquet 400 520)\<lparr>paquet_target_x := 760\<rparr>" 24]
  by (simp add: new_paquet_def)

text \<open>
  C21. After a tick that goes on (re-registers itself), no fry left in the list
  is in the catch zone or below the screen: caught and fallen fries are removed.
\<close>

theorem frites_tick_clears:
  assumes "game_loop_frites rs rate g k = ret (g', rate', k', True)"
  shows "\<forall>f\<in>set (frites g'). \<not> is_off_screen f \<and> \<not> check_collision g' f"
proof -
  have run: "game_started g" "\<not> game_over g"
    using assms game_loop_frites_idle [of g rs rate k] by auto
  obtain new g4 passed stop where t:
    "frites_pass (g\<lparr>frame_count := frame_count g + 1, frites := frites g @ new,
                    paquet := update_paquet (paquet g)\<rparr>) (frites g @ new) = (g4, passed, stop)"
    "g' = g4\<lparr>frites := (if stop then map fst passed else map fst (filter (\<lambda>(f, removed). \<not> removed) passed))\<rparr>"
    "True = (\<not> stop)"
    by (rule game_loop_frites_tick [OF assms run]) blast
  let ?g3 = "g\<lparr>frame_count := frame_count g + 1, frites := frites g @ new, paquet := update_paquet (paquet g)\<rparr>"
  from frites_pass_spec [OF t(1)] t(3) have
    kept: "map fst (filter (\<lambda>(f, removed). \<not> removed) passed) =
           map frite_update (filter (\<lambda>f. classify ?g3 f = Falling) (frites g @ new))"
    and pq: "paquet g4 = paquet ?g3" by simp_all
  have "classify ?g3 f = Falling \<Longrightarrow> \<not> is_off_screen (frite_update f) \<and> \<not> check_collision g' (frite_update f)" for f
    using check_collision_cong [of g' ?g3 "frite_update f"] pq t(2)
    by (simp add: classify_def Let_def split: if_splits)
  moreover have "\<not> stop" using t(3) by simp
  ultimately show ?thesis using t(2) kept by auto
qed

theorem frites_tick_clears_witness:
  "\<exists>g'. game_loop_frites (\<lambda>_. 0) 40 (frites_demo_game\<lparr>frites := [demo_fry 100 0]\<rparr>) 0 = ret (g', 40, 0, True) \<and>
        frites g' = [(demo_fry 100 3)\<lparr>frite_wobble := 0\<rparr>] \<and>
        (\<forall>f\<in>set (frites g'). \<not> is_off_screen f \<and> \<not> check_collision g' f)"
proof -
  let ?g' = "frites_init\<lparr>game_started := True, frame_count := 2, frites := [(demo_fry 100 3)\<lparr>frite_wobble := 0\<rparr>]\<rparr>"
  have r: "game_loop_frites (\<lambda>_. 0) 40 (frites_demo_game\<lparr>frites := [demo_fry 100 0]\<rparr>) 0 = ret (?g', 40, 0, True)"
    by (simp add: game_loop_frites_def update_paquet_def frite_update_def check_collision_def
        get_catch_rect_def is_off_screen_def frites_init_def new_paquet_def
        WINDOW_WIDTH_frites_def WINDOW_HEIGHT_frites_def Let_def)
  from frites_tick_clears [OF r] r show ?thesis by auto
qed


text \<open>
  C22. Restarting a running catcher game and clicking before its pending tick
  fires leaves two callback chains: the old callback finds a started game again
  and re-registers, next to the new one, so the game then runs at twice the
  speed. The spec says exactly one tick callback is ever in flight.
\<close>

theorem frites_restart_double_chain:
  assumes "frites_reach rs s" "frites_running (fgame s)" "frites_run rs s [Key_r, Button1] = ret s'"
  shows "callbacks s' = Suc (callbacks s) \<and> 2 \<le> callbacks s' \<and> frites_running (fgame s')"
proof -
  have inv: "frites_sys_inv s" by (rule frites_reach_sys_inv [OF assms(1)])
  then have i: "frites_inv (fgame s)" "rate_ok (spawn_rate s)" "0 < callbacks s"
    using assms(2) by (simp_all add: frites_sys_inv_def)
  let ?g0 = "frites_init\<lparr>is_fullscreen := is_fullscreen (fgame s)\<rparr>"
  have r0: "restart_game_frites (fgame s) = ?g0" by (rule restart_game_frites_init [OF i(1)])
  have ns: "\<not> game_started ?g0" by (simp add: frites_init_def)
  from assms(3) r0 obtain g' rate' k' b where
    c: "on_click rs (spawn_rate s) ?g0 (draws s) = ret (g', rate', k', b)" and
    s': "s' = s\<lparr>fgame := g', spawn_rate := rate', draws := k', callbacks := after_count (callbacks s) b\<rparr>"
    by (auto simp: run_loop_ret)
  from c ns have l: "game_loop_frites rs (spawn_rate s) (?g0\<lparr>game_started := True\<rparr>) (draws s) = ret (g', rate', k', b)"
    by (simp add: on_click_def start_game_def)
  have b: "b" using start_reschedules [OF frites_inv_init ns i(2) l] by simp
  have "b \<longleftrightarrow> game_started g' \<and> \<not> game_over g'"
    using game_loop_frites_inv [OF frites_inv_start [OF frites_inv_init ns] i(2) l] by simp
  with b s' i(3) show ?thesis by (simp add: frites_running_def)
qed

theorem frites_restart_double_chain_witness:
  "frites_reach (\<lambda>_. 0) frites_demo \<and> frites_running frites_demo_game \<and>
   frites_run (\<lambda>_. 0) frites_demo [Key_r, Button1] =
     ret \<lparr>fgame = frites_demo_game, spawn_rate = 40, draws = 0, callbacks = 2\<rparr>"
proof -
  have r: "frites_run (\<lambda>_. 0) frites_demo [Key_r, Button1] =
     ret \<lparr>fgame = frites_demo_game, spawn_rate = 40, draws = 0, callbacks = 2\<rparr>"
    by (simp add: restart_game_frites_def frites_init_def new_paquet_def run_loop_def on_click_def
        start_game_def game_loop_frites_def update_paquet_def WINDOW_WIDTH_frites_def
        WINDOW_HEIGHT_frites_def Let_def)
  have h: "frites_running frites_demo_game" by (simp add: frites_running_def frites_init_def)
  from frites_restart_double_chain [OF frites_demo_reach _ r] frites_demo_reach h r show ?thesis by simp
qed

text \<open>
  C23. A restart rebuilds the game object of \<open>__init__\<close> (only the fullscreen
  flag survives) but keeps the module global \<open>FRITE_SPAWN_RATE\<close> and the
  pending callbacks: the difficulty reached before the restart carries over,
  while the spec says state is discarded wholesale on restart.
\<close>

theorem frites_restart_keeps_rate:
  assumes "frites_reach rs s" "frites_step rs s Key_r = ret s'"
  shows "fgame s' = frites_init\<lparr>is_fullscreen := is_fullscreen (fgame s)\<rparr> \<and>
         spawn_rate s' = spawn_rate s \<and> callbacks s' = callbacks s"
proof -
  have "frites_inv (fgame s)" using frites_reach_sys_inv [OF assms(1)] by (simp add: frites_sys_inv_def)
  with assms(2) show ?thesis by (auto simp: restart_game_frites_init)
qed

theorem frites_restart_keeps_rate_witness:
  "frites_reach (\<lambda>_. 0) frites_demo \<and>
   frites_step (\<lambda>_. 0) frites_demo Key_r = ret (frites_demo\<lparr>fgame := restart_game_frites frites_demo_game\<rparr>) \<and>
   restart_game_frites frites_demo_game = frites_init"
proof -
  have st: "frites_step (\<lambda>_. 0) frites_demo Key_r = ret (frites_demo\<lparr>fgame := restart_game_frites frites_demo_game\<rparr>)"
    by simp
  from frites_restart_keeps_rate [OF frites_demo_reach st] frites_demo_reach st show ?thesis
    by (simp add: frites_init_def)
qed

text \<open>
  C24. A running catcher game always has a tick callback registered.
\<close>

theorem frites_running_has_tick:
  assumes "frites_reach rs s" "frites_running (fgame s)"
  shows "0 < callbacks s"
  using frites_reach_sys_inv [OF assms(1)] assms(2) by (simp add: frites_sys_inv_def)

theorem frites_running_has_tick_witness:
  "frites_reach (\<lambda>_. 0) frites_demo \<and> frites_running frites_demo_game \<and> 0 < callbacks frites_demo"
proof -
  have h: "frites_running frites_demo_game" by (simp add: frites_running_def frites_init_def)
  from frites_running_has_tick [OF frites_demo_reach] frites_demo_reach h show ?thesis by simp
qed

text \<open>
  C25. The two flags of \<open>FritesGame\<close> refine the spec's status machine for the
  catcher (not started, running, over; no pause): in every reachable state each
  event moves the status along a transition \<open>frites_status_next\<close> allows. A
  click starts the game, only a tick can end it, and a restart returns to the
  start screen from every status.
\<close>

theorem frites_step_status:
  assumes "frites_reach rs s" "frites_step rs s e = ret s'"
  shows "frites_status_of (fgame s') \<in> set (frites_status_next (frites_status_of (fgame s)) e)"
  by (rule frites_step_status_gen [OF frites_reach_sys_inv [OF assms(1)] assms(2)])

theorem frites_step_status_witness:
  "frites_reach (\<lambda>_. 0) frites_demo \<and>
   frites_status_of (frites_init\<lparr>game_started := True, frame_count := 2\<rparr>) \<in>
     set (frites_status_next (frites_status_of frites_demo_game) Tick)"
  using frites_step_status [OF frites_demo_reach frites_demo_tick] frites_demo_reach by simp

text \<open>
  C32. Fries spawn at the cadence of \<open>FRITE_SPAWN_RATE\<close> (spec: ``at a fixed
  cadence at random x''): a tick of a running game that goes on spawns a fry
  exactly when the new frame count is a multiple of the rate; the fry is
  placed at a random \<open>x\<close> in 50..750 (one \<open>randint\<close> draw, then the three draws
  of \<open>Frite.__init__\<close>) at \<open>y = -50\<close>, and it ends the tick as the last fry of
  the list, moved once. Without a spawn no draw is made and the list does not
  grow.
\<close>

theorem frites_spawn_cadence:
  assumes "frites_inv g" "game_loop_frites rs rate g k = ret (g', rate', k', True)"
  shows "if (frame_count g + 1) mod rate = 0
         then k' = k + 4 \<and> 50 \<le> randint 50 750 (rs k) \<and> randint 50 750 (rs k) \<le> 750 \<and>
              last (frites g') = frite_update (fst (new_frite rs (Suc k) (of_int (randint 50 750 (rs k))) (-50)))
         else k' = k \<and> length (frites g') \<le> length (frites g)"
proof -
  have run: "game_started g" "\<not> game_over g"
    using assms(2) game_loop_frites_idle [of g rs rate k] by auto
  obtain new g4 passed stop where t:
    "new = (if (frame_count g + 1) mod rate = 0
            then [fst (new_frite rs (Suc k) (of_int (randint 50 (WINDOW_WIDTH_frites - 50) (rs k))) (-50))] else [])"
    "k' = (if (frame_count g + 1) mod rate = 0 then k + 4 else k)"
    "frites_pass (g\<lparr>frame_count := frame_count g + 1, frites := frites g @ new,
                    paquet := update_paquet (paquet g)\<rparr>) (frites g @ new) = (g4, passed, stop)"
    "g' = g4\<lparr>frites := (if stop then map fst passed else map fst (filter (\<lambda>(f, removed). \<not> removed) passed))\<rparr>"
    "True = (\<not> stop)"
    by (rule game_loop_frites_tick [OF assms(2) run]) blast
  let ?g3 = "g\<lparr>frame_count := frame_count g + 1, frites := frites g @ new, paquet := update_paquet (paquet g)\<rparr>"
  have kept: "frites g' = map frite_update (filter (\<lambda>f. classify ?g3 f = Falling) (frites g @ new))"
    using frites_pass_spec [OF t(3)] t(4,5) by simp
  have w: "WINDOW_WIDTH_frites - 50 = 750" by (simp add: WINDOW_WIDTH_frites_def)
  show ?thesis
  proof (cases "(frame_count g + 1) mod rate = 0")
    case True
    let ?f = "fst (new_frite rs (Suc k) (of_int (randint 50 750 (rs k))) (-50))"
    have nf: "frite_ok ?f \<and> frite_y ?f = -50"
      using new_frite_ok [of rs "Suc k" _ "-50" ?f] by (metis prod.collapse)
    have "paquet_ok (paquet ?g3)" using assms(1) update_paquet_ok by (simp add: frites_inv_def)
    then have "classify ?g3 ?f = Falling" using fresh_frite_falls nf by blast
    with kept True t(1) w have "last (frites g') = frite_update ?f" by simp
    with True t(2) randint_bounds [of 50 750 "rs k"] show ?thesis by simp
  next
    case False
    with kept t(1,2) show ?thesis by simp
  qed
qed


theorem frites_spawn_cadence_witness:
  "frites_inv (frites_init\<lparr>game_started := True, frame_count := 39\<rparr>) \<and>
   (\<exists>g' rate'. game_loop_frites (\<lambda>_. 0) 40 (frites_init\<lparr>game_started := True, frame_count := 39\<rparr>) 0 =
                 ret (g', rate', 4, True) \<and>
               last (frites g') = frite_update (fst (new_frite (\<lambda>_. 0) 1 50 (-50))))"
proof -
  have i: "frites_inv (frites_init\<lparr>game_started := True, frame_count := 39\<rparr>)"
    by (simp add: frites_inv_def frites_init_def new_paquet_def paquet_ok_def WINDOW_WIDTH_frites_def
        WINDOW_HEIGHT_frites_def)
  have "\<exists>g' rate'. game_loop_frites (\<lambda>_. 0) 40 (frites_init\<lparr>game_started := True, frame_count := 39\<rparr>) 0 =
                   ret (g', rate', 4, True)"
    by (simp add: game_loop_frites_def spawn_frite_eq new_frite_def frite_update_def check_collision_def
        get_catch_rect_def is_off_screen_def update_paquet_def frites_init_def new_paquet_def randint_def
        uniform_def FRITE_SPEED_def WINDOW_WIDTH_frites_def WINDOW_HEIGHT_frites_def Let_def)
  then obtain g' rate' where r: "game_loop_frites (\<lambda>_. 0) 40 (frites_init\<lparr>game_started := True, frame_count := 39\<rparr>) 0 =
                   ret (g', rate', 4, True)" by blast
  from frites_spawn_cadence [OF i r] have "last (frites g') = frite_update (fst (new_frite (\<lambda>_. 0) 1 50 (-50)))"
    by (simp add: frites_init_def randint_def)
  with i r show ?thesis by blast
qed

end
