(* ===== verification/Frites_Render.thy ===== *)
theory Frites_Render
  imports Frites_Events Canvas
begin

text \<open>
  What \<open>FritesGame\<close> draws each tick (\<open>src/frites_game.py\<close>, lines 453--457):
  it deletes the items tagged \<open>paquet\<close> and \<open>frite\<close>, draws the catcher
  (\<open>draw_paquet\<close>: shadow, red body, dark opening, the letter M and four fries
  sticking out) and every falling fry (\<open>draw_frite\<close>: body and dark tip).
  \<open>redraw_frites\<close> is that sequence.
\<close>

section \<open>Colours\<close>

definition RED :: string where "RED = ''#E31837''"
definition YELLOW :: string where "YELLOW = ''#FFC72C''"
definition FRITE_COLOR :: string where "FRITE_COLOR = ''#FFD700''"
definition FRITE_SHADOW :: string where "FRITE_SHADOW = ''#DAA520''"

section \<open>Drawing\<close>

text \<open>The items a redraw leaves alone: those tagged neither \<open>paquet\<close> nor \<open>frite\<close>.\<close>

definition scenery_item :: "item \<Rightarrow> bool" where
  "scenery_item it \<longleftrightarrow> \<not> (''paquet'' \<in> set (item_tags it) \<or> ''frite'' \<in> set (item_tags it))"

text \<open>One fry sticking out of the catcher (lines 304--314).\<close>

definition draw_stick :: "int \<times> int \<Rightarrow> canvas \<Rightarrow> canvas" where
  "draw_stick pos c =
     (case pos of (fx, fy) \<Rightarrow>
        create Rectangle (map of_int [fx - 3, fy, fx + 3, fy + 5]) ''#DAA520'' [''paquet'']
          (create Rectangle (map of_int [fx - 3, fy, fx + 3, fy + 25]) FRITE_COLOR [''paquet''] c))"

definition draw_paquet :: "paquet \<Rightarrow> canvas \<Rightarrow> canvas" where
  "draw_paquet p c =
     (let x = paquet_x p; y = paquet_y p; w = paquet_width p; h = paquet_height p;
          c1 = create Rectangle (map of_int [x - w div 2 + 5, y + h div 2 - 5, x + w div 2 + 5, y + h div 2 + 10])
                 ''gray'' [''paquet''] c;
          points = [x - w div 2, y - h div 2 + 20, x + w div 2, y - h div 2 + 20,
                    x + w div 2 - 5, y + h div 2, x - w div 2 + 5, y + h div 2];
          c2 = create Polygon (map of_int points) RED [''paquet''] c1;
          c3 = create Rectangle (map of_int [x - w div 2, y - h div 2, x + w div 2, y - h div 2 + 25])
                 ''#C41E3A'' [''paquet''] c2;
          c4 = create Text_item (map of_int [x, y]) YELLOW [''paquet''] c3;
          frite_positions = [(x - 20, y - h div 2 + 10), (x - 5, y - h div 2 + 5),
                             (x + 10, y - h div 2 + 12), (x + 25, y - h div 2 + 8)]
      in foldl (\<lambda>c pos. draw_stick pos c) c4 frite_positions)"

definition draw_frite :: "frite \<Rightarrow> canvas \<Rightarrow> canvas" where
  "draw_frite f c =
     (let x = frite_x f; y = frite_y f; w2 = of_int (frite_width f div 2); h = of_int (frite_height f);
          points = [x - w2, y, x + w2, y, x + w2 - 2, y + h, x - w2 + 2, y + h];
          c1 = create Polygon points FRITE_COLOR [''frite''] c
      in create Rectangle [x - w2, y, x + w2, y + 8] FRITE_SHADOW [''frite''] c1)"

definition redraw_frites :: "frites_game \<Rightarrow> canvas \<Rightarrow> canvas" where
  "redraw_frites g c =
     foldl (\<lambda>c f. draw_frite f c) (draw_paquet (paquet g) (canvas_delete [''paquet'', ''frite''] c)) (frites g)"

section \<open>Counting the items\<close>

lemma scenery_item_iff [simp]:
  "scenery_item it \<longleftrightarrow> ''paquet'' \<notin> set (item_tags it) \<and> ''frite'' \<notin> set (item_tags it)"
  by (simp add: scenery_item_def)

lemma draw_stick_counts [simp]:
  "length (tagged ''paquet'' (draw_stick pos c)) = length (tagged ''paquet'' c) + 2"
  "tagged ''frite'' (draw_stick pos c) = tagged ''frite'' c"
  "filter scenery_item (draw_stick pos c) = filter scenery_item c"
  by (simp_all add: draw_stick_def split: prod.splits)

lemma draw_paquet_counts [simp]:
  "length (tagged ''paquet'' (draw_paquet p c)) = length (tagged ''paquet'' c) + 12"
  "tagged ''frite'' (draw_paquet p c) = tagged ''frite'' c"
  "filter scenery_item (draw_paquet p c) = filter scenery_item c"
  by (simp_all add: draw_paquet_def Let_def)

lemma draw_frite_counts [simp]:
  "tagged ''paquet'' (draw_frite f c) = tagged ''paquet'' c"
  "length (tagged ''frite'' (draw_frite f c)) = length (tagged ''frite'' c) + 2"
  "filter scenery_item (draw_frite f c) = filter scenery_item c"
  by (simp_all add: draw_frite_def Let_def)

lemma draw_frites_counts:
  "tagged ''paquet'' (foldl (\<lambda>c f. draw_frite f c) c fs) = tagged ''paquet'' c \<and>
   length (tagged ''frite'' (foldl (\<lambda>c f. draw_frite f c) c fs)) = length (tagged ''frite'' c) + 2 * length fs \<and>
   filter scenery_item (foldl (\<lambda>c f. draw_frite f c) c fs) = filter scenery_item c"
  by (induction fs arbitrary: c) auto

lemma delete_paquet_frite:
  "tagged ''paquet'' (canvas_delete [''paquet'', ''frite''] c) = []"
  "tagged ''frite'' (canvas_delete [''paquet'', ''frite''] c) = []"
  "filter scenery_item (canvas_delete [''paquet'', ''frite''] c) = filter scenery_item c"
  by (simp_all, rule filter_delete, auto simp: has_tag_def)

section \<open>What a redraw keeps of the other items\<close>

text \<open>
  Under the one-tag discipline, a redraw leaves the items of every tag but
  \<open>paquet\<close> and \<open>frite\<close> and the untagged items as they were, and keeps the
  discipline.
\<close>

lemma draw_stick_keeps [simp]:
  "t \<noteq> ''paquet'' \<Longrightarrow> tagged t (draw_stick pos c) = tagged t c"
  "untagged (draw_stick pos c) = untagged c" "single_tags (draw_stick pos c) = single_tags c"
  by (simp_all add: draw_stick_def split: prod.splits)

lemma draw_paquet_keeps [simp]:
  "t \<noteq> ''paquet'' \<Longrightarrow> tagged t (draw_paquet p c) = tagged t c"
  "untagged (draw_paquet p c) = untagged c" "single_tags (draw_paquet p c) = single_tags c"
  by (simp_all add: draw_paquet_def Let_def)

lemma draw_frite_keeps [simp]:
  "t \<noteq> ''frite'' \<Longrightarrow> tagged t (draw_frite f c) = tagged t c"
  "untagged (draw_frite f c) = untagged c" "single_tags (draw_frite f c) = single_tags c"
  by (simp_all add: draw_frite_def Let_def)

lemma draw_frites_keep:
  "t \<noteq> ''frite'' \<Longrightarrow> tagged t (foldl (\<lambda>c f. draw_frite f c) c fs) = tagged t c"
  "untagged (foldl (\<lambda>c f. draw_frite f c) c fs) = untagged c"
  "single_tags (foldl (\<lambda>c f. draw_frite f c) c fs) = single_tags c"
  by (induction fs arbitrary: c) simp_all

lemma redraw_frites_keeps:
  assumes "single_tags c"
  shows "t \<notin> {''paquet'', ''frite''} \<Longrightarrow> tagged t (redraw_frites g c) = tagged t c"
    "untagged (redraw_frites g c) = untagged c"
    "single_tags (redraw_frites g c)"
  using assms by (simp_all add: redraw_frites_def draw_frites_keep tagged_delete_other untagged_delete
                                single_tags_delete)

section \<open>Properties of the drawing\<close>

text \<open>
  C28. Each tick's redraw replaces the catcher and the fries instead of piling
  them up: whatever the canvas held, \<open>redraw_frites\<close> leaves exactly the 12
  items of one catcher tagged \<open>paquet\<close>, exactly two items per fry in the list
  tagged \<open>frite\<close>, and the background and overlays as they were.
\<close>

theorem redraw_frites_replaces:
  "length (tagged ''paquet'' (redraw_frites g c)) = 12 \<and>
   length (tagged ''frite'' (redraw_frites g c)) = 2 * length (frites g) \<and>
   filter scenery_item (redraw_frites g c) = filter scenery_item c"
  using draw_frites_counts [of "draw_paquet (paquet g) (canvas_delete [''paquet'', ''frite''] c)" "frites g"]
  by (simp add: redraw_frites_def delete_paquet_frite)


end
