(* ===== verification/Frites_UI.thy ===== *)
theory Frites_UI
  imports Frites_Render Py_Text
begin

text \<open>
  The catcher program with its canvas (\<open>src/frites_game.py\<close>): the handlers
  of \<open>FritesGame\<close> with the canvas calls they make, in the order they make
  them. \<open>__init__\<close> and \<open>restart_game\<close> draw the background (sky, four
  clouds, ground) and the start screen; \<open>start_game\<close> removes the start and
  game-over screens before its first tick; within a tick every catch calls
  \<open>show_combo\<close>, which replaces the combo banner and registers a callback that
  deletes it one second later, and the last life lost shows the game-over
  screen; a tick that goes on redraws the catcher and the fries. The display
  \<open>fdisplay\<close> is the canvas, the number of registered banner callbacks and the
  texts of the score and lives labels, which \<open>update_score\<close> and
  \<open>update_lives\<close> set; the state adds it and the window to \<open>frites_sys\<close>. The texts'
  strings and fonts on the canvas are left out. The module colours
  \<open>BG_COLOR\<close> and \<open>TEXT_COLOR\<close>, whose names \<open>src/snake.py\<close> also uses, carry
  the suffix \<open>_frites\<close>, as do \<open>show_start_screen\<close>, \<open>show_game_over\<close>
  and \<open>update_score\<close>.
\<close>

section \<open>Colours and screens\<close>

definition BG_COLOR_frites :: string where "BG_COLOR_frites = ''#87CEEB''"
definition GROUND_COLOR :: string where "GROUND_COLOR = ''#90EE90''"
definition TEXT_COLOR_frites :: string where "TEXT_COLOR_frites = ''#333''"

definition draw_cloud :: "int \<Rightarrow> int \<Rightarrow> canvas \<Rightarrow> canvas" where
  "draw_cloud x y c =
     create Oval (map of_int [x + 40, y, x + 80, y + 30]) ''white'' []
       (create Oval (map of_int [x + 20, y - 10, x + 60, y + 25]) ''white'' []
         (create Oval (map of_int [x, y, x + 40, y + 30]) ''white'' [] c))"

definition draw_background :: "canvas \<Rightarrow> canvas" where
  "draw_background c =
     (let c1 = create Rectangle (map of_int [0, 0, WINDOW_WIDTH_frites, WINDOW_HEIGHT_frites]) BG_COLOR_frites [] c;
          clouds = [(150, 80), (400, 120), (650, 60), (250, 180)];
          c2 = foldl (\<lambda>c (cx, cy). draw_cloud cx cy c) c1 clouds
      in create Rectangle (map of_int [0, WINDOW_HEIGHT_frites - 50, WINDOW_WIDTH_frites, WINDOW_HEIGHT_frites])
           GROUND_COLOR [] c2)"

definition show_start_screen_frites :: "canvas \<Rightarrow> canvas" where
  "show_start_screen_frites c =
     (let c1 = create Text_item (map of_int [WINDOW_WIDTH_frites div 2, WINDOW_HEIGHT_frites div 2 - 100]) RED [''start''] c;
          c2 = create Text_item (map of_int [WINDOW_WIDTH_frites div 2, WINDOW_HEIGHT_frites div 2 - 40]) YELLOW [''start''] c1;
          c3 = create Text_item (map of_int [WINDOW_WIDTH_frites div 2, WINDOW_HEIGHT_frites div 2 + 40]) TEXT_COLOR_frites [''start''] c2
      in create Text_item (map of_int [WINDOW_WIDTH_frites div 2, WINDOW_HEIGHT_frites div 2 + 80]) TEXT_COLOR_frites [''start''] c3)"

text \<open>The best-combo line is drawn only when \<open>max_combo > 1\<close> (line 373).\<close>

definition show_game_over_frites :: "frites_game \<Rightarrow> canvas \<Rightarrow> canvas" where
  "show_game_over_frites g c =
     (let c1 = create Rectangle (map of_int [0, 0, WINDOW_WIDTH_frites, WINDOW_HEIGHT_frites]) ''black'' [''gameover''] c;
          c2 = create Text_item (map of_int [WINDOW_WIDTH_frites div 2, WINDOW_HEIGHT_frites div 2 - 80]) RED [''gameover''] c1;
          c3 = create Text_item (map of_int [WINDOW_WIDTH_frites div 2, WINDOW_HEIGHT_frites div 2 - 10]) YELLOW [''gameover''] c2;
          c4 = (if max_combo g > 1
                then create Text_item (map of_int [WINDOW_WIDTH_frites div 2, WINDOW_HEIGHT_frites div 2 + 30]) ''white'' [''gameover''] c3
                else c3)
      in create Text_item (map of_int [WINDOW_WIDTH_frites div 2, WINDOW_HEIGHT_frites div 2 + 70]) ''white'' [''gameover''] c4)"

text \<open>The display: the canvas, the banner callbacks registered, the texts of the two labels.\<close>

record fdisplay =
  fcanvas :: canvas
  banners :: nat
  score_text :: string
  lives_text :: string

text \<open>The texts \<open>update_score\<close> and \<open>update_lives\<close> give the labels (lines 253--258).\<close>

definition update_score_frites :: "frites_game \<Rightarrow> string" where
  "update_score_frites g = ''Score: '' @ py_str (score g)"

definition update_lives :: "frites_game \<Rightarrow> string" where
  "update_lives g = py_strip (py_mul_str (HEART @ '' '') (lives g))"

text \<open>
  \<open>show_combo\<close>: for a combo above 1 it deletes the banner, draws the new one
  and registers \<open>root.after(1000, ...)\<close>.
\<close>

definition show_combo :: "frites_game \<Rightarrow> fdisplay \<Rightarrow> fdisplay" where
  "show_combo g d =
     (if combo g > 1
      then d\<lparr>fcanvas := create Text_item (map of_int [WINDOW_WIDTH_frites div 2, 100]) YELLOW [''combo'']
                          (canvas_delete [''combo''] (fcanvas d)),
             banners := Suc (banners d)\<rparr>
      else d)"

section \<open>The game loop with its drawing\<close>

text \<open>
  \<open>frites_pass\<close> with the display calls of the loop body: \<open>update_score\<close>
  and \<open>show_combo\<close> after each catch, \<open>update_lives\<close> after each miss and
  \<open>show_game_over\<close> before the early return.
\<close>

fun frites_pass_ui :: "frites_game \<Rightarrow> frite list \<Rightarrow> fdisplay \<Rightarrow>
    frites_game \<times> (frite \<times> bool) list \<times> bool \<times> fdisplay" where
  "frites_pass_ui g [] d = (g, [], False, d)"
| "frites_pass_ui g (f # fs) d =
     (let f' = frite_update f in
      if check_collision g f' then
        (let points = 10 + combo g * 5;
             g1 = g\<lparr>score := score g + points, combo := combo g + 1\<rparr>;
             g2 = g1\<lparr>max_combo := max (max_combo g1) (combo g1)\<rparr>;
             d2 = show_combo g2 (d\<lparr>score_text := update_score_frites g2\<rparr>);
             (g3, rest, stop, d3) = frites_pass_ui g2 fs d2
         in (g3, (f', True) # rest, stop, d3))
      else if is_off_screen f' then
        (let g1 = g\<lparr>lives := lives g - 1, combo := 0\<rparr>;
             d1 = d\<lparr>lives_text := update_lives g1\<rparr> in
         if lives g1 \<le> 0
         then (g1\<lparr>game_over := True\<rparr>, (f', True) # map (\<lambda>f. (f, False)) fs, True,
               d1\<lparr>fcanvas := show_game_over_frites (g1\<lparr>game_over := True\<rparr>) (fcanvas d1)\<rparr>)
         else (let (g3, rest, stop, d3) = frites_pass_ui g1 fs d1 in (g3, (f', True) # rest, stop, d3)))
      else (let (g3, rest, stop, d3) = frites_pass_ui g fs d in (g3, (f', False) # rest, stop, d3)))"

type_synonym fui_result = "frites_game \<times> int \<times> nat \<times> bool \<times> fdisplay"

definition game_loop_frites_ui :: "rng \<Rightarrow> int \<Rightarrow> frites_game \<Rightarrow> nat \<Rightarrow> fdisplay \<Rightarrow> fui_result outcome" where
  "game_loop_frites_ui rs rate g k d =
     (if \<not> game_started g \<or> game_over g then ret (g, rate, k, False, d)
      else
        (let g1 = g\<lparr>frame_count := frame_count g + 1\<rparr> in
         bind_out (py_mod (frame_count g1) rate) (\<lambda>m.
           let (g2, k2) = (if m = 0 then spawn_frite rs g1 k else (g1, k));
               rate2 = (if frame_count g2 mod 500 = 0 \<and> rate > 20 then rate - 2 else rate);
               g3 = g2\<lparr>paquet := update_paquet (paquet g2)\<rparr>;
               (g4, passed, stop, d4) = frites_pass_ui g3 (frites g3) d
           in if stop then ret (g4\<lparr>frites := map fst passed\<rparr>, rate2, k2, False, d4)
              else (let g5 = g4\<lparr>frites := map fst (filter (\<lambda>(f, removed). \<not> removed) passed)\<rparr>
                    in ret (g5, rate2, k2, True, d4\<lparr>fcanvas := redraw_frites g5 (fcanvas d4)\<rparr>)))))"

definition start_game_ui :: "rng \<Rightarrow> int \<Rightarrow> frites_game \<Rightarrow> nat \<Rightarrow> fdisplay \<Rightarrow> fui_result outcome" where
  "start_game_ui rs rate g k d =
     game_loop_frites_ui rs rate (g\<lparr>game_started := True\<rparr>) k
       (d\<lparr>fcanvas := canvas_delete [''start'', ''gameover''] (fcanvas d)\<rparr>)"

definition on_click_ui :: "rng \<Rightarrow> int \<Rightarrow> frites_game \<Rightarrow> nat \<Rightarrow> fdisplay \<Rightarrow> fui_result outcome" where
  "on_click_ui rs rate g k d =
     (if \<not> game_started g then start_game_ui rs rate g k d else ret (g, rate, k, False, d))"

definition restart_game_frites_ui :: "frites_game \<Rightarrow> fdisplay \<Rightarrow> frites_game \<times> fdisplay" where
  "restart_game_frites_ui g d =
     (let g1 = restart_game_frites g
      in (g1, d\<lparr>score_text := update_score_frites g1, lives_text := update_lives g1,
                fcanvas := show_start_screen_frites (draw_background (canvas_delete [''all''] (fcanvas d)))\<rparr>))"

section \<open>The window\<close>

text \<open>
  The window \<open>__init__\<close> sets up (lines 72--74): the title, whose fries
  \<open>U+1F35F\<close> is given as its UTF-8 bytes, the background, and no resizing.
  The fullscreen handlers (lines 151--160) set the \<open>-fullscreen\<close> attribute
  of the window with the flag; the result is the new game and the new window.
\<close>

definition FRITES_TITLE :: string where
  "FRITES_TITLE = map char_of [240 :: nat, 159, 141, 159] @ '' McDonald'' @ [CHR 0x27] @ ''s Frites Catcher''"

definition frites_window :: tk_window where
  "frites_window = tk_root\<lparr>win_title := FRITES_TITLE, win_bg := BG_COLOR_frites, win_resizable := (False, False)\<rparr>"

definition toggle_fullscreen_frites_ui :: "frites_game \<Rightarrow> tk_window \<Rightarrow> frites_game \<times> tk_window" where
  "toggle_fullscreen_frites_ui g w =
     (let g1 = g\<lparr>is_fullscreen := \<not> is_fullscreen g\<rparr> in (g1, w\<lparr>win_fullscreen := is_fullscreen g1\<rparr>))"

definition exit_fullscreen_frites_ui :: "frites_game \<Rightarrow> tk_window \<Rightarrow> frites_game \<times> tk_window" where
  "exit_fullscreen_frites_ui g w =
     (if is_fullscreen g then (g\<lparr>is_fullscreen := False\<rparr>, w\<lparr>win_fullscreen := False\<rparr>) else (g, w))"

section \<open>The program with its display\<close>

record frites_ui =
  fui_sys :: frites_sys
  fui_display :: fdisplay
  fui_window :: tk_window

text \<open>\<open>__init__\<close>: the labels' first texts (lines 92 and 101), the background and the start screen.\<close>

definition frites_ui_init :: frites_ui where
  "frites_ui_init = \<lparr>fui_sys = frites_sys_init,
     fui_display = \<lparr>fcanvas = show_start_screen_frites (draw_background []), banners = 0,
                    score_text = ''Score: 0'', lives_text = HEART @ '' '' @ HEART @ '' '' @ HEART\<rparr>,
     fui_window = frites_window\<rparr>"

text \<open>The events: those of the game, and the firing of a banner callback.\<close>

datatype frites_ui_event = UI_event frites_event | Combo_expire

definition run_loop_ui :: "frites_ui \<Rightarrow> fui_result outcome \<Rightarrow> frites_ui outcome" where
  "run_loop_ui u r =
     bind_out r (\<lambda>(g, rate, k, b, d).
       ret (u\<lparr>fui_sys := (fui_sys u)\<lparr>fgame := g, spawn_rate := rate, draws := k,
                                      callbacks := after_count (callbacks (fui_sys u)) b\<rparr>,
               fui_display := d\<rparr>))"

fun frites_ui_step :: "rng \<Rightarrow> frites_ui \<Rightarrow> frites_ui_event \<Rightarrow> frites_ui outcome" where
  "frites_ui_step rs u (UI_event (Motion x)) =
     ret (u\<lparr>fui_sys := (fui_sys u)\<lparr>fgame := on_mouse_move (fgame (fui_sys u)) x\<rparr>\<rparr>)"
| "frites_ui_step rs u (UI_event Button1) =
     run_loop_ui u (on_click_ui rs (spawn_rate (fui_sys u)) (fgame (fui_sys u)) (draws (fui_sys u)) (fui_display u))"
| "frites_ui_step rs u (UI_event Key_r) =
     (case restart_game_frites_ui (fgame (fui_sys u)) (fui_display u) of (g, d) \<Rightarrow>
        ret (u\<lparr>fui_sys := (fui_sys u)\<lparr>fgame := g\<rparr>, fui_display := d\<rparr>))"
| "frites_ui_step rs u (UI_event Key_F11) =
     (case toggle_fullscreen_frites_ui (fgame (fui_sys u)) (fui_window u) of (g, w) \<Rightarrow>
        ret (u\<lparr>fui_sys := (fui_sys u)\<lparr>fgame := g\<rparr>, fui_window := w\<rparr>))"
| "frites_ui_step rs u (UI_event Key_Escape) =
     (case exit_fullscreen_frites_ui (fgame (fui_sys u)) (fui_window u) of (g, w) \<Rightarrow>
        ret (u\<lparr>fui_sys := (fui_sys u)\<lparr>fgame := g\<rparr>, fui_window := w\<rparr>))"
| "frites_ui_step rs u (UI_event Tick) =
     (if callbacks (fui_sys u) = 0 then ret u
      else run_loop_ui (u\<lparr>fui_sys := (fui_sys u)\<lparr>callbacks := callbacks (fui_sys u) - 1\<rparr>\<rparr>)
             (game_loop_frites_ui rs (spawn_rate (fui_sys u)) (fgame (fui_sys u)) (draws (fui_sys u)) (fui_display u)))"
| "frites_ui_step rs u Combo_expire =
     (if banners (fui_display u) = 0 then ret u
      else ret (u\<lparr>fui_display := (fui_display u)\<lparr>fcanvas := canvas_delete [''combo''] (fcanvas (fui_display u)),
                                                 banners := banners (fui_display u) - 1\<rparr>\<rparr>))"

fun frites_ui_run :: "rng \<Rightarrow> frites_ui \<Rightarrow> frites_ui_event list \<Rightarrow> frites_ui outcome" where
  "frites_ui_run rs u [] = ret u"
| "frites_ui_run rs u (e # es) = bind_out (frites_ui_step rs u e) (\<lambda>u'. frites_ui_run rs u' es)"

inductive frites_ui_reach :: "rng \<Rightarrow> frites_ui \<Rightarrow> bool" for rs where
  start: "frites_ui_reach rs frites_ui_init"
| step: "frites_ui_reach rs u \<Longrightarrow> frites_ui_step rs u e = ret u' \<Longrightarrow> frites_ui_reach rs u'"

text \<open>The game's events of a run, the banner callbacks left out.\<close>

fun game_events :: "frites_ui_event list \<Rightarrow> frites_event list" where
  "game_events [] = []"
| "game_events (UI_event e # es) = e # game_events es"
| "game_events (Combo_expire # es) = game_events es"

text \<open>
  \<open>frites_display_ok\<close>: every item carries at most one tag; the 14 items of
  the background are the untagged ones; the four start texts are there exactly
  before the game is started, the game-over screen (five items with the
  best-combo line, four without) exactly when it is over, which it is only once
  started; at most one combo banner is shown, and only while one of its
  callbacks is registered; the labels show the score and the lives.
\<close>

definition frites_display_ok :: "frites_game \<Rightarrow> fdisplay \<Rightarrow> bool" where
  "frites_display_ok g d \<longleftrightarrow> single_tags (fcanvas d) \<and> length (untagged (fcanvas d)) = 14 \<and>
     length (tagged ''start'' (fcanvas d)) = (if game_started g then 0 else 4) \<and>
     length (tagged ''gameover'' (fcanvas d)) = (if game_over g then (if max_combo g > 1 then 5 else 4) else 0) \<and>
     (game_over g \<longrightarrow> game_started g) \<and>
     length (tagged ''combo'' (fcanvas d)) \<le> 1 \<and> (tagged ''combo'' (fcanvas d) \<noteq> [] \<longrightarrow> 0 < banners d) \<and>
     score_text d = update_score_frites g \<and> lives_text d = update_lives g"

text \<open>A handler's result with the display forgotten.\<close>

definition forget_fui :: "fui_result \<Rightarrow> frites_game \<times> int \<times> nat \<times> bool" where
  "forget_fui r = (case r of (g, rate, k, b, d) \<Rightarrow> (g, rate, k, b))"

definition pass_d :: "frites_game \<Rightarrow> frite list \<Rightarrow> fdisplay \<Rightarrow> fdisplay" where
  "pass_d g fs d = snd (snd (snd (frites_pass_ui g fs d)))"

section \<open>Drawing does not change the game\<close>

lemma forget_fui_simp [simp]: "forget_fui (g, rate, k, b, d) = (g, rate, k, b)"
  by (simp add: forget_fui_def)

lemma fullscreen_frites_ui_proj [simp]:
  "toggle_fullscreen_frites_ui g w = (toggle_fullscreen_frites g, w\<lparr>win_fullscreen := \<not> is_fullscreen g\<rparr>)"
  "exit_fullscreen_frites_ui g w =
     (exit_fullscreen_frites g, if is_fullscreen g then w\<lparr>win_fullscreen := False\<rparr> else w)"
  by (simp_all add: toggle_fullscreen_frites_ui_def exit_fullscreen_frites_ui_def toggle_fullscreen_frites_def
                    exit_fullscreen_frites_def)

lemma frites_pass_ui_split:
  "frites_pass_ui g fs d = (fst (frites_pass g fs), fst (snd (frites_pass g fs)), snd (snd (frites_pass g fs)), pass_d g fs d)"
proof -
  have "fst (frites_pass_ui g fs d) = fst (frites_pass g fs) \<and>
        fst (snd (frites_pass_ui g fs d)) = fst (snd (frites_pass g fs)) \<and>
        fst (snd (snd (frites_pass_ui g fs d))) = snd (snd (frites_pass g fs))"
    by (induction fs arbitrary: g d) (simp_all add: Let_def prod.case_eq_if)
  then show ?thesis by (simp add: pass_d_def prod_eq_iff)
qed

lemma game_loop_frites_ui_proj:
  "map_out forget_fui (game_loop_frites_ui rs rate g k d) = game_loop_frites rs rate g k"
proof (cases "\<not> game_started g \<or> game_over g \<or> rate = 0")
  case True
  then show ?thesis by (auto simp: game_loop_frites_ui_def game_loop_frites_def py_mod_def)
next
  case False
  let ?g1 = "g\<lparr>frame_count := frame_count g + 1\<rparr>"
  obtain g2 k2 where s: "(if (frame_count ?g1) mod rate = 0 then spawn_frite rs ?g1 k else (?g1, k)) = (g2, k2)"
    by (metis surj_pair)
  obtain g4 passed stop where p: "frites_pass (g2\<lparr>paquet := update_paquet (paquet g2)\<rparr>) (frites g2) = (g4, passed, stop)"
    by (metis prod_cases3)
  from False s p show ?thesis
    by (simp add: game_loop_frites_ui_def game_loop_frites_def Let_def frites_pass_ui_split)
qed

lemma on_click_ui_proj: "map_out forget_fui (on_click_ui rs rate g k d) = on_click rs rate g k"
  by (simp add: on_click_ui_def on_click_def start_game_ui_def start_game_def game_loop_frites_ui_proj)

lemma run_loop_ui_proj:
  "map_out fui_sys (run_loop_ui u r) = run_loop (fui_sys u) (map_out forget_fui r)"
  by (cases r rule: outcome_cases) (auto simp: run_loop_ui_def run_loop_def)

lemma frites_ui_step_proj:
  "map_out fui_sys (frites_ui_step rs u (UI_event e)) = frites_step rs (fui_sys u) e"
  "map_out fui_sys (frites_ui_step rs u Combo_expire) = ret (fui_sys u)"
  by (cases e) (simp_all add: run_loop_ui_proj on_click_ui_proj game_loop_frites_ui_proj restart_game_frites_ui_def Let_def)

lemma frites_ui_reach_proj: "frites_ui_reach rs u \<Longrightarrow> frites_reach rs (fui_sys u)"
proof (induction rule: frites_ui_reach.induct)
  case start
  then show ?case by (simp add: frites_ui_init_def frites_reach.start)
next
  case (step u e u')
  show ?case
  proof (cases e)
    case (UI_event e')
    with step.hyps(2) have "frites_step rs (fui_sys u) e' = ret (fui_sys u')"
      by (simp flip: frites_ui_step_proj)
    with step.IH show ?thesis by (rule frites_reach.step)
  next
    case Combo_expire
    with step.hyps(2) step.IH show ?thesis by (auto simp: split: if_splits)
  qed
qed

section \<open>The display follows the game\<close>

lemma frites_screens_keep [simp]:
  "length (untagged (draw_background c)) = length (untagged c) + 14"
  "tagged t (draw_background c) = tagged t c" "single_tags (draw_background c) = single_tags c"
  "t \<noteq> ''start'' \<Longrightarrow> tagged t (show_start_screen_frites c) = tagged t c"
  "length (tagged ''start'' (show_start_screen_frites c)) = length (tagged ''start'' c) + 4"
  "untagged (show_start_screen_frites c) = untagged c"
  "single_tags (show_start_screen_frites c) = single_tags c"
  "t \<noteq> ''gameover'' \<Longrightarrow> tagged t (show_game_over_frites g c) = tagged t c"
  "length (tagged ''gameover'' (show_game_over_frites g c)) =
     length (tagged ''gameover'' c) + (if max_combo g > 1 then 5 else 4)"
  "untagged (show_game_over_frites g c) = untagged c"
  "single_tags (show_game_over_frites g c) = single_tags c"
  by (simp_all add: draw_background_def draw_cloud_def show_start_screen_frites_def show_game_over_frites_def Let_def)

lemma frites_display_ok_flags:
  "game_started g' = game_started g \<Longrightarrow> game_over g' = game_over g \<Longrightarrow>
   (game_over g \<Longrightarrow> max_combo g' = max_combo g) \<Longrightarrow> score g' = score g \<Longrightarrow> lives g' = lives g \<Longrightarrow>
   frites_display_ok g' d = frites_display_ok g d"
  by (cases "game_over g") (simp_all add: frites_display_ok_def update_score_frites_def update_lives_def)

lemma show_combo_labels [simp]:
  "score_text (show_combo g d) = score_text d" "lives_text (show_combo g d) = lives_text d"
  by (simp_all add: show_combo_def)

lemma show_combo_ok:
  "frites_display_ok g d \<Longrightarrow> frites_display_ok g (show_combo g' d)"
  by (auto simp: show_combo_def frites_display_ok_def untagged_delete tagged_delete_other single_tags_delete)

lemma frites_pass_ui_outcome:
  "classify g f = Caught \<Longrightarrow> frites_pass_ui g (f # fs) d =
     (let g2 = g\<lparr>score := score g + (10 + combo g * 5), combo := combo g + 1,
                 max_combo := max (max_combo g) (combo g + 1)\<rparr>
      in case frites_pass_ui g2 fs (show_combo g2 (d\<lparr>score_text := update_score_frites g2\<rparr>)) of
           (g3, rest, stop, d3) \<Rightarrow> (g3, (frite_update f, True) # rest, stop, d3))"
  "classify g f = Missed \<Longrightarrow> lives g - 1 \<le> 0 \<Longrightarrow> frites_pass_ui g (f # fs) d =
     (let g1 = g\<lparr>lives := lives g - 1, combo := 0, game_over := True\<rparr>
      in (g1, (frite_update f, True) # map (\<lambda>f. (f, False)) fs, True,
          d\<lparr>lives_text := update_lives g1, fcanvas := show_game_over_frites g1 (fcanvas d)\<rparr>))"
  "classify g f = Missed \<Longrightarrow> \<not> lives g - 1 \<le> 0 \<Longrightarrow> frites_pass_ui g (f # fs) d =
     (let g1 = g\<lparr>lives := lives g - 1, combo := 0\<rparr>
      in case frites_pass_ui g1 fs (d\<lparr>lives_text := update_lives g1\<rparr>) of
           (g3, rest, stop, d3) \<Rightarrow> (g3, (frite_update f, True) # rest, stop, d3))"
  "classify g f = Falling \<Longrightarrow> frites_pass_ui g (f # fs) d =
     (case frites_pass_ui g fs d of (g3, rest, stop, d3) \<Rightarrow> (g3, (frite_update f, False) # rest, stop, d3))"
  by (simp_all add: classify_def Let_def update_lives_def split: if_splits prod.split)

lemma frites_pass_ui_ok:
  "frites_display_ok g d \<Longrightarrow> \<not> game_over g \<Longrightarrow> game_started g \<Longrightarrow>
   frites_pass_ui g fs d = (g', p, s, d') \<Longrightarrow> frites_display_ok g' d'"
proof (induction fs arbitrary: g d g' p s d')
  case Nil
  then show ?case by simp
next
  case (Cons f fs)
  consider (caught) "classify g f = Caught" | (last) "classify g f = Missed" "lives g - 1 \<le> 0"
    | (missed) "classify g f = Missed" "\<not> lives g - 1 \<le> 0" | (falling) "classify g f = Falling"
    by (cases "classify g f") auto
  then show ?case
  proof cases
    case caught
    let ?g2 = "g\<lparr>score := score g + (10 + combo g * 5), combo := combo g + 1,
                 max_combo := max (max_combo g) (combo g + 1)\<rparr>"
    have "frites_display_ok ?g2 (d\<lparr>score_text := update_score_frites ?g2\<rparr>)"
      using Cons.prems(1,2) by (simp add: frites_display_ok_def update_lives_def)
    from Cons.prems(4) obtain rest where
      "frites_pass_ui ?g2 fs (show_combo ?g2 (d\<lparr>score_text := update_score_frites ?g2\<rparr>)) = (g', rest, s, d')"
      unfolding frites_pass_ui_outcome(1) [OF caught] Let_def by (auto split: prod.splits)
    from Cons.IH [OF show_combo_ok [OF \<open>frites_display_ok ?g2 _\<close>] _ _ this] Cons.prems(2,3) show ?thesis by simp
  next
    case last
    from Cons.prems(4) have "g' = g\<lparr>lives := lives g - 1, combo := 0, game_over := True\<rparr>"
      "d' = d\<lparr>lives_text := update_lives g', fcanvas := show_game_over_frites g' (fcanvas d)\<rparr>"
      unfolding frites_pass_ui_outcome(2) [OF last] Let_def prod.inject by auto
    with Cons.prems(1-3) show ?thesis by (simp add: frites_display_ok_def update_score_frites_def update_lives_def)
  next
    case missed
    let ?g1 = "g\<lparr>lives := lives g - 1, combo := 0\<rparr>"
    have "frites_display_ok ?g1 (d\<lparr>lives_text := update_lives ?g1\<rparr>)"
      using Cons.prems(1) by (simp add: frites_display_ok_def update_score_frites_def)
    from Cons.prems(4) obtain rest where "frites_pass_ui ?g1 fs (d\<lparr>lives_text := update_lives ?g1\<rparr>) = (g', rest, s, d')"
      unfolding frites_pass_ui_outcome(3) [OF missed] Let_def by (auto split: prod.splits)
    from Cons.IH [OF \<open>frites_display_ok ?g1 _\<close> _ _ this] Cons.prems(2,3) show ?thesis by simp
  next
    case falling
    from Cons.prems(4) obtain rest where "frites_pass_ui g fs d = (g', rest, s, d')"
      unfolding frites_pass_ui_outcome(4) [OF falling] by (auto split: prod.splits)
    from Cons.IH [OF Cons.prems(1-3) this] show ?thesis .
  qed
qed

lemma game_loop_frites_ui_ok:
  assumes ok: "frites_display_ok g d"
    and gl: "game_loop_frites_ui rs rate g k d = ret (g', rate', k', b, d')"
  shows "frites_display_ok g' d'"
proof (cases "\<not> game_started g \<or> game_over g \<or> rate = 0")
  case True
  with ok gl show ?thesis
    by (cases "game_started g \<and> \<not> game_over g") (auto simp: game_loop_frites_ui_def py_mod_def)
next
  case False
  let ?g1 = "g\<lparr>frame_count := frame_count g + 1\<rparr>"
  obtain g2 k2 where sp: "(if (frame_count ?g1) mod rate = 0 then spawn_frite rs ?g1 k else (?g1, k)) = (g2, k2)"
    by (metis surj_pair)
  let ?g3 = "g2\<lparr>paquet := update_paquet (paquet g2)\<rparr>"
  have fl: "game_started ?g3 = game_started g" "game_over ?g3 = game_over g" "max_combo ?g3 = max_combo g"
    "score ?g3 = score g" "lives ?g3 = lives g"
    using sp by (auto simp: spawn_frite_eq split: if_splits)
  obtain g4 passed stop d4 where p: "frites_pass_ui ?g3 (frites g2) d = (g4, passed, stop, d4)"
    by (metis prod_cases4)
  have "frites_display_ok ?g3 d" using ok frites_display_ok_flags [OF fl(1,2) _ fl(4,5)] fl(3) by simp
  with False fl have ok4: "frites_display_ok g4 d4" by (intro frites_pass_ui_ok [OF _ _ _ p]) simp_all
  from False gl sp p have r: "(if stop then ret (g4\<lparr>frites := map fst passed\<rparr>, rate', k2, False, d4)
      else ret (g4\<lparr>frites := map fst (filter (\<lambda>(f, removed). \<not> removed) passed)\<rparr>, rate', k2, True,
                d4\<lparr>fcanvas := redraw_frites (g4\<lparr>frites := map fst (filter (\<lambda>(f, removed). \<not> removed) passed)\<rparr>) (fcanvas d4)\<rparr>))
      = ret (g', rate', k', b, d')"
    by (auto simp: game_loop_frites_ui_def Let_def split: if_splits)
  have s4: "single_tags (fcanvas d4)" using ok4 by (simp add: frites_display_ok_def)
  show ?thesis
  proof (cases stop)
    case True
    with r ok4 show ?thesis by (auto simp: frites_display_ok_def update_score_frites_def update_lives_def)
  next
    case False
    with r have "g' = g4\<lparr>frites := map fst (filter (\<lambda>(f, removed). \<not> removed) passed)\<rparr>"
      "d' = d4\<lparr>fcanvas := redraw_frites g' (fcanvas d4)\<rparr>" by auto
    with ok4 redraw_frites_keeps [OF s4] show ?thesis
      by (simp add: frites_display_ok_def update_score_frites_def update_lives_def)
  qed
qed

lemma on_click_ui_ok:
  assumes "frites_display_ok g d" "on_click_ui rs rate g k d = ret (g', rate', k', b, d')"
  shows "frites_display_ok g' d'"
proof (cases "game_started g")
  case True
  with assms show ?thesis by (simp add: on_click_ui_def)
next
  case False
  let ?d0 = "d\<lparr>fcanvas := canvas_delete [''start'', ''gameover''] (fcanvas d)\<rparr>"
  from False assms(2) have gl: "game_loop_frites_ui rs rate (g\<lparr>game_started := True\<rparr>) k ?d0 = ret (g', rate', k', b, d')"
    by (simp add: on_click_ui_def start_game_ui_def)
  from assms(1) False have "frites_display_ok (g\<lparr>game_started := True\<rparr>) ?d0"
    by (simp add: frites_display_ok_def untagged_delete tagged_delete_other single_tags_delete
                  update_score_frites_def update_lives_def)
  from game_loop_frites_ui_ok [OF this gl] show ?thesis .
qed

lemma restart_game_frites_ui_ok:
  "restart_game_frites_ui g d = (g', d') \<Longrightarrow> frites_display_ok g' d'"
  by (auto simp: restart_game_frites_ui_def restart_game_frites_def frites_display_ok_def Let_def
                 update_score_frites_def update_lives_def)

lemma run_loop_ui_ok:
  assumes "run_loop_ui u r = ret u'" "\<And>g rate k b d. r = ret (g, rate, k, b, d) \<Longrightarrow> frites_display_ok g d"
  shows "frites_display_ok (fgame (fui_sys u')) (fui_display u')"
  using assms by (auto simp: run_loop_ui_def bind_out_eq_ret)

lemma combo_expire_ok:
  "frites_display_ok g d \<Longrightarrow>
   frites_display_ok g (d\<lparr>fcanvas := canvas_delete [''combo''] (fcanvas d), banners := banners d - 1\<rparr>)"
  by (simp add: frites_display_ok_def untagged_delete tagged_delete_other single_tags_delete)

lemma frites_display_ok_game:
  "frites_display_ok g d \<Longrightarrow> frites_display_ok (on_mouse_move g x) d \<and>
     frites_display_ok (toggle_fullscreen_frites g) d \<and> frites_display_ok (exit_fullscreen_frites g) d"
  by (simp add: frites_display_ok_def on_mouse_move_def toggle_fullscreen_frites_def exit_fullscreen_frites_def
                update_score_frites_def update_lives_def)

lemma frites_ui_step_ok:
  assumes ok: "frites_display_ok (fgame (fui_sys u)) (fui_display u)"
    and st: "frites_ui_step rs u e = ret u'"
  shows "frites_display_ok (fgame (fui_sys u')) (fui_display u')"
proof (cases e)
  case Combo_expire
  with st ok combo_expire_ok [OF ok] show ?thesis by (auto split: if_splits)
next
  case (UI_event e')
  show ?thesis
  proof (cases e')
    case Button1
    with UI_event st show ?thesis by simp (erule run_loop_ui_ok, erule on_click_ui_ok [OF ok])
  next
    case Key_r
    obtain g d where r: "restart_game_frites_ui (fgame (fui_sys u)) (fui_display u) = (g, d)" by (metis surj_pair)
    with UI_event Key_r st have "u' = u\<lparr>fui_sys := (fui_sys u)\<lparr>fgame := g\<rparr>, fui_display := d\<rparr>" by simp
    with restart_game_frites_ui_ok [OF r] show ?thesis by simp
  next
    case Tick
    show ?thesis
    proof (cases "callbacks (fui_sys u) = 0")
      case True
      with UI_event Tick ok st show ?thesis by simp
    next
      case False
      with UI_event Tick st show ?thesis by simp (erule run_loop_ui_ok, erule game_loop_frites_ui_ok [OF ok])
    qed
  qed (use UI_event st frites_display_ok_game [OF ok] in auto)
qed

lemma frites_ui_reach_ok:
  "frites_ui_reach rs u \<Longrightarrow> frites_display_ok (fgame (fui_sys u)) (fui_display u)"
proof (induction rule: frites_ui_reach.induct)
  case start
  show ?case
    by (simp add: frites_ui_init_def frites_sys_init_def frites_init_def frites_display_ok_def update_score_frites_def
                  update_lives_def py_str_def nat_str.simps DIGITS_def py_strip_def py_mul_str_def HEART_def
                  is_py_space_def numeral_3_eq_3)
next
  case (step u e u')
  from frites_ui_step_ok [OF step.IH step.hyps(2)] show ?case .
qed

section \<open>The window follows the fullscreen flag\<close>

lemma run_loop_ui_window: "run_loop_ui u r = ret u' \<Longrightarrow> fui_window u' = fui_window u"
  by (auto simp: run_loop_ui_def bind_out_eq_ret)

lemma frites_ui_step_window:
  assumes w: "fui_window u = frites_window\<lparr>win_fullscreen := is_fullscreen (fgame (fui_sys u))\<rparr>"
    and inv: "frites_sys_inv (fui_sys u)" and st: "frites_ui_step rs u e = ret u'"
  shows "fui_window u' = frites_window\<lparr>win_fullscreen := is_fullscreen (fgame (fui_sys u'))\<rparr>"
proof (cases "e = UI_event Key_F11 \<or> e = UI_event Key_Escape")
  case True
  with w st show ?thesis by (auto simp: toggle_fullscreen_frites_def exit_fullscreen_frites_def)
next
  case False
  have "is_fullscreen (fgame (fui_sys u')) = is_fullscreen (fgame (fui_sys u)) \<and> fui_window u' = fui_window u"
  proof (cases e)
    case (UI_event e')
    with st have "frites_step rs (fui_sys u) e' = ret (fui_sys u')" by (simp flip: frites_ui_step_proj)
    from frites_step_fullscreen [OF inv this] False UI_event
    have "is_fullscreen (fgame (fui_sys u')) = is_fullscreen (fgame (fui_sys u))" by simp
    moreover from False st UI_event have "fui_window u' = fui_window u"
      by (cases e') (auto split: if_splits prod.splits dest: run_loop_ui_window)
    ultimately show ?thesis ..
  next
    case Combo_expire
    with st show ?thesis by (auto split: if_splits)
  qed
  with w show ?thesis by simp
qed

lemma frites_ui_reach_window:
  "frites_ui_reach rs u \<Longrightarrow> fui_window u = frites_window\<lparr>win_fullscreen := is_fullscreen (fgame (fui_sys u))\<rparr>"
proof (induction rule: frites_ui_reach.induct)
  case start
  show ?case by (simp add: frites_ui_init_def frites_sys_init_def frites_init_def frites_window_def tk_root_def)
next
  case (step u e u')
  from frites_ui_step_window [OF step.IH frites_reach_sys_inv [OF frites_ui_reach_proj [OF step.hyps(1)]] step.hyps(2)]
  show ?case .
qed

section \<open>Properties of the catcher program with its display\<close>

text \<open>The state after the first click: the start screen gone, one tick run and redrawn.\<close>

abbreviation frites_demo_display :: fdisplay where
  "frites_demo_display \<equiv>
     \<lparr>fcanvas = redraw_frites frites_demo_game
        (canvas_delete [''start'', ''gameover''] (show_start_screen_frites (draw_background []))),
      banners = 0, score_text = ''Score: 0'', lives_text = HEART @ '' '' @ HEART @ '' '' @ HEART\<rparr>"

lemma frites_demo_ui_reach:
  "frites_ui_reach (\<lambda>_. 0) \<lparr>fui_sys = frites_demo, fui_display = frites_demo_display, fui_window = frites_window\<rparr>"
proof -
  have "frites_ui_step (\<lambda>_. 0) frites_ui_init (UI_event Button1) =
          ret \<lparr>fui_sys = frites_demo, fui_display = frites_demo_display, fui_window = frites_window\<rparr>"
    by (simp add: frites_ui_init_def frites_sys_init_def frites_init_def new_paquet_def run_loop_ui_def
        on_click_ui_def start_game_ui_def game_loop_frites_ui_def update_paquet_def FRITE_SPAWN_RATE_init_def
        WINDOW_WIDTH_frites_def WINDOW_HEIGHT_frites_def Let_def)
  from frites_ui_reach.step [OF frites_ui_reach.start this] show ?thesis .
qed

text \<open>
  C35. Drawing never changes the catcher game: the program with its display and
  its banner callbacks, run on any sequence of events, computes the same game,
  \<open>FRITE_SPAWN_RATE\<close>, random cursor and pending \<open>game_loop\<close> callbacks (or
  the same exception) as the game logic run on the same events without the
  banner callbacks.
\<close>

theorem frites_ui_refines_game:
  "map_out fui_sys (frites_ui_run rs u es) = frites_run rs (fui_sys u) (game_events es)"
proof (induction es arbitrary: u)
  case Nil
  then show ?case by simp
next
  case (Cons e es)
  have "map_out fui_sys (frites_ui_run rs u (e # es)) =
          bind_out (map_out fui_sys (frites_ui_step rs u e)) (\<lambda>s. frites_run rs s (game_events es))"
    by (simp add: map_out_bind bind_map_out Cons.IH)
  then show ?case by (cases e) (simp_all add: frites_ui_step_proj)
qed

text \<open>
  C36. In every state the catcher program reaches, its canvas matches the game:
  the 14 background items (sky, three ovals for each of four clouds, ground)
  are there, the four start texts exactly until the game is started, the
  game-over screen exactly when the game is over, with five items when the best
  combo exceeds 1 and four otherwise; no item carries two tags.
\<close>

theorem frites_overlays_follow_flags:
  assumes "frites_ui_reach rs u"
  shows "single_tags (fcanvas (fui_display u)) \<and> length (untagged (fcanvas (fui_display u))) = 14 \<and>
    length (tagged ''start'' (fcanvas (fui_display u))) = (if game_started (fgame (fui_sys u)) then 0 else 4) \<and>
    length (tagged ''gameover'' (fcanvas (fui_display u))) =
      (if game_over (fgame (fui_sys u)) then (if max_combo (fgame (fui_sys u)) > 1 then 5 else 4) else 0)"
  using frites_ui_reach_ok [OF assms] by (simp add: frites_display_ok_def)

theorem frites_overlays_follow_flags_witness:
  "frites_ui_reach (\<lambda>_. 0) \<lparr>fui_sys = frites_demo, fui_display = frites_demo_display, fui_window = frites_window\<rparr> \<and>
   tagged ''start'' (fcanvas frites_demo_display) = [] \<and> tagged ''gameover'' (fcanvas frites_demo_display) = [] \<and>
   length (untagged (fcanvas frites_demo_display)) = 14"
  using frites_overlays_follow_flags [OF frites_demo_ui_reach] frites_demo_ui_reach by (simp add: frites_init_def)

text \<open>
  C37. The combo banner is never doubled: in every reachable state at most one
  item tagged \<open>combo\<close> is on the canvas, and while one is shown a callback
  that deletes it is registered.
\<close>

theorem combo_banner_single:
  assumes "frites_ui_reach rs u"
  shows "length (tagged ''combo'' (fcanvas (fui_display u))) \<le> 1 \<and>
         (tagged ''combo'' (fcanvas (fui_display u)) \<noteq> [] \<longrightarrow> 0 < banners (fui_display u))"
  using frites_ui_reach_ok [OF assms] by (simp add: frites_display_ok_def)

theorem combo_banner_single_witness:
  "frites_ui_reach (\<lambda>_. 0) \<lparr>fui_sys = frites_demo, fui_display = frites_demo_display, fui_window = frites_window\<rparr> \<and>
   length (tagged ''combo'' (fcanvas frites_demo_display)) \<le> 1"
  using combo_banner_single [OF frites_demo_ui_reach] frites_demo_ui_reach by simp

text \<open>
  C39. The two labels always show the game: in every reachable state the score
  label reads \<open>Score: \<close> and the decimal numeral of the score, which reads
  back to the score, and the lives label holds one heart per life left,
  separated by single spaces, and nothing once no life is left.
\<close>

theorem frites_labels_show_state:
  assumes "frites_ui_reach rs u"
  shows "score_text (fui_display u) = ''Score: '' @ py_str (score (fgame (fui_sys u))) \<and>
         parse_int (drop 7 (score_text (fui_display u))) = score (fgame (fui_sys u)) \<and>
         lives_text (fui_display u) =
           (if lives (fgame (fui_sys u)) \<le> 0 then []
            else concat (replicate (nat (lives (fgame (fui_sys u))) - 1) (HEART @ '' '')) @ HEART)"
  using frites_ui_reach_ok [OF assms]
  by (simp add: frites_display_ok_def update_score_frites_def update_lives_def py_strip_hearts)

theorem frites_labels_show_state_witness:
  "frites_ui_reach (\<lambda>_. 0) \<lparr>fui_sys = frites_demo, fui_display = frites_demo_display, fui_window = frites_window\<rparr> \<and>
   lives frites_demo_game = 3 \<and> lives_text frites_demo_display = concat (replicate 2 (HEART @ '' '')) @ HEART"
  using frites_labels_show_state [OF frites_demo_ui_reach] frites_demo_ui_reach by (simp add: frites_init_def)

end
