(* ===== verification/Spec2Isabelle.thy ===== *)
theory Spec2Isabelle
  imports Snake_UI Frites_UI
begin

text \<open>
  \<^bold>\<open>A verification library for the two Tk arcade games of the repository.\<close>

  \<^bold>\<open>The program.\<close> \<open>src/snake.py\<close> is a grid snake game, \<open>src/frites_game.py\<close> a
  ``catch the falling fries'' game. Each is one Python object (\<open>SnakeGame\<close>,
  \<open>FritesGame\<close>) whose methods Tk calls: key and mouse bindings call input
  handlers, and the game loop re-registers itself with \<open>root.after\<close> after every
  tick. Randomness (food cells, fry positions and speeds) comes from Python's
  \<open>random\<close> module. Drawing on the canvas is output only: it is modelled as
  a display list apart from the game logic, and joined to it for the snake.

  \<^bold>\<open>Theories and what they model.\<close>
  \<^item> \<open>Prelude\<close>: the outcome of a handler (\<open>None\<close>: never returns; \<open>Inl e\<close>:
    raises the Python exception \<open>e\<close>; \<open>Inr v\<close>: returns with state \<open>v\<close>) and
    its bind; the random source as a stream of raw draws read through a cursor,
    with \<open>randint\<close> and \<open>uniform\<close> mapping one draw into the range the call asks
    for; Python's \<open>%\<close>; the count of registered timer callbacks.
  \<^item> \<open>Snake_Core\<close>: \<open>src/snake.py\<close>. The record \<open>snake_game\<close> holds the fields of
    \<open>SnakeGame\<close> the logic uses (the deque \<open>snake\<close> as a list, head first);
    \<open>spawn_food\<close> (a \<open>partial_function (option)\<close>: its \<open>while True\<close> loop has
    no bound), \<open>move_snake\<close>, \<open>game_loop\<close>, \<open>init_game\<close>, \<open>restart_game\<close>,
    \<open>toggle_pause\<close>, \<open>change_direction\<close>, \<open>toggle_fullscreen\<close> and
    \<open>exit_fullscreen\<close> are the methods of the same names, every guard and early
    return kept. A method that calls \<open>game_loop\<close> returns whether it
    re-registered itself.
  \<^item> \<open>Snake_Invariant\<close>: the invariant \<open>snake_inv\<close> of a game object and the
    lemmas that every handler keeps it; what \<open>spawn_food\<close> and \<open>move_snake\<close>
    compute on each branch; when \<open>spawn_food\<close> returns and when it cannot.
  \<^item> \<open>Snake_Events\<close>: the program as Tk runs it. \<open>snake_sys\<close> is the game
    object, the random cursor and the number of pending \<open>game_loop\<close> callbacks;
    \<open>snake_step\<close> dispatches one event (a bound key, or a pending callback
    firing), \<open>snake_run\<close> a list of them, \<open>snake_reach\<close> is the set of states
    reachable from program start. The status of the spec (not started, running,
    paused, over) is \<open>status_of\<close>, its allowed transitions \<open>status_next\<close>.
  \<^item> \<open>Frites_Core\<close>: \<open>src/frites_game.py\<close>. The records \<open>frite\<close> and
    \<open>paquet\<close> are the classes \<open>Frite\<close> and \<open>PaquetFrites\<close> (\<open>new_frite\<close>,
    \<open>frite_update\<close>, \<open>is_off_screen\<close>, \<open>new_paquet\<close>, \<open>move_to\<close>,
    \<open>update_paquet\<close>, \<open>get_catch_rect\<close> their methods); \<open>frites_game\<close> holds
    the fields of \<open>FritesGame\<close>. The handlers keep their names, except
    \<open>toggle_fullscreen\<close>, \<open>exit_fullscreen\<close>, \<open>restart_game\<close> and
    \<open>game_loop\<close>, which carry the suffix \<open>_frites\<close>. \<open>game_loop_frites\<close>
    takes and returns the module global \<open>FRITE_SPAWN_RATE\<close> and computes
    \<open>frame_count % FRITE_SPAWN_RATE\<close> with Python's \<open>%\<close>, error included;
    its \<open>for frite in self.frites\<close> loop is \<open>frites_pass\<close>, with the early
    return on the last life.
  \<^item> \<open>Frites_Props\<close>: the catcher's bounds and its approach to the target; the
    reference fold \<open>tally_run\<close> over the outcome (\<open>classify\<close>) of each fry
    and the proof that \<open>frites_pass\<close> computes it (\<open>frites_pass_spec\<close>);
    the bounds and the combo of that fold; one tick decomposed
    (\<open>game_loop_frites_tick\<close>); the invariant \<open>frites_inv\<close> of the game
    object and its preservation by a tick (\<open>game_loop_frites_inv\<close>).
  \<^item> \<open>Frites_Events\<close>: the catcher program as Tk runs it: \<open>frites_sys\<close> is
    the game object, \<open>FRITE_SPAWN_RATE\<close>, the random cursor and the pending
    \<open>game_loop\<close> callbacks; \<open>frites_step\<close> dispatches the pointer, click, key
    and timer events, \<open>frites_reach\<close> is the set of reachable states and
    \<open>frites_sys_inv\<close> their invariant; \<open>frites_status_of\<close> and
    \<open>frites_status_next\<close> are the spec's status machine for this game.
  \<^item> \<open>Canvas\<close>: the Tk canvas as a display list of items (shape, coordinates,
    fill, tags); \<open>create\<close> appends an item, \<open>canvas_delete\<close> removes the items
    carrying a tag. The toplevel window \<open>tk_window\<close> (title, background,
    resizability, minimum size, \<open>-fullscreen\<close> attribute) and Tk's defaults
    \<open>tk_root\<close>.
  \<^item> \<open>Snake_Render\<close>: \<open>draw_grid\<close> and \<open>draw_game\<close> of \<open>src/snake.py\<close>
    (food, body cells, the head's eyes by heading) on that canvas.
  \<^item> \<open>Py_Text\<close>: the Python string operations of the labels: \<open>str()\<close> of
    an integer (\<open>py_str\<close>), \<open>str * int\<close>, \<open>strip()\<close>, and the heart of the
    lives label as its UTF-8 bytes; \<open>parse_int\<close> reads a numeral back.
  \<^item> \<open>Snake_UI\<close>: the snake program with its canvas and score label. The text screens
    \<open>show_start_screen\<close>, \<open>show_pause_screen\<close> and \<open>show_game_over\<close>,
    and the handlers of \<open>src/snake.py\<close> with their canvas calls in source
    order (\<open>game_loop_ui\<close>, \<open>init_game_ui\<close>, \<open>restart_game_ui\<close>,
    \<open>toggle_pause_ui\<close>, \<open>change_direction_ui\<close>: the overlay deletions,
    the grid redrawn on restart, the pause and game-over screens, the redraw of
    a tick) and \<open>update_score\<close>, called by \<open>init_game\<close> and, on food, by
    \<open>move_snake\<close> (\<open>move_snake_ui\<close>); the window \<open>__init__\<close> configures
    (\<open>snake_window\<close>) and the fullscreen handlers with their
    \<open>root.attributes\<close> call (\<open>toggle_fullscreen_ui\<close>,
    \<open>exit_fullscreen_ui\<close>); \<open>snake_ui\<close> is \<open>snake_sys\<close> with the canvas,
    the label's text and the window, \<open>snake_ui_step\<close> its event step,
    \<open>snake_ui_reach\<close> its reachable states.
  \<^item> \<open>Frites_Render\<close>: \<open>draw_paquet\<close>, \<open>draw_frite\<close> and the redraw at
    the end of \<open>game_loop\<close> (\<open>redraw_frites\<close>) of \<open>src/frites_game.py\<close>.
  \<^item> \<open>Frites_UI\<close>: the catcher program with its display. The scenery
    (\<open>draw_background\<close>, \<open>draw_cloud\<close>), the screens
    (\<open>show_start_screen_frites\<close>, \<open>show_game_over_frites\<close>), the combo
    banner \<open>show_combo\<close> with its one-second deletion callback, and the
    handlers with their canvas calls (\<open>frites_pass_ui\<close>,
    \<open>game_loop_frites_ui\<close>, \<open>start_game_ui\<close>, \<open>on_click_ui\<close>,
    \<open>restart_game_frites_ui\<close>) with the label texts \<open>update_score_frites\<close>
    and \<open>update_lives\<close>; the display \<open>fdisplay\<close> is the canvas, the number
    of pending banner callbacks and the two label texts; the window
    (\<open>frites_window\<close>, \<open>toggle_fullscreen_frites_ui\<close>,
    \<open>exit_fullscreen_frites_ui\<close>) as for the snake; \<open>frites_ui\<close> is
    \<open>frites_sys\<close> with the display and the window, \<open>frites_ui_step\<close> its
    step on the game's events and on \<open>Combo_expire\<close>, the firing of a banner
    callback.

  \<^bold>\<open>What is proved.\<close> For the snake: the body stays a duplicate-free chain of
  adjacent grid cells with the food off it and the score equal to ten per cell
  grown (C1); a move grows by exactly one cell and 10 points on food and keeps
  length and score otherwise (C2); no committed heading is the reverse of the
  previous one (C3, C4); the spec's eating scenario (C5); \<open>spawn_food\<close>
  returns as soon as a draw is free (C6) and never returns once the snake covers
  the grid (C7); collisions end the game (C8); restarting, or pausing and
  resuming within one period, leaves two callback chains (C9, C10), against the
  spec's ``exactly one tick callback is ever in flight''; the three flags refine
  the spec's status machine (C11); no handler raises in a reachable state (C12);
  a running game always has a tick scheduled (C13).
  For the catcher: lives stay in 0..3 and the game is over exactly when none is
  left (C14); the per-fry loop refines a fold over the fries' outcomes and keeps
  exactly the falling fries (C15); the combo is the number of catches since the
  last miss, so it resets exactly on a miss (C16); score and best combo never
  decrease but on restart (C17); the catcher, \<open>FRITE_SPAWN_RATE\<close> and the
  fries' speeds stay within their bounds (C18); no event raises, in particular
  no division by a zero spawn rate (C19); the catcher reaches its target within
  2 pixels in the number of ticks its speed needs (C20); a tick that goes on
  leaves no caught or fallen fry (C21); restarting and clicking within one period
  leaves two callback chains (C22); a restart rebuilds the initial game but keeps
  the lowered spawn rate (C23); a running game always has a tick scheduled (C24);
  the two flags refine the spec's status machine, without pause (C25).
  For the drawing: each snake redraw replaces the snake and food items instead
  of piling them up (C26) and draws them inside the window (C27); each catcher
  redraw replaces the catcher and fries the same way (C28); the catch zone spans
  the drawn opening's width and reaches 25 pixels below it (C29).
  The snake's committed and buffered headings are always unit steps and never
  opposite (C30). In both programs the window's \<open>-fullscreen\<close> attribute
  always equals the flag \<open>is_fullscreen\<close>, the rest of the window stays as
  \<open>__init__\<close> configured it, and F11 twice, or F11 then Escape from a window
  that is not fullscreen, gives back the exact state, canvas, labels and window
  included (C31). Fries spawn exactly on the
  frames that are multiples of \<open>FRITE_SPAWN_RATE\<close>, at a random \<open>x\<close> in
  50..750, and end their first tick last in the list (C32). The snake program
  with its canvas computes exactly what the game logic computes (C33), and in
  every reachable state its canvas holds the 900 grid cells, the start texts
  exactly before the first start, the pause overlay exactly while paused and the
  game-over screen exactly when the game is over (C34). The same holds for the
  catcher: with its canvas and banner callbacks it computes what the game logic
  computes on the same events (C35); its canvas holds the 14 background items,
  the start texts exactly before the start, the game-over screen exactly when
  over, with the best-combo line exactly when the best combo exceeds 1 (C36);
  and at most one combo banner is shown, always with a pending deletion (C37).
  The labels show the game: the snake's score label reads \<open>Score: \<close> and the
  score's numeral, which reads back to the score (C38); the catcher's score
  label likewise, and its lives label one heart per life left (C39). With their displays, no handler of either program raises in a reachable
  state, and every catcher event returns (C40).

  \<^bold>\<open>Bounds and fuel.\<close> No fuel is used. The one unbounded loop of the
  sources, \<open>spawn_food\<close>, is a \<open>partial_function (option)\<close>; its
  termination is proved from the draws (C6) and its non-termination on a full
  board (C7). All other recursion is structural (event lists, the fry list,
  the outcome list of the reference fold). The catcher's convergence (C20) is
  stated for any number of updates; no bound is assumed on run lengths.
  Python integers are unbounded and are modelled as \<open>int\<close>; no value of the
  programs wraps.

  \<^bold>\<open>Not modelled.\<close> The logic's states (\<open>snake_sys\<close>, \<open>frites_sys\<close>)
  do not carry the canvas; \<open>Snake_UI\<close> and \<open>Frites_UI\<close> add it and prove
  that it changes nothing of the logic (C33, C35). The strings and fonts of
  the texts drawn on the canvas are left out (the labels' texts are modelled);
  the window's configuration is modelled (title, background, resizability,
  minimum size, the fullscreen attribute), but not the widget layout: the
  frames and their \<open>pack\<close> geometry, the labels' and canvas's fonts, colours and
  border options, and the instructions label, whose text no handler reads or
  changes (\<open>src/snake.py\<close> lines 46--79, \<open>src/frites_game.py\<close> lines
  82--126 apart from the labels' texts); the key bindings are modelled by the
  events the step functions dispatch, not as a table of key names; Tk's timing (the 150 ms and 30 ms delays) is
  abstracted to the order in which pending callbacks fire. Floating-point
  arithmetic of the fries' positions is modelled by real arithmetic (no
  rounding). The one-second delay of \<open>show_combo\<close>'s callback is abstracted
  like the others: a pending banner callback may fire after any event, and it
  deletes whatever banner is shown.
\<close>

section \<open>Properties across the two programs\<close>

text \<open>
  C31. Fullscreen is a round trip in both programs with their windows: in
  every state either program reaches, the window is the one \<open>__init__\<close> set up
  with its \<open>-fullscreen\<close> attribute equal to the flag \<open>is_fullscreen\<close>;
  pressing F11 twice gives back the state exactly (game, random cursor,
  callbacks, canvas, labels and window), and from a window that is not
  fullscreen F11 then Escape does too.
\<close>

theorem fullscreen_roundtrip:
  "(snake_ui_reach rs u \<longrightarrow>
      ui_window u = snake_window\<lparr>win_fullscreen := snake_game.is_fullscreen (game (ui_sys u))\<rparr> \<and>
      snake_ui_run rs u [KeyF11, KeyF11] = ret u \<and>
      (\<not> snake_game.is_fullscreen (game (ui_sys u)) \<longrightarrow> snake_ui_run rs u [KeyF11, KeyEscape] = ret u)) \<and>
   (frites_ui_reach rs' v \<longrightarrow>
      fui_window v = frites_window\<lparr>win_fullscreen := frites_game.is_fullscreen (fgame (fui_sys v))\<rparr> \<and>
      frites_ui_run rs' v [UI_event Key_F11, UI_event Key_F11] = ret v \<and>
      (\<not> frites_game.is_fullscreen (fgame (fui_sys v)) \<longrightarrow>
         frites_ui_run rs' v [UI_event Key_F11, UI_event Key_Escape] = ret v))"
proof (intro conjI impI)
  assume "snake_ui_reach rs u"
  note w = snake_ui_reach_window [OF this]
  then show "ui_window u = snake_window\<lparr>win_fullscreen := snake_game.is_fullscreen (game (ui_sys u))\<rparr>" .
  from w show "snake_ui_run rs u [KeyF11, KeyF11] = ret u"
    by (simp add: Snake_Core.toggle_fullscreen_def)
  assume "\<not> snake_game.is_fullscreen (game (ui_sys u))"
  with w show "snake_ui_run rs u [KeyF11, KeyEscape] = ret u"
    by (simp add: Snake_Core.toggle_fullscreen_def Snake_Core.exit_fullscreen_def)
next
  assume "frites_ui_reach rs' v"
  note w = frites_ui_reach_window [OF this]
  then show "fui_window v = frites_window\<lparr>win_fullscreen := frites_game.is_fullscreen (fgame (fui_sys v))\<rparr>" .
  from w show "frites_ui_run rs' v [UI_event Key_F11, UI_event Key_F11] = ret v"
    by (simp add: toggle_fullscreen_frites_def)
  assume "\<not> frites_game.is_fullscreen (fgame (fui_sys v))"
  with w show "frites_ui_run rs' v [UI_event Key_F11, UI_event Key_Escape] = ret v"
    by (simp add: toggle_fullscreen_frites_def exit_fullscreen_frites_def)
qed

theorem fullscreen_roundtrip_witness:
  "snake_ui_reach (\<lambda>_. 0) \<lparr>ui_sys = \<lparr>game = demo_game\<lparr>paused := True\<rparr>, cursor = 2, pending = 1\<rparr>,
                             ui_canvas = demo_ui_canvas, ui_score_label = ''Score: 0'', ui_window = snake_window\<rparr> \<and>
   frites_ui_reach (\<lambda>_. 0) \<lparr>fui_sys = frites_demo, fui_display = frites_demo_display, fui_window = frites_window\<rparr> \<and>
   snake_ui_run (\<lambda>_. 0) \<lparr>ui_sys = \<lparr>game = demo_game\<lparr>paused := True\<rparr>, cursor = 2, pending = 1\<rparr>,
                             ui_canvas = demo_ui_canvas, ui_score_label = ''Score: 0'', ui_window = snake_window\<rparr>
     [KeyF11, KeyEscape] =
     ret \<lparr>ui_sys = \<lparr>game = demo_game\<lparr>paused := True\<rparr>, cursor = 2, pending = 1\<rparr>,
          ui_canvas = demo_ui_canvas, ui_score_label = ''Score: 0'', ui_window = snake_window\<rparr> \<and>
   frites_ui_run (\<lambda>_. 0) \<lparr>fui_sys = frites_demo, fui_display = frites_demo_display, fui_window = frites_window\<rparr>
     [UI_event Key_F11, UI_event Key_Escape] =
     ret \<lparr>fui_sys = frites_demo, fui_display = frites_demo_display, fui_window = frites_window\<rparr> \<and>
   \<not> win_fullscreen snake_window \<and> \<not> win_fullscreen frites_window"
proof -
  have h: "\<not> snake_game.is_fullscreen demo_game" "\<not> frites_game.is_fullscreen (fgame frites_demo)"
    by (simp_all add: snake_init_def frites_init_def)
  from demo_ui_reach frites_demo_ui_reach
       fullscreen_roundtrip [of "\<lambda>_. 0" "\<lparr>ui_sys = \<lparr>game = demo_game\<lparr>paused := True\<rparr>, cursor = 2, pending = 1\<rparr>,
                             ui_canvas = demo_ui_canvas, ui_score_label = ''Score: 0'', ui_window = snake_window\<rparr>"
                         "\<lambda>_. 0" "\<lparr>fui_sys = frites_demo, fui_display = frites_demo_display, fui_window = frites_window\<rparr>"] h
  show ?thesis by (simp add: snake_window_def frites_window_def tk_root_def)
qed



end
